(* ===== verification/Prelude.thy ===== *)
theory Prelude
  imports Main "HOL-Library.Word"
begin

section \<open>Shared types, Rust arithmetic and decimal printing\<close>

text \<open>
  What every component of the development shares: the machine integers of the
  Rust sources (\<open>u8\<close>, \<open>u16\<close>, \<open>u64\<close> and the two's complement \<open>i64\<close>),
  the outcome of a Rust call (a value, an error, or a panic), the arithmetic of
  the two Cargo profiles, and the decimal printing of integers that
  \<^verbatim>\<open>format!("{}")\<close> does. The generic lemmas on lists, maps and printed
  numbers that several components use are proved here once.
\<close>

subsection \<open>Types\<close>

type_synonym u8 = "8 word"
type_synonym u16 = "16 word"
type_synonym u64 = "64 word"

text \<open>\<open>i64\<close> is a 64-bit word read by \<open>sint\<close>.\<close>

type_synonym i64 = "64 word"
type_synonym bytes = "u8 list"

type_synonym group_id = u64
type_synonym node_id = u64

text \<open>
  What a Rust call comes back with: \<open>Ok v\<close>, \<open>Err e\<close>, or an unwinding panic
  (a failed \<^verbatim>\<open>assert!\<close>, an \<^verbatim>\<open>unwrap\<close> of a failure, or an
  arithmetic overflow in a build with overflow checks).
\<close>

datatype ('e, 'a) outcome = Ok 'a | Err 'e | Panicked

named_theorems outcome_rules \<open>case distinctions on outcomes\<close>
named_theorems store_defs \<open>definitions of the storage operations\<close>
named_theorems fs_rules \<open>effect of the file-system operations on a path\<close>

fun is_ok :: "('e, 'a) outcome \<Rightarrow> bool" where
  "is_ok (Ok _) = True"
| "is_ok (Err _) = False"
| "is_ok Panicked = False"

lemma is_ok_iff [outcome_rules]: "is_ok r \<longleftrightarrow> (\<exists>v. r = Ok v)"
  by (cases r) auto

text \<open>\<^verbatim>\<open>Result::map_err\<close>: a panic is not an error value and passes through.\<close>

fun map_err :: "('e \<Rightarrow> 'f) \<Rightarrow> ('e, 'a) outcome \<Rightarrow> ('f, 'a) outcome" where
  "map_err f (Ok v) = Ok v"
| "map_err f (Err e) = Err (f e)"
| "map_err f Panicked = Panicked"

subsection \<open>Integer arithmetic in the two Cargo profiles\<close>

text \<open>
  \<^verbatim>\<open>a + b\<close> panics on overflow when overflow checks are on (the \<open>Debug\<close>
  profile and tests) and wraps around when they are off (\<open>Release\<close>).
  \<open>None\<close> is the panic.
\<close>

datatype profile = Debug | Release

definition add_u64 :: "profile \<Rightarrow> u64 \<Rightarrow> u64 \<Rightarrow> u64 option" where
  "add_u64 p a b = (if p = Debug \<and> 2 ^ 64 \<le> unat a + unat b then None else Some (a + b))"

definition add_i64 :: "profile \<Rightarrow> i64 \<Rightarrow> i64 \<Rightarrow> i64 option" where
  "add_i64 p a b =
     (if p = Debug \<and> \<not> (- (2 ^ 63) \<le> sint a + sint b \<and> sint a + sint b < 2 ^ 63)
      then None else Some (a + b))"

definition saturating_add_u16 :: "u16 \<Rightarrow> u16 \<Rightarrow> u16" where
  "saturating_add_u16 a b = (if 2 ^ 16 \<le> unat a + unat b then - 1 else a + b)"

definition saturating_sub_u16 :: "u16 \<Rightarrow> u16 \<Rightarrow> u16" where
  "saturating_sub_u16 a b = (if a < b then 0 else a - b)"

lemma add_u64_Some: "add_u64 p a b = Some c \<Longrightarrow> c = a + b"
  by (auto simp: add_u64_def split: if_splits)

lemma add_i64_Some: "add_i64 p a b = Some c \<Longrightarrow> c = a + b"
  by (auto simp: add_i64_def split: if_splits)

lemma add_i64_Release [simp]: "add_i64 Release a b = Some (a + b)"
  by (simp add: add_i64_def)

lemma unat_max_u16 [simp]: "unat (- 1 :: u16) = 65535"
proof -
  have "(65535 :: u16) = - 1" by simp
  then have "unat (- 1 :: u16) = unat (65535 :: u16)" by (rule arg_cong [OF sym])
  also have "\<dots> = 65535" by (simp only: unat_numeral) (simp add: take_bit_eq_mod)
  finally show ?thesis .
qed

lemma unat_saturating_add_u16:
  "unat (saturating_add_u16 a b) = min 65535 (unat a + unat b)"
proof (cases "2 ^ 16 \<le> unat a + unat b")
  case True
  then show ?thesis by (simp add: saturating_add_u16_def)
next
  case False
  then have "unat (a + b) = unat a + unat b"
    by (subst unat_add_lem [THEN iffD1]) auto
  with False show ?thesis by (simp add: saturating_add_u16_def)
qed

lemma unat_saturating_sub_u16:
  "unat (saturating_sub_u16 a b) = unat a - unat b"
  by (auto simp: saturating_sub_u16_def word_less_nat_alt unat_sub word_le_nat_alt)

text \<open>A 64-bit successor that does not overflow is the successor of the number it stands for.\<close>

lemma unat_plus_one: "a \<noteq> (- 1 :: u64) \<Longrightarrow> unat (a + 1) = Suc (unat a)"
  by (metis Suc_eq_plus1_left add.commute add.right_inverse add_left_imp_eq unatSuc)

lemma add_u64_one_Some:
  "a \<noteq> - 1 \<Longrightarrow> add_u64 p a 1 = Some (a + 1)"
  using unat_plus_one [of a] unsigned_less [where ?'a = nat, of "a + 1"]
  by (auto simp: add_u64_def)

text \<open>\<^verbatim>\<open>x as u16\<close> keeps the low 16 bits.\<close>

lemma unat_as_u16: "unat (ucast (x :: u64) :: u16) = unat x mod 65536"
  by (simp add: unsigned_ucast_eq unsigned_take_bit_eq take_bit_eq_mod)

lemma unat_ucast_u16: "unat x \<le> 65535 \<Longrightarrow> unat (ucast (x :: u64) :: u16) = unat x"
  by (simp add: unat_as_u16)

subsection \<open>Decimal printing\<close>

definition digit_char :: "nat \<Rightarrow> char" where
  "digit_char d = char_of (48 + d)"

fun show_nat :: "nat \<Rightarrow> string" where
  "show_nat n = (if n < 10 then [digit_char n] else show_nat (n div 10) @ [digit_char (n mod 10)])"

declare show_nat.simps [simp del]

definition show_u64 :: "u64 \<Rightarrow> string" where
  "show_u64 w = show_nat (unat w)"

lemma digit_char_inj: "a < 10 \<Longrightarrow> b < 10 \<Longrightarrow> digit_char a = digit_char b \<Longrightarrow> a = b"
proof -
  assume "a < 10" "b < 10" "digit_char a = digit_char b"
  then have "of_char (digit_char a) = (of_char (digit_char b) :: nat)" by simp
  with \<open>a < 10\<close> \<open>b < 10\<close> show "a = b" by (simp add: digit_char_def)
qed

lemma digit_char_not_dash: "d < 10 \<Longrightarrow> digit_char d \<noteq> CHR ''-''"
proof
  assume "d < 10" "digit_char d = CHR ''-''"
  then have "of_char (digit_char d) = (of_char (CHR ''-'') :: nat)" by simp
  with \<open>d < 10\<close> show False by (simp add: digit_char_def)
qed

lemma show_nat_nonempty [simp]: "show_nat n \<noteq> []"
  by (subst show_nat.simps) simp

lemma show_nat_no_dash: "CHR ''-'' \<notin> set (show_nat n)"
proof (induction n rule: show_nat.induct)
  case (1 n)
  show ?case
  proof (cases "n < 10")
    case True
    then show ?thesis by (subst show_nat.simps) (simp add: digit_char_not_dash [symmetric])
  next
    case False
    with 1 show ?thesis
      by (subst show_nat.simps) (simp add: digit_char_not_dash [symmetric])
  qed
qed

lemma show_nat_inj: "show_nat m = show_nat n \<Longrightarrow> m = n"
proof (induction m arbitrary: n rule: show_nat.induct)
  case (1 m)
  show ?case
  proof (cases "m < 10")
    case True
    then have m: "show_nat m = [digit_char m]"
      by (subst show_nat.simps) simp
    with 1(2) have "n < 10"
      by (subst (asm) (2) show_nat.simps) (auto split: if_splits simp: append_eq_Cons_conv dest: sym)
    then have "show_nat n = [digit_char n]"
      by (subst show_nat.simps) simp
    with m 1(2) True \<open>n < 10\<close> show ?thesis by (auto dest: digit_char_inj)
  next
    case False
    then have m: "show_nat m = show_nat (m div 10) @ [digit_char (m mod 10)]"
      by (subst show_nat.simps) simp
    with 1(2) have "\<not> n < 10"
      by (subst (asm) (2) show_nat.simps) (auto split: if_splits)
    then have n: "show_nat n = show_nat (n div 10) @ [digit_char (n mod 10)]"
      by (subst show_nat.simps) simp
    from m n 1(2) have "show_nat (m div 10) = show_nat (n div 10)"
      and "digit_char (m mod 10) = digit_char (n mod 10)" by simp_all
    with 1(1) False have "m div 10 = n div 10" and "m mod 10 = n mod 10"
      by (auto intro: digit_char_inj)
    then show ?thesis by (metis div_mult_mod_eq)
  qed
qed

lemma show_u64_inj [simp]: "show_u64 a = show_u64 b \<longleftrightarrow> a = b"
  by (auto simp: show_u64_def dest!: show_nat_inj intro: word_unat_eq_iff [THEN iffD2])

lemma show_u64_no_dash [simp]: "CHR ''-'' \<notin> set (show_u64 a)"
  by (simp add: show_u64_def show_nat_no_dash)

lemma show_u64_nonempty [simp]: "show_u64 a \<noteq> []"
  by (simp add: show_u64_def)

lemma append_sep_inj:
  assumes "c \<notin> set xs" "c \<notin> set xs'"
  shows "xs @ c # ys = xs' @ c # ys' \<longleftrightarrow> xs = xs' \<and> ys = ys'"
  using assms
proof (induction xs arbitrary: xs')
  case Nil
  then show ?case by (cases xs') auto
next
  case (Cons x xs)
  then show ?case by (cases xs') auto
qed

text \<open>\<^verbatim>\<open>String::as_bytes\<close>.\<close>

definition str_bytes :: "string \<Rightarrow> bytes" where
  "str_bytes s = map of_char s"

subsection \<open>Lists\<close>

lemma filter_compl_append:
  "sorted_wrt (\<lambda>a b. P b \<longrightarrow> P a) xs \<Longrightarrow> filter P xs @ filter (\<lambda>x. \<not> P x) xs = xs"
proof (induction xs)
  case Nil
  then show ?case by simp
next
  case (Cons x xs)
  show ?case
  proof (cases "P x")
    case True
    with Cons show ?thesis by simp
  next
    case False
    with Cons.prems have "filter P xs = []" by (auto simp: filter_empty_conv)
    with Cons False show ?thesis by simp
  qed
qed

subsection \<open>Searching lists\<close>

lemma find_append: "find P (xs @ ys) = (case find P xs of Some x \<Rightarrow> Some x | None \<Rightarrow> find P ys)"
  by (induction xs) auto

subsection \<open>Runs of calls and simulation\<close>

text \<open>A sequence of calls on one state, with the answers in order.\<close>

fun run_calls :: "('i \<Rightarrow> 's \<Rightarrow> 'a \<times> 's) \<Rightarrow> 'i list \<Rightarrow> 's \<Rightarrow> 'a list \<times> 's" where
  "run_calls call [] s = ([], s)"
| "run_calls call (i # is) s = (case call i s of (a, s1) \<Rightarrow> (case run_calls call is s1 of (as, s2) \<Rightarrow> (a # as, s2)))"

text \<open>
  A component whose calls are simulated by those of another, under an abstraction of the
  state and a relation on the answers; \<open>'c\<close> is the context of both.
\<close>

locale call_simulation =
  fixes ok :: "'c \<Rightarrow> bool"
    and concrete :: "'c \<Rightarrow> 'i \<Rightarrow> 's \<Rightarrow> 'a \<times> 's"
    and abstract :: "'c \<Rightarrow> 'j \<Rightarrow> 't \<Rightarrow> 'b \<times> 't"
    and conv :: "'i \<Rightarrow> 'j"
    and abs :: "'c \<Rightarrow> 's \<Rightarrow> 't"
    and agrees :: "'c \<Rightarrow> 'a \<Rightarrow> 'b \<Rightarrow> bool"
    and invar :: "'c \<Rightarrow> 's \<Rightarrow> bool"
  assumes simulates: "ok c \<Longrightarrow> invar c s \<Longrightarrow> concrete c i s = (a, s') \<Longrightarrow>
    invar c s' \<and> (\<exists>b. abstract c (conv i) (abs c s) = (b, abs c s') \<and> agrees c a b)"
begin

lemma runs_agree:
  assumes "ok c" "invar c s" "run_calls (concrete c) is s = (as, s')"
  shows "invar c s' \<and>
    (\<exists>bs. run_calls (abstract c) (map conv is) (abs c s) = (bs, abs c s') \<and> list_all2 (agrees c) as bs)"
  using assms(2,3)
proof (induction "is" arbitrary: s as)
  case (Cons i "is")
  obtain a s1 as2 where st: "concrete c i s = (a, s1)" "run_calls (concrete c) is s1 = (as2, s')" "as = a # as2"
    using Cons.prems(2) by (auto split: prod.splits)
  from simulates [OF assms(1) Cons.prems(1) st(1)] have "invar c s1" by blast
  from simulates [OF assms(1) Cons.prems(1) st(1)] Cons.IH [OF this st(2)] st(3) show ?case by auto
qed simp

end

end
