(* ===== verification/Core_Types.thy ===== *)
theory Core_Types
  imports Prelude "HOL-Library.Option_ord"
begin

section \<open>multiraft-core: configuration, errors, trigger and log types\<close>

text \<open>
  The types of \<^verbatim>\<open>crates/multiraft-core\<close> (\<^verbatim>\<open>config.rs\<close>,
  \<^verbatim>\<open>error.rs\<close>, \<^verbatim>\<open>snapshot.rs\<close>, \<^verbatim>\<open>type_config.rs\<close>) and the
  openraft data that \<^verbatim>\<open>type_config.rs\<close> names. openraft itself is a
  third-party crate: the committed leader id and the membership are type variables
  \<open>'l\<close> and \<open>'m\<close>, and what the program calls on them is the parameter
  \<open>raft_types\<close>.
\<close>

subsection \<open>config.rs\<close>

datatype node_role = Voter | Standby

datatype snapshot_mode = Disabled | StandbyOffload

text \<open>A \<open>SocketAddr\<close>; a v6 address is kept in its printed form.\<close>

datatype socket_addr = V4 "nat \<times> nat \<times> nat \<times> nat" u16 | V6 string

fun show_socket_addr :: "socket_addr \<Rightarrow> string" where
  "show_socket_addr (V4 (a, b, c, d) port) =
     show_nat a @ ''.'' @ show_nat b @ ''.'' @ show_nat c @ ''.'' @ show_nat d @ '':'' @
     show_nat (unat port)"
| "show_socket_addr (V6 s) = s"

definition loopback :: "u16 \<Rightarrow> socket_addr" where
  "loopback port = V4 (127, 0, 0, 1) port"

text \<open>
  \<^verbatim>\<open>format!("127.0.0.1:{n}").parse::<SocketAddr>()\<close>: a port above 65535 does
  not parse.
\<close>

definition parse_loopback :: "u64 \<Rightarrow> socket_addr option" where
  "parse_loopback n = (if unat n \<le> 65535 then Some (loopback (ucast n)) else None)"

record cluster_config =
  cfg_node_id :: node_id
  cfg_peers :: "(node_id \<times> socket_addr) list"
  cfg_data_dir :: "string list"
  cfg_heartbeat_interval_ms :: u64
  cfg_election_timeout_min_ms :: u64
  cfg_election_timeout_max_ms :: u64
  cfg_role :: node_role
  cfg_snapshot_mode :: snapshot_mode
  cfg_snapshot_keep :: u64
  cfg_admin_advertise_addr :: "socket_addr option"

fun for_test_peers :: "profile \<Rightarrow> node_id list \<Rightarrow> (node_id \<times> socket_addr) list option" where
  "for_test_peers prof [] = Some []"
| "for_test_peers prof (i # is) =
     (case add_u64 prof 19000 i of
        None \<Rightarrow> None
      | Some port \<Rightarrow>
          (case (parse_loopback port, for_test_peers prof is) of
             (Some a, Some rest) \<Rightarrow> Some ((i, a) # rest)
           | _ \<Rightarrow> None))"

text \<open>\<^verbatim>\<open>ClusterConfig::for_test\<close>; \<open>None\<close> is the panic of its \<^verbatim>\<open>expect\<close>.\<close>

definition for_test :: "profile \<Rightarrow> node_id \<Rightarrow> node_id list \<Rightarrow> cluster_config option" where
  "for_test prof nid peer_ids =
     map_option (\<lambda>peers.
       \<lparr>cfg_node_id = nid, cfg_peers = peers, cfg_data_dir = [],
        cfg_heartbeat_interval_ms = 100, cfg_election_timeout_min_ms = 300,
        cfg_election_timeout_max_ms = 600, cfg_role = Voter, cfg_snapshot_mode = Disabled,
        cfg_snapshot_keep = 2, cfg_admin_advertise_addr = None\<rparr>)
       (for_test_peers prof peer_ids)"

text \<open>\<^verbatim>\<open>config.peers.iter().find(|(n, _)| *n == id)\<close>: the first address listed for a node.\<close>

definition peer_addr :: "cluster_config \<Rightarrow> node_id \<Rightarrow> socket_addr option" where
  "peer_addr cfg nid = map_option snd (find (\<lambda>(n, _). n = nid) (cfg_peers cfg))"

subsection \<open>error.rs\<close>

datatype multiraft_error = NotLeader "node_id option" | UnknownGroup u64 | Other string

record propose_ok =
  po_index :: u64
  po_term :: u64

subsection \<open>snapshot.rs\<close>

definition standby_snapshot_trigger :: bytes where
  "standby_snapshot_trigger = 0 # str_bytes ''multiraft.standby_snapshot_trigger'' @ [0]"

definition is_standby_snapshot_trigger :: "bytes \<Rightarrow> bool" where
  "is_standby_snapshot_trigger data \<longleftrightarrow> data = standby_snapshot_trigger"

record snapshot_advertisement =
  ad_group :: u64
  ad_last_index :: u64
  ad_last_term :: u64
  ad_snapshot_id :: string
  ad_size :: u64
  ad_sha256_hex :: string
  ad_fetch_url :: string

subsection \<open>type_config.rs\<close>

record request =
  req_data :: bytes

definition request_new :: "bytes \<Rightarrow> request" where
  "request_new d = \<lparr>req_data = d\<rparr>"

definition show_request :: "request \<Rightarrow> string" where
  "show_request r = ''Request('' @ show_nat (length (req_data r)) @ '' bytes)''"

record response =
  resp_effects :: bytes

definition response_new :: "bytes \<Rightarrow> response" where
  "response_new e = \<lparr>resp_effects = e\<rparr>"

definition response_none :: response where
  "response_none = \<lparr>resp_effects = []\<rparr>"

text \<open>The openraft data of the type configuration.\<close>

datatype 'l log_id = LogId (lid_leader: 'l) (lid_index: u64)

datatype 'm entry_payload = Blank | Normal request | Membership 'm

record ('l, 'm) entry =
  ent_log_id :: "'l log_id"
  ent_payload :: "'m entry_payload"

record ('l, 'm) stored_membership =
  stm_log_id :: "'l log_id option"
  stm_membership :: 'm

record ('l, 'm) snapshot_meta =
  meta_last_log_id :: "'l log_id option"
  meta_last_membership :: "('l, 'm) stored_membership"
  meta_snapshot_id :: string

record ('l, 'm) raft_snapshot =
  snap_meta :: "('l, 'm) snapshot_meta"
  snap_data :: bytes

text \<open>
  What the program calls on openraft's leader ids and memberships, and the one fact
  it relies on: \<^verbatim>\<open>new_committed(term, node)\<close> builds an id with that term.
\<close>

record ('l, 'm) raft_types =
  rt_term :: "'l \<Rightarrow> u64"
  rt_new_committed :: "u64 \<Rightarrow> node_id \<Rightarrow> 'l"
  rt_show_leader :: "'l \<Rightarrow> string"
  rt_default_membership :: 'm

definition raft_types_ok :: "('l, 'm) raft_types \<Rightarrow> bool" where
  "raft_types_ok rt \<longleftrightarrow> (\<forall>t n. rt_term rt (rt_new_committed rt t n) = t)"

definition default_stored_membership :: "('l, 'm) raft_types \<Rightarrow> ('l, 'm) stored_membership" where
  "default_stored_membership rt = \<lparr>stm_log_id = None, stm_membership = rt_default_membership rt\<rparr>"

text \<open>A concrete instance: leader ids are pairs of term and node, memberships lists of nodes.\<close>

definition pair_raft_types :: "(u64 \<times> node_id, node_id list) raft_types" where
  "pair_raft_types =
     \<lparr>rt_term = fst, rt_new_committed = Pair,
      rt_show_leader = (\<lambda>(t, n). ''T'' @ show_u64 t @ ''-N'' @ show_u64 n),
      rt_default_membership = []\<rparr>"

lemma pair_raft_types_ok [simp]: "raft_types_ok pair_raft_types"
  by (simp add: raft_types_ok_def pair_raft_types_def)

text \<open>Log ids are ordered by leader id first and index second, as openraft derives it.\<close>

instantiation log_id :: (linorder) linorder
begin

definition less_eq_log_id :: "'a log_id \<Rightarrow> 'a log_id \<Rightarrow> bool" where
  "less_eq_log_id a b \<longleftrightarrow>
     lid_leader a < lid_leader b \<or> (lid_leader a = lid_leader b \<and> lid_index a \<le> lid_index b)"

definition less_log_id :: "'a log_id \<Rightarrow> 'a log_id \<Rightarrow> bool" where
  "less_log_id a b \<longleftrightarrow>
     lid_leader a < lid_leader b \<or> (lid_leader a = lid_leader b \<and> lid_index a < lid_index b)"

instance
  by standard
    (auto simp: less_eq_log_id_def less_log_id_def intro: log_id.expand)

end

text \<open>
  The methods of openraft's \<open>RaftEntry\<close> that the log stores call on an entry, and
  their documented relation.
\<close>

record ('e, 'l) raft_entry =
  entry_log_id :: "'e \<Rightarrow> 'l log_id"
  entry_index :: "'e \<Rightarrow> u64"

definition raft_entry_ok :: "('e, 'l) raft_entry \<Rightarrow> bool" where
  "raft_entry_ok re \<longleftrightarrow> (\<forall>e. entry_index re e = lid_index (entry_log_id re e))"

definition type_config_entry :: "(('l, 'm) entry, 'l) raft_entry" where
  "type_config_entry = \<lparr>entry_log_id = ent_log_id, entry_index = (\<lambda>e. lid_index (ent_log_id e))\<rparr>"

lemma type_config_entry_ok [simp]: "raft_entry_ok type_config_entry"
  by (simp add: raft_entry_ok_def type_config_entry_def)

subsection \<open>Facts\<close>

lemma for_test_peers_ids: "for_test_peers prof is = Some ps \<Longrightarrow> map fst ps = is"
  by (induction "is" arbitrary: ps) (auto split: option.splits)

lemma for_test_peer_port:
  assumes "for_test_peers prof is = Some ps" "(i, a) \<in> set ps"
  shows "\<exists>port. a = loopback port \<and> unat port = unat (19000 + i)"
  using assms
proof (induction "is" arbitrary: ps)
  case Nil
  then show ?case by simp
next
  case (Cons j js)
  then obtain b rest where
    b: "parse_loopback (19000 + j) = Some b" and rest: "for_test_peers prof js = Some rest"
    and ps: "ps = (j, b) # rest"
    by (auto split: option.splits dest: add_u64_Some)
  show ?case
  proof (cases "(i, a) = (j, b)")
    case True
    with b show ?thesis
      by (auto simp: parse_loopback_def unat_ucast_u16 split: if_splits)
  next
    case False
    with Cons ps rest show ?thesis by auto
  qed
qed

end
