(* ===== verification/BTree_Map.thy ===== *)
theory BTree_Map
  imports Prelude
begin

section \<open>std::collections::BTreeMap\<close>

text \<open>
  A \<open>BTreeMap\<close> is its list of entries in ascending key order, which is what
  \<^verbatim>\<open>iter\<close>, \<^verbatim>\<open>values\<close>, \<^verbatim>\<open>range\<close> and \<^verbatim>\<open>next_back\<close> expose.
  The interface the stores rely on (what a lookup returns after an insertion or a
  removal) is the locale \<open>keyed_store\<close>; the insertion and removal loops of the
  log stores are proved correct inside it, and the sorted list interprets it.
\<close>

type_synonym ('k, 'v) btree_map = "('k \<times> 'v) list"

definition bt_wf :: "('k::linorder, 'v) btree_map \<Rightarrow> bool" where
  "bt_wf m \<longleftrightarrow> sorted_wrt (<) (map fst m)"

definition bt_get :: "('k, 'v) btree_map \<Rightarrow> 'k \<Rightarrow> 'v option" where
  "bt_get m k = map_of m k"

definition bt_contains_key :: "('k, 'v) btree_map \<Rightarrow> 'k \<Rightarrow> bool" where
  "bt_contains_key m k \<longleftrightarrow> bt_get m k \<noteq> None"

definition bt_insert :: "'k::linorder \<Rightarrow> 'v \<Rightarrow> ('k, 'v) btree_map \<Rightarrow> ('k, 'v) btree_map" where
  "bt_insert k v m = filter (\<lambda>(j, _). j < k) m @ (k, v) # filter (\<lambda>(j, _). k < j) m"

definition bt_remove :: "'k \<Rightarrow> ('k, 'v) btree_map \<Rightarrow> ('k, 'v) btree_map" where
  "bt_remove k m = filter (\<lambda>(j, _). j \<noteq> k) m"

definition bt_values :: "('k, 'v) btree_map \<Rightarrow> 'v list" where
  "bt_values m = map snd m"

definition bt_next_back :: "('k, 'v) btree_map \<Rightarrow> ('k \<times> 'v) option" where
  "bt_next_back m = (if m = [] then None else Some (last m))"

datatype 'k bound = Included 'k | Excluded 'k | Unbounded

type_synonym 'k range_bounds = "'k bound \<times> 'k bound"

fun above :: "'k::linorder bound \<Rightarrow> 'k \<Rightarrow> bool" where
  "above (Included a) k = (a \<le> k)"
| "above (Excluded a) k = (a < k)"
| "above Unbounded k = True"

fun below :: "'k::linorder bound \<Rightarrow> 'k \<Rightarrow> bool" where
  "below (Included b) k = (k \<le> b)"
| "below (Excluded b) k = (k < b)"
| "below Unbounded k = True"

definition in_bounds :: "'k::linorder range_bounds \<Rightarrow> 'k \<Rightarrow> bool" where
  "in_bounds r k \<longleftrightarrow> above (fst r) k \<and> below (snd r) k"

text \<open>
  \<^verbatim>\<open>BTreeMap::range\<close> panics when the start is past the end, or when both
  bounds exclude the same key.
\<close>

fun bad_range :: "'k::linorder range_bounds \<Rightarrow> bool" where
  "bad_range (Included a, Included b) = (b < a)"
| "bad_range (Included a, Excluded b) = (b < a)"
| "bad_range (Excluded a, Included b) = (b < a)"
| "bad_range (Excluded a, Excluded b) = (b \<le> a)"
| "bad_range (Unbounded, _) = False"
| "bad_range (_, Unbounded) = False"

definition bt_select :: "'k::linorder range_bounds \<Rightarrow> ('k, 'v) btree_map \<Rightarrow> ('k, 'v) btree_map" where
  "bt_select r m = filter (\<lambda>(k, _). in_bounds r k) m"

text \<open>
  \<^verbatim>\<open>BTreeMap::range\<close> panics on a bad range, as its documentation says. (The present
  library checks the range while it descends, so a map that never held an entry escapes the
  check; what a map holds does not tell it from one that was emptied.)
\<close>

definition bt_range :: "'k::linorder range_bounds \<Rightarrow> ('k, 'v) btree_map \<Rightarrow> ('k, 'v) btree_map option" where
  "bt_range r m = (if bad_range r then None else Some (bt_select r m))"

subsection \<open>The keyed-store interface and its loops\<close>

locale keyed_store =
  fixes empty :: 'm
    and insert :: "'k \<Rightarrow> 'v \<Rightarrow> 'm \<Rightarrow> 'm"
    and remove :: "'k \<Rightarrow> 'm \<Rightarrow> 'm"
    and get :: "'m \<Rightarrow> 'k \<Rightarrow> 'v option"
    and invar :: "'m \<Rightarrow> bool"
  assumes get_empty: "get empty k = None"
    and get_insert: "invar m \<Longrightarrow> get (insert k v m) j = (if j = k then Some v else get m j)"
    and get_remove: "invar m \<Longrightarrow> get (remove k m) j = (if j = k then None else get m j)"
    and invar_empty: "invar empty"
    and invar_insert: "invar m \<Longrightarrow> invar (insert k v m)"
    and invar_remove: "invar m \<Longrightarrow> invar (remove k m)"
begin

text \<open>\<^verbatim>\<open>for entry in entries { map.insert(key(entry), entry); }\<close>\<close>

lemma invar_insert_all: "invar m \<Longrightarrow> invar (fold (\<lambda>e. insert (key e) e) es m)"
  by (induction es arbitrary: m) (auto intro: invar_insert)

lemma get_insert_all:
  "invar m \<Longrightarrow> get (fold (\<lambda>e. insert (key e) e) es m) k =
     (case find (\<lambda>e. key e = k) (rev es) of Some e \<Rightarrow> Some e | None \<Rightarrow> get m k)"
proof (induction es rule: rev_induct)
  case Nil
  then show ?case by simp
next
  case (snoc e es)
  then show ?case by (auto simp: get_insert invar_insert_all)
qed

lemma get_insert_all_distinct:
  assumes "invar m" "distinct (map key es)" "e \<in> set es"
  shows "get (fold (\<lambda>e. insert (key e) e) es m) (key e) = Some e"
proof -
  obtain e' where e': "find (\<lambda>x. key x = key e) (rev es) = Some e'"
    using assms(3) by (cases "find (\<lambda>x. key x = key e) (rev es)") (auto simp: find_None_iff)
  then obtain i where "i < length (rev es)" "key (rev es ! i) = key e" "e' = rev es ! i"
    unfolding find_Some_iff by blast
  then have "key e' = key e" and "e' \<in> set es"
    using nth_mem [of i "rev es"] by simp_all
  with assms(2,3) have "e' = e" by (auto simp: distinct_map dest: inj_onD)
  with e' assms(1) show ?thesis by (simp add: get_insert_all)
qed

lemma get_insert_all_other:
  "invar m \<Longrightarrow> k \<notin> key ` set es \<Longrightarrow> get (fold (\<lambda>e. insert (key e) e) es m) k = get m k"
proof -
  assume "invar m" "k \<notin> key ` set es"
  then have "find (\<lambda>e. key e = k) (rev es) = None" by (auto simp: find_None_iff)
  with \<open>invar m\<close> show ?thesis by (simp add: get_insert_all)
qed

text \<open>\<^verbatim>\<open>for key in keys { map.remove(&key); }\<close>\<close>

lemma invar_remove_all: "invar m \<Longrightarrow> invar (fold remove ks m)"
  by (induction ks arbitrary: m) (auto intro: invar_remove)

lemma get_remove_all:
  "invar m \<Longrightarrow> get (fold remove ks m) k = (if k \<in> set ks then None else get m k)"
  by (induction ks arbitrary: m) (auto simp: get_remove invar_remove)

end

subsection \<open>The sorted list implements it\<close>

lemma map_of_filter_key: "map_of (filter (\<lambda>(k, _). P k) m) k = (if P k then map_of m k else None)"
  by (induction m) auto

lemma bt_wf_filter: "bt_wf m \<Longrightarrow> bt_wf (filter P m)"
  by (induction m) (auto simp: bt_wf_def)

lemma bt_wf_insert: "bt_wf m \<Longrightarrow> bt_wf (bt_insert k v m)"
  using bt_wf_filter [of m]
  by (auto simp: bt_wf_def bt_insert_def sorted_wrt_append)

lemma bt_get_insert: "bt_get (bt_insert k v m) j = (if j = k then Some v else bt_get m j)"
  by (auto simp: bt_get_def bt_insert_def map_add_def map_of_filter_key split: option.splits)

lemma bt_get_remove: "bt_get (bt_remove k m) j = (if j = k then None else bt_get m j)"
  by (auto simp: bt_get_def bt_remove_def map_of_filter_key)

interpretation bt: keyed_store "[]" bt_insert bt_remove bt_get bt_wf
proof unfold_locales
  show "bt_get [] k = None" for k :: 'a by (simp add: bt_get_def)
qed (simp_all add: bt_get_insert bt_get_remove bt_wf_def [of "[]"] bt_wf_insert,
     simp add: bt_remove_def bt_wf_filter)

subsection \<open>Ranges and the last entry\<close>

lemma bt_wf_distinct: "bt_wf m \<Longrightarrow> distinct (map fst m)"
  by (simp add: bt_wf_def strict_sorted_iff)

lemma bt_get_mem: "bt_wf m \<Longrightarrow> bt_get m k = Some v \<longleftrightarrow> (k, v) \<in> set m"
  by (simp add: bt_get_def bt_wf_distinct)

text \<open>Two well-formed maps with the same lookups are the same list.\<close>

lemma bt_ext:
  assumes "bt_wf m" "bt_wf n" "\<And>k. bt_get m k = bt_get n k"
  shows "m = n"
proof (rule map_sorted_distinct_set_unique)
  show "inj_on fst (set m \<union> set n)"
    using assms by (auto simp: inj_on_def bt_get_mem [symmetric])
  show "sorted (map fst m)" "sorted (map fst n)"
    using assms(1,2) by (simp_all add: bt_wf_def strict_sorted_iff)
  show "distinct (map fst m)" "distinct (map fst n)"
    using assms(1,2) by (simp_all add: bt_wf_distinct)
  show "set m = set n"
    using assms by (auto simp: bt_get_mem [symmetric])
qed

lemma bt_wf_select: "bt_wf m \<Longrightarrow> bt_wf (bt_select r m)"
  by (simp add: bt_select_def bt_wf_filter)

lemma bt_get_select: "bt_get (bt_select r m) k = (if in_bounds r k then bt_get m k else None)"
  by (simp add: bt_get_def bt_select_def map_of_filter_key)

text \<open>Removing the keys of a range keeps exactly the complement of the range.\<close>

lemma bt_remove_range:
  assumes "bt_wf m"
  shows "fold bt_remove (map fst (bt_select r m)) m = filter (\<lambda>(k, _). \<not> in_bounds r k) m"
proof (rule bt_ext)
  show "bt_wf (fold bt_remove (map fst (bt_select r m)) m)"
    using assms by (rule bt.invar_remove_all)
  show "bt_wf (filter (\<lambda>(k, _). \<not> in_bounds r k) m)"
    using assms by (rule bt_wf_filter)
  fix k
  have "k \<in> set (map fst (bt_select r m)) \<longleftrightarrow> in_bounds r k \<and> bt_get m k \<noteq> None"
    by (force simp: bt_select_def bt_get_def map_of_eq_None_iff)
  then show "bt_get (fold bt_remove (map fst (bt_select r m)) m) k =
      bt_get (filter (\<lambda>(k, _). \<not> in_bounds r k) m) k"
    using assms
    by (simp only: bt.get_remove_all) (auto simp: bt_get_def map_of_filter_key)
qed

lemma bt_next_back_None [simp]: "bt_next_back m = None \<longleftrightarrow> m = []"
  by (simp add: bt_next_back_def)

lemma bt_next_back_max:
  assumes "bt_wf m" "bt_next_back m = Some (k, v)"
  shows "bt_get m k = Some v" and "\<And>j. bt_get m j \<noteq> None \<Longrightarrow> j \<le> k"
proof -
  from assms(2) obtain n where m: "m = n @ [(k, v)]"
    by (auto simp: bt_next_back_def split: if_splits) (metis append_butlast_last_id)
  with assms(1) show "bt_get m k = Some v" by (simp add: bt_get_mem)
  fix j assume "bt_get m j \<noteq> None"
  then have "j \<in> fst ` set m" by (simp add: bt_get_def map_of_eq_None_iff)
  with m assms(1) show "j \<le> k"
    by (auto simp: bt_wf_def sorted_wrt_append)
qed

text \<open>Appending strictly larger keys in ascending order appends to the list of entries.\<close>

lemma bt_insert_larger:
  "(\<And>j. j \<in> fst ` set m \<Longrightarrow> j < k) \<Longrightarrow> bt_insert k v m = m @ [(k, v)]"
proof -
  assume less: "\<And>j. j \<in> fst ` set m \<Longrightarrow> j < k"
  then have "filter (\<lambda>(j, _). j < k) m = m" by (force simp: filter_id_conv)
  moreover have "filter (\<lambda>(j, _). k < j) m = []" using less by (force simp: filter_empty_conv)
  ultimately show ?thesis by (simp add: bt_insert_def)
qed

lemma bt_insert_all_larger:
  "bt_wf m \<Longrightarrow> sorted_wrt (<) (map key es) \<Longrightarrow>
   (\<And>j e. j \<in> fst ` set m \<Longrightarrow> e \<in> set es \<Longrightarrow> j < key e) \<Longrightarrow>
   fold (\<lambda>e. bt_insert (key e) e) es m = m @ map (\<lambda>e. (key e, e)) es"
proof (induction es arbitrary: m)
  case Nil
  then show ?case by simp
next
  case (Cons e es)
  have ins: "bt_insert (key e) e m = m @ [(key e, e)]"
    using Cons.prems(3) by (intro bt_insert_larger) auto
  have "bt_wf (m @ [(key e, e)])"
    using bt_wf_insert [OF Cons.prems(1), of "key e" e] ins by simp
  moreover have "j < key e'" if "j \<in> fst ` set (m @ [(key e, e)])" "e' \<in> set es" for j e'
    using that Cons.prems(2,3) by auto
  ultimately have "fold (\<lambda>e. bt_insert (key e) e) es (m @ [(key e, e)]) =
      (m @ [(key e, e)]) @ map (\<lambda>e. (key e, e)) es"
    using Cons.prems(2) by (intro Cons.IH) auto
  with ins show ?case by simp
qed

text \<open>Rebuilding a map from its values, as the loader of the log file does.\<close>

lemma bt_rebuild:
  assumes "bt_wf m" "\<And>k v. (k, v) \<in> set m \<Longrightarrow> key v = k"
  shows "fold (\<lambda>v. bt_insert (key v) v) (bt_values m) [] = m"
proof -
  have keys: "map key (bt_values m) = map fst m"
    using assms(2) by (auto simp: bt_values_def)
  have "fold (\<lambda>v. bt_insert (key v) v) (bt_values m) [] = [] @ map (\<lambda>v. (key v, v)) (bt_values m)"
    by (rule bt_insert_all_larger) (use assms(1) keys in \<open>auto simp: bt_wf_def\<close>)
  also have "\<dots> = m"
    using assms(2) by (auto simp: bt_values_def intro!: map_idI)
  finally show ?thesis .
qed

end
