(* ===== verification/Std_Fs.thy ===== *)
theory Std_Fs
  imports Prelude "HOL-Library.AList" "HOL-Library.Sublist" "HOL-Library.Multiset"
begin

section \<open>The part of std::fs the stores use\<close>

text \<open>
  \<^verbatim>\<open>log_file.rs\<close>, \<^verbatim>\<open>snapshot_catalog.rs\<close> and the advertisement file of
  \<^verbatim>\<open>multiraft.rs\<close> work on a directory tree through \<open>std::fs\<close>. The tree
  is an association list from paths (lists of components) to files and
  directories. An operation runs in an environment \<open>os\<close> that may make any
  single call fail, says how many bytes of a failing write still reached the file
  and what a failing recursive removal already deleted, and chooses the order in
  which \<^verbatim>\<open>read_dir\<close> lists a directory. Since every call site returns at the
  first error, the tree left by a failing call is also the tree that a process crash
  at that call leaves.
\<close>

type_synonym path = "string list"

datatype fnode = File bytes | Dir

type_synonym fs = "(path \<times> fnode) list"

datatype io_kind = NotFound | InvalidData | OtherKind | SysKind nat

datatype io_error = IoError (io_error_kind: io_kind) (io_error_msg: string)

datatype fs_op =
    OpStat path | OpRead path | OpCreate path | OpWrite path | OpSync path
  | OpRename path path | OpCreateDir path | OpReadDir path | OpDirEnt path | OpRemoveDir path

record os =
  os_fault :: "fs_op \<Rightarrow> io_error option"
  os_written :: "path \<Rightarrow> nat"
  os_removed :: "path \<Rightarrow> bool"
  os_order :: "path \<Rightarrow> string list \<Rightarrow> string list"

text \<open>\<^verbatim>\<open>read_dir\<close> lists every entry once, in an order the platform chooses.\<close>

definition os_ok :: "os \<Rightarrow> bool" where
  "os_ok os \<longleftrightarrow> (\<forall>p xs. mset (os_order os p xs) = mset xs)"

definition os_healthy :: "os \<Rightarrow> bool" where
  "os_healthy os \<longleftrightarrow> os_ok os \<and> (\<forall>q. os_fault os q = None)"

definition calm_os :: os where
  "calm_os = \<lparr>os_fault = (\<lambda>_. None), os_written = (\<lambda>_. 0), os_removed = (\<lambda>_. False),
              os_order = (\<lambda>_ xs. xs)\<rparr>"

lemma calm_os_healthy [simp]: "os_healthy calm_os"
  by (simp add: os_healthy_def os_ok_def calm_os_def)

lemma os_healthy_no_fault [simp]: "os_healthy os \<Longrightarrow> os_fault os q = None"
  by (simp add: os_healthy_def)

lemma os_healthy_ok: "os_healthy os \<Longrightarrow> os_ok os"
  by (simp add: os_healthy_def)

subsection \<open>Computations on the tree\<close>

type_synonym 'a io = "fs \<Rightarrow> (io_error, 'a) outcome \<times> fs"

definition io_return :: "'a \<Rightarrow> 'a io" where
  "io_return a fs = (Ok a, fs)"

definition io_throw :: "io_error \<Rightarrow> 'a io" where
  "io_throw e fs = (Err e, fs)"

text \<open>Sequencing with the \<^verbatim>\<open>?\<close> operator: an error or a panic ends the call.\<close>

definition io_bind :: "'a io \<Rightarrow> ('a \<Rightarrow> 'b io) \<Rightarrow> 'b io" where
  "io_bind m f fs =
     (case m fs of
        (Ok a, fs') \<Rightarrow> f a fs'
      | (Err e, fs') \<Rightarrow> (Err e, fs')
      | (Panicked, fs') \<Rightarrow> (Panicked, fs'))"

lemma io_return_simp [simp]: "io_return a fs = (Ok a, fs)"
  by (simp add: io_return_def)

lemma io_throw_simp [simp]: "io_throw e fs = (Err e, fs)"
  by (simp add: io_throw_def)

lemma io_bind_Ok [simp]: "m fs = (Ok a, fs') \<Longrightarrow> io_bind m f fs = f a fs'"
  by (simp add: io_bind_def)

lemma io_bind_Err [simp]: "m fs = (Err e, fs') \<Longrightarrow> io_bind m f fs = (Err e, fs')"
  by (simp add: io_bind_def)

lemma io_bind_eq_Ok:
  "io_bind m f fs = (Ok b, fs'') \<longleftrightarrow> (\<exists>a fs'. m fs = (Ok a, fs') \<and> f a fs' = (Ok b, fs''))"
  by (auto simp: io_bind_def split: prod.splits outcome.splits)

subsection \<open>Operations\<close>

definition node_at :: "fs \<Rightarrow> path \<Rightarrow> fnode option" where
  "node_at fs p = map_of fs p"

definition set_node :: "path \<Rightarrow> fnode \<Rightarrow> fs \<Rightarrow> fs" where
  "set_node p n fs = AList.update p n fs"

definition del_nodes :: "(path \<Rightarrow> bool) \<Rightarrow> fs \<Rightarrow> fs" where
  "del_nodes P fs = filter (\<lambda>(q, _). \<not> P q) fs"

definition is_dir :: "fs \<Rightarrow> path \<Rightarrow> bool" where
  "is_dir fs p \<longleftrightarrow> p = [] \<or> node_at fs p = Some Dir"

definition not_found :: io_error where
  "not_found = IoError NotFound ''entity not found''"

definition path_exists :: "os \<Rightarrow> path \<Rightarrow> fs \<Rightarrow> bool" where
  "path_exists os p fs \<longleftrightarrow> os_fault os (OpStat p) = None \<and> (p = [] \<or> node_at fs p \<noteq> None)"

definition fs_read :: "os \<Rightarrow> path \<Rightarrow> bytes io" where
  "fs_read os p fs =
     (case os_fault os (OpRead p) of
        Some e \<Rightarrow> (Err e, fs)
      | None \<Rightarrow> (case node_at fs p of Some (File b) \<Rightarrow> (Ok b, fs) | _ \<Rightarrow> (Err not_found, fs)))"

text \<open>
  Creating (or truncating) a file and writing all of \<open>data\<close>; a failing write
  leaves a prefix of the data behind.
\<close>

definition fs_write :: "os \<Rightarrow> path \<Rightarrow> bytes \<Rightarrow> unit io" where
  "fs_write os p data fs =
     (case os_fault os (OpCreate p) of
        Some e \<Rightarrow> (Err e, fs)
      | None \<Rightarrow>
          if p = [] \<or> \<not> is_dir fs (butlast p) \<or> node_at fs p = Some Dir then (Err not_found, fs)
          else (case os_fault os (OpWrite p) of
                  Some e \<Rightarrow> (Err e, set_node p (File (take (os_written os p) data)) fs)
                | None \<Rightarrow> (Ok (), set_node p (File data) fs)))"

definition fs_sync :: "os \<Rightarrow> path \<Rightarrow> unit io" where
  "fs_sync os p fs = (case os_fault os (OpSync p) of Some e \<Rightarrow> (Err e, fs) | None \<Rightarrow> (Ok (), fs))"

text \<open>\<^verbatim>\<open>File::open\<close>, for files and directories.\<close>

definition fs_open :: "os \<Rightarrow> path \<Rightarrow> unit io" where
  "fs_open os p fs =
     (case os_fault os (OpRead p) of
        Some e \<Rightarrow> (Err e, fs)
      | None \<Rightarrow> if p = [] \<or> node_at fs p \<noteq> None then (Ok (), fs) else (Err not_found, fs))"

definition fs_rename :: "os \<Rightarrow> path \<Rightarrow> path \<Rightarrow> unit io" where
  "fs_rename os p q fs =
     (case os_fault os (OpRename p q) of
        Some e \<Rightarrow> (Err e, fs)
      | None \<Rightarrow>
          (case node_at fs p of
             Some (File b) \<Rightarrow>
               if q = [] \<or> \<not> is_dir fs (butlast q) \<or> node_at fs q = Some Dir then (Err not_found, fs)
               else (Ok (), set_node q (File b) (del_nodes (\<lambda>r. r = p) fs))
           | _ \<Rightarrow> (Err not_found, fs)))"

fun mk_dirs :: "path list \<Rightarrow> fs \<Rightarrow> fs option" where
  "mk_dirs [] fs = Some fs"
| "mk_dirs (p # ps) fs =
     (case node_at fs p of
        None \<Rightarrow> mk_dirs ps (set_node p Dir fs)
      | Some Dir \<Rightarrow> mk_dirs ps fs
      | Some (File _) \<Rightarrow> None)"

definition fs_create_dir_all :: "os \<Rightarrow> path \<Rightarrow> unit io" where
  "fs_create_dir_all os p fs =
     (case os_fault os (OpCreateDir p) of
        Some e \<Rightarrow> (Err e, fs)
      | None \<Rightarrow>
          (case mk_dirs (tl (prefixes p)) fs of
             None \<Rightarrow> (Err (IoError OtherKind ''not a directory''), fs)
           | Some fs' \<Rightarrow> (Ok (), fs')))"

definition children :: "fs \<Rightarrow> path \<Rightarrow> string list" where
  "children fs p = map (last \<circ> fst) (filter (\<lambda>(q, _). q \<noteq> [] \<and> butlast q = p) fs)"

definition fs_read_dir :: "os \<Rightarrow> path \<Rightarrow> string list io" where
  "fs_read_dir os p fs =
     (case os_fault os (OpReadDir p) of
        Some e \<Rightarrow> (Err e, fs)
      | None \<Rightarrow> if is_dir fs p then (Ok (os_order os p (children fs p)), fs) else (Err not_found, fs))"

definition fs_remove_dir_all :: "os \<Rightarrow> path \<Rightarrow> unit io" where
  "fs_remove_dir_all os p fs =
     (case os_fault os (OpRemoveDir p) of
        Some e \<Rightarrow> (Err e, del_nodes (\<lambda>q. prefix p q \<and> os_removed os q) fs)
      | None \<Rightarrow> if is_dir fs p then (Ok (), del_nodes (prefix p) fs) else (Err not_found, fs))"

subsection \<open>What the operations do to a path\<close>

definition wf_fs :: "fs \<Rightarrow> bool" where
  "wf_fs fs \<longleftrightarrow> distinct (map fst fs)"

lemma wf_fs_Nil [simp]: "wf_fs []"
  by (simp add: wf_fs_def)

lemma node_at_set_node [simp]: "node_at (set_node p n fs) q = (if q = p then Some n else node_at fs q)"
  by (simp add: node_at_def set_node_def update_conv')

lemma node_at_del_nodes [simp]:
  "node_at (del_nodes P fs) q = (if P q then None else node_at fs q)"
  by (induction fs) (auto simp: node_at_def del_nodes_def)

lemma wf_set_node [simp]: "wf_fs fs \<Longrightarrow> wf_fs (set_node p n fs)"
  by (simp add: wf_fs_def set_node_def distinct_update)

lemma wf_del_nodes [simp]: "wf_fs fs \<Longrightarrow> wf_fs (del_nodes P fs)"
  by (auto simp: wf_fs_def del_nodes_def intro: distinct_map_filter)

lemma wf_mk_dirs: "mk_dirs ps fs = Some fs' \<Longrightarrow> wf_fs fs \<Longrightarrow> wf_fs fs'"
  by (induction ps arbitrary: fs) (auto split: option.splits fnode.splits)

lemma node_at_mk_dirs:
  "mk_dirs ps fs = Some fs' \<Longrightarrow> node_at fs' q = (if q \<in> set ps then Some Dir else node_at fs q)"
  by (induction ps arbitrary: fs) (auto split: option.splits fnode.splits if_splits)

lemma mk_dirs_Some:
  "(\<And>p b. p \<in> set ps \<Longrightarrow> node_at fs p \<noteq> Some (File b)) \<Longrightarrow> \<exists>fs'. mk_dirs ps fs = Some fs'"
  by (induction ps arbitrary: fs) (auto split: option.splits fnode.splits)

lemma set_children:
  "set (children fs p) = {n. node_at fs (p @ [n]) \<noteq> None}"
proof -
  have "n \<in> set (children fs p) \<longleftrightarrow> p @ [n] \<in> fst ` set fs" for n
    by (force simp: children_def image_iff)
  then show ?thesis by (auto simp: node_at_def map_of_eq_None_iff)
qed

lemma distinct_children: "wf_fs fs \<Longrightarrow> distinct (children fs p)"
proof -
  assume wf: "wf_fs fs"
  let ?ps = "filter (\<lambda>(q, _). q \<noteq> [] \<and> butlast q = p) fs"
  have "distinct (map fst ?ps)"
    using wf unfolding wf_fs_def by (rule distinct_map_filter)
  moreover have "q = q'"
    if "q \<in> set (map fst ?ps)" "q' \<in> set (map fst ?ps)" "last q = last q'" for q q'
  proof -
    from that have "q \<noteq> []" "q' \<noteq> []" "butlast q = butlast q'" by auto
    with that(3) show ?thesis by (metis append_butlast_last_id)
  qed
  then have "inj_on last (set (map fst ?ps))" by (rule inj_onI)
  ultimately have "distinct (map last (map fst ?ps))"
    by (simp only: distinct_map)
  then show ?thesis by (simp add: children_def)
qed

text \<open>
  The frame of a computation: the paths it may change. Every operation also keeps
  the paths of the tree distinct.
\<close>

definition within :: "(path \<Rightarrow> bool) \<Rightarrow> 'a io \<Rightarrow> bool" where
  "within P m \<longleftrightarrow> (\<forall>fs q. \<not> P q \<longrightarrow> node_at (snd (m fs)) q = node_at fs q) \<and>
                  (\<forall>fs. wf_fs fs \<longrightarrow> wf_fs (snd (m fs)))"

lemma withinD: "within P m \<Longrightarrow> \<not> P q \<Longrightarrow> node_at (snd (m fs)) q = node_at fs q"
  by (simp add: within_def)

lemma within_wf: "within P m \<Longrightarrow> wf_fs fs \<Longrightarrow> wf_fs (snd (m fs))"
  by (simp add: within_def)

lemma within_weaken: "within P m \<Longrightarrow> (\<And>q. P q \<Longrightarrow> Q q) \<Longrightarrow> within Q m"
  by (auto simp: within_def)

lemma within_bind [intro]:
  assumes "within P m" "\<And>a. within P (f a)"
  shows "within P (io_bind m f)"
  unfolding within_def
proof (intro conjI allI impI)
  fix fs q assume q: "\<not> P q"
  obtain r fs' where m: "m fs = (r, fs')" by (cases "m fs")
  with withinD [OF assms(1) q, of fs] withinD [OF assms(2) q]
  show "node_at (snd (io_bind m f fs)) q = node_at fs q"
    by (cases r) (auto simp: io_bind_def)
next
  fix fs assume wf: "wf_fs fs"
  obtain r fs' where m: "m fs = (r, fs')" by (cases "m fs")
  with within_wf [OF assms(1) wf] within_wf [OF assms(2)]
  show "wf_fs (snd (io_bind m f fs))"
    by (cases r) (auto simp: io_bind_def)
qed

lemma within_return [intro, simp]: "within P (io_return a)"
  by (simp add: within_def)

lemma within_throw [intro, simp]: "within P (io_throw a)"
  by (simp add: within_def)

lemma within_read [intro, simp]: "within P (fs_read os p)"
  by (auto simp: within_def fs_read_def split: option.splits fnode.splits)

lemma within_open [intro, simp]: "within P (fs_open os p)"
  by (auto simp: within_def fs_open_def split: option.splits)

lemma within_sync [intro, simp]: "within P (fs_sync os p)"
  by (auto simp: within_def fs_sync_def split: option.splits)

lemma within_read_dir [intro, simp]: "within P (fs_read_dir os p)"
  by (auto simp: within_def fs_read_dir_def split: option.splits)

lemma within_write: "P p \<Longrightarrow> within P (fs_write os p d)"
  by (auto simp: within_def fs_write_def split: option.splits)

lemma within_rename: "P p \<Longrightarrow> P q \<Longrightarrow> within P (fs_rename os p q)"
  by (auto simp: within_def fs_rename_def split: option.splits fnode.splits)

lemma within_remove: "(\<And>q. prefix p q \<Longrightarrow> P q) \<Longrightarrow> within P (fs_remove_dir_all os p)"
  by (auto simp: within_def fs_remove_dir_all_def split: option.splits)

lemma within_create_dir: "(\<And>q. prefix q p \<Longrightarrow> q \<noteq> [] \<Longrightarrow> P q) \<Longrightarrow> within P (fs_create_dir_all os p)"
proof -
  assume P: "\<And>q. prefix q p \<Longrightarrow> q \<noteq> [] \<Longrightarrow> P q"
  have "q \<in> set (tl (prefixes p)) \<Longrightarrow> prefix q p \<and> q \<noteq> []" for q
    by (cases p) auto
  with P show ?thesis
    by (auto simp: within_def fs_create_dir_all_def node_at_mk_dirs wf_mk_dirs split: option.splits)
qed

lemmas within_ops = within_write within_rename within_remove within_create_dir

lemma set_tl_prefixes [simp]: "set (tl (prefixes p)) = {q. prefix q p \<and> q \<noteq> []}"
  by (cases p) (auto simp: prefix_Cons)

end
