(* ===== verification/Log_Store.thy ===== *)
theory Log_Store
  imports Core_Types BTree_Map Std_Fs
begin

section \<open>The RaftLogStorage contract\<close>

text \<open>
  Both log stores implement openraft's \<open>RaftLogStorage\<close>. What consensus needs from
  such a store is the locale \<open>raft_log_storage\<close>, stated over the lookup view
  \<open>entries\<close> of the log: an append overwrites by index, a truncation keeps exactly
  the indices up to the given log id, a purge drops exactly those up to it and refuses
  to go backwards, and a range read lists the selected entries in index order. The
  consequences openraft relies on (conflict resolution, hole-free logs) are proved once
  here. The context \<open>'c\<close> is what a particular store takes besides its state (build
  profile, encoders, file system).
\<close>

record 'l log_state =
  lst_last_purged_log_id :: "'l log_id option"
  lst_last_log_id :: "'l log_id option"

text \<open>A log without holes: the indices present are exactly those from \<open>lo\<close> below \<open>hi\<close>.\<close>

definition log_span :: "(u64 \<Rightarrow> 'e option) \<Rightarrow> nat \<Rightarrow> nat \<Rightarrow> bool" where
  "log_span f lo hi \<longleftrightarrow> (\<forall>k. f k \<noteq> None \<longleftrightarrow> lo \<le> unat k \<and> unat k < hi)"

text \<open>A batch of entries with consecutive indices starting at \<open>n\<close>.\<close>

definition run_from :: "('e, 'l) raft_entry \<Rightarrow> nat \<Rightarrow> 'e list \<Rightarrow> bool" where
  "run_from re n es \<longleftrightarrow> map (\<lambda>e. unat (entry_index re e)) es = [n..<n + length es]"

lemma run_from_indices: "run_from re n es \<Longrightarrow> (\<lambda>e. unat (entry_index re e)) ` set es = {n..<n + length es}"
  unfolding run_from_def by (metis list.set_map set_upt)

lemma find_rev_Some_iff: "find P (rev xs) = None \<longleftrightarrow> (\<forall>x\<in>set xs. \<not> P x)"
  by (auto simp: find_None_iff)

text \<open>Which keys a consecutive batch holds.\<close>

lemma run_from_mem:
  assumes "run_from re n es"
  shows "(\<exists>e\<in>set es. entry_index re e = k) \<longleftrightarrow> n \<le> unat k \<and> unat k < n + length es"
proof -
  have "(\<exists>e\<in>set es. entry_index re e = k) \<longleftrightarrow> unat k \<in> (\<lambda>e. unat (entry_index re e)) ` set es"
    unfolding image_iff word_unat_eq_iff [of _ k] by metis
  with run_from_indices [OF assms] show ?thesis by simp
qed

locale raft_log_storage =
  fixes re_of :: "'c \<Rightarrow> ('e, 'l::linorder) raft_entry"
    and invar :: "('e, 'l) raft_entry \<Rightarrow> 's \<Rightarrow> bool"
    and entries :: "'s \<Rightarrow> u64 \<Rightarrow> 'e option"
    and purged :: "'s \<Rightarrow> 'l log_id option"
    and append :: "'c \<Rightarrow> 'e list \<Rightarrow> 's \<Rightarrow> 's"
    and truncate_after :: "'c \<Rightarrow> 'l log_id option \<Rightarrow> 's \<Rightarrow> 's option"
    and purge :: "'c \<Rightarrow> 'l log_id \<Rightarrow> 's \<Rightarrow> 's option"
    and try_get :: "u64 range_bounds \<Rightarrow> 's \<Rightarrow> 'e list option"
  assumes entry_key: "invar re s \<Longrightarrow> entries s k = Some e \<Longrightarrow> entry_index re e = k"
    and invar_append: "invar (re_of c) s \<Longrightarrow> invar (re_of c) (append c es s)"
    and entries_append: "invar (re_of c) s \<Longrightarrow> entries (append c es s) k =
          (case find (\<lambda>e. entry_index (re_of c) e = k) (rev es) of
             Some e \<Rightarrow> Some e | None \<Rightarrow> entries s k)"
    and purged_append: "purged (append c es s) = purged s"
    and truncate_total: "(\<And>i. l = Some i \<Longrightarrow> lid_index i \<noteq> - 1) \<Longrightarrow> \<exists>s'. truncate_after c l s = Some s'"
    and truncate_law: "invar re s \<Longrightarrow> (\<And>i. l = Some i \<Longrightarrow> lid_index i \<noteq> - 1) \<Longrightarrow>
          truncate_after c l s = Some s' \<Longrightarrow>
          invar re s' \<and> purged s' = purged s \<and>
          entries s' k = (if \<exists>i. l = Some i \<and> k \<le> lid_index i then entries s k else None)"
    and purge_total: "(\<exists>s'. purge c i s = Some s') \<longleftrightarrow> purged s \<le> Some i"
    and purge_law: "invar re s \<Longrightarrow> purge c i s = Some s' \<Longrightarrow>
          invar re s' \<and> purged s' = Some i \<and>
          entries s' k = (if k \<le> lid_index i then None else entries s k)"
    and try_get_law: "invar re s \<Longrightarrow> \<not> bad_range r \<Longrightarrow>
          \<exists>es. try_get r s = Some es \<and> sorted_wrt (<) (map (entry_index re) es) \<and>
               (\<forall>e. e \<in> set es \<longleftrightarrow> (\<exists>k. in_bounds r k \<and> entries s k = Some e))"
    and try_get_panic: "bad_range r \<Longrightarrow> try_get r s = None"
begin

lemma span_append:
  assumes "invar (re_of c) s" "log_span (entries s) lo hi" "lo \<le> hi" "run_from (re_of c) hi es"
  shows "log_span (entries (append c es s)) lo (hi + length es)"
  unfolding log_span_def
proof
  fix k
  note idx = run_from_mem [OF assms(4), of k]
  show "entries (append c es s) k \<noteq> None \<longleftrightarrow> lo \<le> unat k \<and> unat k < hi + length es"
  proof (cases "\<exists>e\<in>set es. entry_index (re_of c) e = k")
    case True
    then have "find (\<lambda>e. entry_index (re_of c) e = k) (rev es) \<noteq> None"
      by (simp add: find_rev_Some_iff)
    with True idx assms(1,3) show ?thesis by (auto simp: entries_append split: option.splits)
  next
    case False
    then have "find (\<lambda>e. entry_index (re_of c) e = k) (rev es) = None"
      by (simp add: find_rev_Some_iff)
    with False idx assms(1,2,3) show ?thesis by (auto simp: entries_append log_span_def)
  qed
qed

lemma span_truncate:
  assumes "invar re s" "log_span (entries s) lo hi" "lid_index i \<noteq> - 1"
    "truncate_after c (Some i) s = Some s'"
  shows "log_span (entries s') lo (min hi (Suc (unat (lid_index i))))"
  using truncate_law [OF assms(1) _ assms(4)] assms(2,3)
  by (auto simp: log_span_def word_le_nat_alt)

lemma span_purge:
  assumes "invar re s" "log_span (entries s) lo hi" "purge c i s = Some s'"
  shows "log_span (entries s') (max lo (Suc (unat (lid_index i)))) hi"
  using purge_law [OF assms(1) assms(3)] assms(2)
  by (auto simp: log_span_def word_le_nat_alt)

text \<open>Reading inside a hole-free log returns every index of the range, in order.\<close>

lemma read_span:
  assumes "invar re s" "log_span (entries s) lo hi" "lo \<le> unat a" "a \<le> b" "unat b \<le> hi"
  shows "\<exists>es. try_get (Included a, Excluded b) s = Some es \<and>
    map (\<lambda>e. unat (entry_index re e)) es = [unat a..<unat b]"
proof -
  obtain es where es: "try_get (Included a, Excluded b) s = Some es"
    and sorted: "sorted_wrt (<) (map (entry_index re) es)"
    and mem: "\<And>e. e \<in> set es \<longleftrightarrow> (\<exists>k. in_bounds (Included a, Excluded b) k \<and> entries s k = Some e)"
    using try_get_law [OF assms(1), of "(Included a, Excluded b)"] assms(4)
    by (auto simp: linorder_not_less)
  let ?is = "map (\<lambda>e. unat (entry_index re e)) es"
  have "sorted_wrt (<) ?is"
    using sorted by (simp add: sorted_wrt_map word_less_nat_alt)
  moreover have "set ?is = {unat a..<unat b}"
  proof (intro set_eqI iffI)
    fix n assume "n \<in> set ?is"
    then show "n \<in> {unat a..<unat b}"
      using mem entry_key [OF assms(1)]
      by (auto simp: in_bounds_def word_le_nat_alt word_less_nat_alt)
  next
    fix n assume n: "n \<in> {unat a..<unat b}"
    define k :: u64 where "k = of_nat n"
    have "n < 2 ^ 64" using n unsigned_less [where ?'a = nat, of b] by simp
    then have k: "unat k = n" unfolding k_def by (simp add: unat_of_nat take_bit_nat_eq_self)
    with n assms(2,3,5) obtain e where e: "entries s k = Some e"
      unfolding log_span_def by (metis atLeastLessThan_iff le_trans less_le_trans not_Some_eq)
    with n k have "e \<in> set es" using mem by (auto simp: in_bounds_def word_le_nat_alt word_less_nat_alt)
    with entry_key [OF assms(1) e] k show "n \<in> set ?is" by force
  qed
  ultimately have "?is = [unat a..<unat b]"
    by (intro sorted_distinct_set_unique) (simp_all add: strict_sorted_iff)
  with es show ?thesis by blast
qed

text \<open>
  Conflict resolution: cutting the log after a log id and appending the leader's
  entries leaves the old entries up to it and the new ones, and nothing else.
\<close>

lemma replace_suffix:
  assumes "invar (re_of c) s" "lid_index i \<noteq> - 1" "truncate_after d (Some i) s = Some s'"
  shows "entries (append c es s') k =
    (case find (\<lambda>e. entry_index (re_of c) e = k) (rev es) of
       Some e \<Rightarrow> Some e
     | None \<Rightarrow> if k \<le> lid_index i then entries s k else None)"
  using truncate_law [OF assms(1) _ assms(3), of k] assms(2)
  by (auto simp: entries_append split: option.split)

lemma replace_suffix_span:
  assumes "invar (re_of c) s" "log_span (entries s) lo hi" "lid_index i \<noteq> - 1"
    and "lo \<le> Suc (unat (lid_index i))" "Suc (unat (lid_index i)) \<le> hi"
    and "truncate_after d (Some i) s = Some s'" "run_from (re_of c) (Suc (unat (lid_index i))) es"
  shows "log_span (entries (append c es s')) lo (Suc (unat (lid_index i)) + length es)"
proof (rule span_append)
  show "invar (re_of c) s'" using truncate_law [OF assms(1) _ assms(6)] assms(3) by blast
  show "log_span (entries s') lo (Suc (unat (lid_index i)))"
    using span_truncate [OF assms(1,2,3,6)] assms(5) by (simp add: min_absorb2)
qed (use assms in auto)

end

end
