(* ===== verification/Log_Mem.thy ===== *)
theory Log_Mem
  imports Log_Store
begin

section \<open>multiraft-store: the in-memory log store\<close>

text \<open>
  \<^verbatim>\<open>crates/multiraft-store/src/log_mem.rs\<close>, generic in the entry type as the
  source is: \<open>LogStoreInner\<close> and its methods, which the \<open>LogStore\<close> wrapper
  runs under its mutex one at a time. \<open>None\<close> is a panic. The store interprets the
  contract \<open>raft_log_storage\<close>.
\<close>

record ('e, 'l, 'v) log_store_inner =
  ls_last_purged_log_id :: "'l log_id option"
  ls_log :: "(u64, 'e) btree_map"
  ls_committed :: "'l log_id option"
  ls_vote :: "'v option"

definition log_store_default :: "('e, 'l, 'v) log_store_inner" where
  "log_store_default =
     \<lparr>ls_last_purged_log_id = None, ls_log = [], ls_committed = None, ls_vote = None\<rparr>"

definition mem_try_get_log_entries ::
  "u64 range_bounds \<Rightarrow> ('e, 'l, 'v) log_store_inner \<Rightarrow> 'e list option" where
  "mem_try_get_log_entries rb s = map_option bt_values (bt_range rb (ls_log s))"

definition mem_get_log_state ::
  "('e, 'l) raft_entry \<Rightarrow> ('e, 'l, 'v) log_store_inner \<Rightarrow> 'l log_state" where
  "mem_get_log_state re s =
     (let last = map_option (\<lambda>(_, ent). entry_log_id re ent) (bt_next_back (ls_log s));
          last_purged = ls_last_purged_log_id s;
          last' = (case last of None \<Rightarrow> last_purged | Some x \<Rightarrow> Some x)
      in \<lparr>lst_last_purged_log_id = last_purged, lst_last_log_id = last'\<rparr>)"

definition mem_save_committed ::
  "'l log_id option \<Rightarrow> ('e, 'l, 'v) log_store_inner \<Rightarrow> ('e, 'l, 'v) log_store_inner" where
  "mem_save_committed c s = s\<lparr>ls_committed := c\<rparr>"

definition mem_read_committed :: "('e, 'l, 'v) log_store_inner \<Rightarrow> 'l log_id option" where
  "mem_read_committed s = ls_committed s"

definition mem_save_vote :: "'v \<Rightarrow> ('e, 'l, 'v) log_store_inner \<Rightarrow> ('e, 'l, 'v) log_store_inner" where
  "mem_save_vote v s = s\<lparr>ls_vote := Some v\<rparr>"

definition mem_read_vote :: "('e, 'l, 'v) log_store_inner \<Rightarrow> 'v option" where
  "mem_read_vote s = ls_vote s"

text \<open>The first component is what the flush callback is told.\<close>

definition mem_append ::
  "('e, 'l) raft_entry \<Rightarrow> 'e list \<Rightarrow> ('e, 'l, 'v) log_store_inner \<Rightarrow>
   (io_error, unit) outcome \<times> ('e, 'l, 'v) log_store_inner" where
  "mem_append re es s =
     (Ok (), s\<lparr>ls_log := fold (\<lambda>entry. bt_insert (entry_index re entry) entry) es (ls_log s)\<rparr>)"

definition mem_truncate_after ::
  "profile \<Rightarrow> 'l log_id option \<Rightarrow> ('e, 'l, 'v) log_store_inner \<Rightarrow>
   ('e, 'l, 'v) log_store_inner option" where
  "mem_truncate_after prof last_log_id s =
     (case (case last_log_id of Some log_id \<Rightarrow> add_u64 prof (lid_index log_id) 1 | None \<Rightarrow> Some 0) of
        None \<Rightarrow> None
      | Some start_index \<Rightarrow>
          let keys = map fst (bt_select (Included start_index, Unbounded) (ls_log s))
          in Some (s\<lparr>ls_log := fold bt_remove keys (ls_log s)\<rparr>))"

definition mem_purge ::
  "'l::linorder log_id \<Rightarrow> ('e, 'l, 'v) log_store_inner \<Rightarrow> ('e, 'l, 'v) log_store_inner option" where
  "mem_purge log_id s =
     (if \<not> ls_last_purged_log_id s \<le> Some log_id then None
      else
        let keys = map fst (bt_select (Unbounded, Included (lid_index log_id)) (ls_log s))
        in Some (s\<lparr>ls_last_purged_log_id := Some log_id, ls_log := fold bt_remove keys (ls_log s)\<rparr>))"

subsection \<open>Well-formed stores\<close>

text \<open>The tree is ordered and every entry sits under its own index.\<close>

definition log_wf :: "('e, 'l) raft_entry \<Rightarrow> (u64, 'e) btree_map \<Rightarrow> bool" where
  "log_wf re m \<longleftrightarrow> bt_wf m \<and> (\<forall>(k, e) \<in> set m. entry_index re e = k)"

lemma log_wf_Nil [simp]: "log_wf re []"
  by (simp add: log_wf_def bt_wf_def)

lemma log_wf_filter: "log_wf re m \<Longrightarrow> log_wf re (filter P m)"
  by (auto simp: log_wf_def bt_wf_filter)

lemma log_wf_insert: "log_wf re m \<Longrightarrow> log_wf re (bt_insert (entry_index re e) e m)"
  using bt_wf_insert [of m "entry_index re e" e] by (auto simp: log_wf_def bt_insert_def)

lemma log_wf_insert_all:
  "log_wf re m \<Longrightarrow> log_wf re (fold (\<lambda>e. bt_insert (entry_index re e) e) es m)"
  by (induction es arbitrary: m) (auto simp: log_wf_insert)

lemma log_wf_remove_range:
  "log_wf re m \<Longrightarrow> log_wf re (fold bt_remove (map fst (bt_select r m)) m)"
  by (simp add: bt_remove_range log_wf_def [of re m] log_wf_filter)

lemma bt_get_remove_range:
  "bt_wf m \<Longrightarrow> bt_get (fold bt_remove (map fst (bt_select r m)) m) k =
     (if in_bounds r k then None else bt_get m k)"
  by (simp add: bt_remove_range bt_get_def map_of_filter_key)

text \<open>The range read of an ordered tree.\<close>

lemma log_wf_select:
  assumes "log_wf re m"
  shows "sorted_wrt (<) (map (entry_index re) (bt_values (bt_select r m)))"
    and "e \<in> set (bt_values (bt_select r m)) \<longleftrightarrow> (\<exists>k. in_bounds r k \<and> bt_get m k = Some e)"
proof -
  have "log_wf re (bt_select r m)"
    using assms by (simp add: bt_select_def log_wf_filter)
  then have "map (entry_index re) (bt_values (bt_select r m)) = map fst (bt_select r m)"
    and "bt_wf (bt_select r m)"
    by (auto simp: log_wf_def bt_values_def)
  then show "sorted_wrt (<) (map (entry_index re) (bt_values (bt_select r m)))"
    by (simp add: bt_wf_def)
  have "bt_wf m" using assms by (simp add: log_wf_def)
  then show "e \<in> set (bt_values (bt_select r m)) \<longleftrightarrow> (\<exists>k. in_bounds r k \<and> bt_get m k = Some e)"
    by (force simp: bt_values_def bt_select_def bt_get_mem)
qed

definition mem_invar :: "('e, 'l) raft_entry \<Rightarrow> ('e, 'l, 'v) log_store_inner \<Rightarrow> bool" where
  "mem_invar re s \<longleftrightarrow> log_wf re (ls_log s)"

definition mem_entries :: "('e, 'l, 'v) log_store_inner \<Rightarrow> u64 \<Rightarrow> 'e option" where
  "mem_entries s k = bt_get (ls_log s) k"

lemma in_bounds_from [simp]: "in_bounds (Included a, Unbounded) k \<longleftrightarrow> a \<le> k"
  by (simp add: in_bounds_def)

lemma in_bounds_upto [simp]: "in_bounds (Unbounded, Included b) k \<longleftrightarrow> k \<le> b"
  by (simp add: in_bounds_def)

lemma not_ge_plus_one: "a \<noteq> - 1 \<Longrightarrow> \<not> a + 1 \<le> k \<longleftrightarrow> k \<le> (a :: u64)"
  by (auto simp: word_le_nat_alt unat_plus_one)

lemma mem_truncate_cases:
  assumes "\<And>i. l = Some i \<Longrightarrow> lid_index i \<noteq> - 1"
  shows "mem_truncate_after prof l s = Some (s\<lparr>ls_log := fold bt_remove
    (map fst (bt_select (Included (case l of Some i \<Rightarrow> lid_index i + 1 | None \<Rightarrow> 0), Unbounded) (ls_log s)))
    (ls_log s)\<rparr>)"
  using assms by (cases l) (auto simp: mem_truncate_after_def add_u64_one_Some)

interpretation mem: raft_log_storage fst mem_invar mem_entries ls_last_purged_log_id
  "\<lambda>c es s. snd (mem_append (fst c) es s)" "\<lambda>c. mem_truncate_after (snd c)" "\<lambda>_. mem_purge"
  mem_try_get_log_entries
proof unfold_locales
  fix re :: "('e, 'l::linorder) raft_entry" and s :: "('e, 'l, 'v) log_store_inner"
    and k e and c :: "('e, 'l) raft_entry \<times> profile" and es l i s' and r :: "u64 range_bounds"
  show "entry_index re e = k" if "mem_invar re s" "mem_entries s k = Some e"
    using that by (auto simp: mem_invar_def mem_entries_def log_wf_def bt_get_mem)
  show "mem_invar (fst c) (snd (mem_append (fst c) es s))" if "mem_invar (fst c) s"
    using that by (simp add: mem_invar_def mem_append_def log_wf_insert_all)
  show "mem_entries (snd (mem_append (fst c) es s)) k =
      (case find (\<lambda>e. entry_index (fst c) e = k) (rev es) of Some e \<Rightarrow> Some e | None \<Rightarrow> mem_entries s k)"
    if "mem_invar (fst c) s"
    using that
    unfolding mem_entries_def by (simp add: mem_append_def mem_invar_def log_wf_def bt.get_insert_all)
  show "ls_last_purged_log_id (snd (mem_append (fst c) es s)) = ls_last_purged_log_id s"
    by (simp add: mem_append_def)
  show "\<exists>s'. mem_truncate_after (snd c) l s = Some s'" if "\<And>i. l = Some i \<Longrightarrow> lid_index i \<noteq> - 1"
    using mem_truncate_cases [OF that] by blast
  show "mem_invar re s' \<and> ls_last_purged_log_id s' = ls_last_purged_log_id s \<and>
      mem_entries s' k = (if \<exists>i. l = Some i \<and> k \<le> lid_index i then mem_entries s k else None)"
    if "mem_invar re s" "\<And>i. l = Some i \<Longrightarrow> lid_index i \<noteq> - 1" "mem_truncate_after (snd c) l s = Some s'"
  proof -
    have s': "s' = s\<lparr>ls_log := fold bt_remove (map fst (bt_select
        (Included (case l of Some i \<Rightarrow> lid_index i + 1 | None \<Rightarrow> 0), Unbounded) (ls_log s))) (ls_log s)\<rparr>"
      using mem_truncate_cases [OF that(2), of l "snd c" s] that(3) by simp
    have "bt_wf (ls_log s)" using that(1) by (simp add: mem_invar_def log_wf_def)
    then have "mem_entries s' k = (if (case l of Some i \<Rightarrow> lid_index i + 1 | None \<Rightarrow> 0) \<le> k then None else mem_entries s k)"
      by (simp add: s' mem_entries_def bt_get_remove_range)
    moreover have "(case l of Some i \<Rightarrow> lid_index i + 1 | None \<Rightarrow> 0) \<le> k \<longleftrightarrow> \<not> (\<exists>i. l = Some i \<and> k \<le> lid_index i)"
      using that(2) not_ge_plus_one [of _ k] by (cases l) auto
    moreover have "mem_invar re s'" and "ls_last_purged_log_id s' = ls_last_purged_log_id s"
      using that(1) by (simp_all add: s' mem_invar_def log_wf_remove_range)
    ultimately show ?thesis by auto
  qed
  show "(\<exists>s'. mem_purge i s = Some s') \<longleftrightarrow> ls_last_purged_log_id s \<le> Some i"
    by (simp add: mem_purge_def Let_def)
  show "mem_invar re s' \<and> ls_last_purged_log_id s' = Some i \<and>
      mem_entries s' k = (if k \<le> lid_index i then None else mem_entries s k)"
    if "mem_invar re s" "mem_purge i s = Some s'"
    using that by (auto simp: mem_purge_def Let_def mem_invar_def mem_entries_def log_wf_remove_range
        bt_get_remove_range log_wf_def [of re "ls_log s"] split: if_splits)
  show "\<exists>es. mem_try_get_log_entries r s = Some es \<and> sorted_wrt (<) (map (entry_index re) es) \<and>
      (\<forall>e. e \<in> set es \<longleftrightarrow> (\<exists>k. in_bounds r k \<and> mem_entries s k = Some e))"
    if "mem_invar re s" "\<not> bad_range r"
    using that log_wf_select [where re = re and m = "ls_log s" and r = r]
    by (simp add: mem_try_get_log_entries_def bt_range_def mem_invar_def mem_entries_def)
  show "mem_try_get_log_entries r s = None" if "bad_range r"
    using that by (simp add: mem_try_get_log_entries_def bt_range_def)
qed

lemmas mem_store_defs [store_defs] =
  mem_try_get_log_entries_def mem_get_log_state_def mem_save_committed_def mem_read_committed_def
  mem_save_vote_def mem_read_vote_def mem_append_def mem_truncate_after_def mem_purge_def

text \<open>The last log id is that of the highest index, or the purged one when the log is empty.\<close>

lemma mem_last_log_id:
  assumes "mem_invar re s"
  shows "case lst_last_log_id (mem_get_log_state re s) of
      None \<Rightarrow> (\<forall>k. mem_entries s k = None) \<and> ls_last_purged_log_id s = None
    | Some l \<Rightarrow> (\<exists>k e. mem_entries s k = Some e \<and> entry_log_id re e = l \<and>
                      (\<forall>j. mem_entries s j \<noteq> None \<longrightarrow> j \<le> k)) \<or>
               ((\<forall>k. mem_entries s k = None) \<and> ls_last_purged_log_id s = Some l)"
proof (cases "bt_next_back (ls_log s)")
  case None
  then have "mem_entries s k = None" for k by (simp add: mem_entries_def bt_get_def)
  with None show ?thesis
    by (simp add: mem_get_log_state_def Let_def bt_next_back_def split: option.split)
next
  case (Some x)
  obtain k e where x: "x = (k, e)" by (cases x)
  have "bt_wf (ls_log s)" using assms by (simp add: mem_invar_def log_wf_def)
  from bt_next_back_max [OF this] Some x
  have "mem_entries s k = Some e" "\<And>j. mem_entries s j \<noteq> None \<Longrightarrow> j \<le> k"
    unfolding mem_entries_def by blast+
  with Some x show ?thesis by (auto simp: mem_get_log_state_def Let_def)
qed

end
