(* ===== verification/Serde.thy ===== *)
theory Serde
  imports Prelude
begin

section \<open>JSON encoders as parameters\<close>

text \<open>
  \<open>serde_json\<close> is a third-party crate: the definitions that serialize take the
  encoder and decoder of the type as a parameter, a \<open>codec\<close>. What the program
  relies on is \<open>codec_ok\<close>: every value of the (derived) type serializes, and
  deserializing the bytes gives the value back. The second half of the theory builds
  concrete codecs out of self-delimiting picklers; they instantiate the parameter in
  the concrete instances of the theorems.
\<close>

record 'a codec =
  to_vec :: "'a \<Rightarrow> (string, bytes) outcome"
  from_slice :: "bytes \<Rightarrow> (string, 'a) outcome"

definition codec_ok :: "'a codec \<Rightarrow> bool" where
  "codec_ok c \<longleftrightarrow> (\<forall>x. \<exists>b. to_vec c x = Ok b \<and> from_slice c b = Ok x)"

lemma codec_okE:
  assumes "codec_ok c"
  obtains b where "to_vec c x = Ok b" "from_slice c b = Ok x"
  using assms by (auto simp: codec_ok_def)

lemma codec_ok_decode: "codec_ok c \<Longrightarrow> to_vec c x = Ok b \<Longrightarrow> from_slice c b = Ok x"
  by (metis codec_ok_def outcome.inject(1))

lemma codec_ok_inj: "codec_ok c \<Longrightarrow> to_vec c x = Ok b \<Longrightarrow> to_vec c y = Ok b \<Longrightarrow> x = y"
  by (metis codec_ok_decode outcome.inject(1))

subsection \<open>Concrete codecs\<close>

record 'a pickler =
  pickle :: "'a \<Rightarrow> bytes"
  unpickle :: "bytes \<Rightarrow> ('a \<times> bytes) option"

definition pickler_ok :: "'a pickler \<Rightarrow> bool" where
  "pickler_ok p \<longleftrightarrow> (\<forall>x r. unpickle p (pickle p x @ r) = Some (x, r))"

definition codec_of :: "'a pickler \<Rightarrow> 'a codec" where
  "codec_of p =
     \<lparr>to_vec = (\<lambda>x. Ok (pickle p x)),
      from_slice = (\<lambda>b. case unpickle p b of Some (x, []) \<Rightarrow> Ok x | _ \<Rightarrow> Err ''invalid'')\<rparr>"

lemma codec_of_ok: "pickler_ok p \<Longrightarrow> codec_ok (codec_of p)"
proof -
  assume "pickler_ok p"
  then have "unpickle p (pickle p x) = Some (x, [])" for x
    unfolding pickler_ok_def by (metis append_Nil2)
  then show ?thesis by (simp add: codec_ok_def codec_of_def)
qed

definition word_pickler :: "'a::len word pickler" where
  "word_pickler =
     \<lparr>pickle = (\<lambda>w. map (\<lambda>i. of_bool (bit w i)) [0..<LENGTH('a)]),
      unpickle = (\<lambda>b. Some (horner_sum of_bool 2 (map (\<lambda>x. x = 1) (take LENGTH('a) b)),
                            drop LENGTH('a) b))\<rparr>"

lemma word_pickler_ok [simp]: "pickler_ok word_pickler"
proof -
  have "map (\<lambda>x. x = (1::u8)) (map (\<lambda>i. of_bool (bit w i)) [0..<n]) = map (bit w) [0..<n]"
    for w :: "'a word" and n
    by (auto simp: of_bool_def)
  then show ?thesis
    by (simp add: pickler_ok_def word_pickler_def comp_def horner_sum_bit_eq_take_bit)
qed

definition pair_pickler :: "'a pickler \<Rightarrow> 'b pickler \<Rightarrow> ('a \<times> 'b) pickler" where
  "pair_pickler p q =
     \<lparr>pickle = (\<lambda>(x, y). pickle p x @ pickle q y),
      unpickle = (\<lambda>b. case unpickle p b of
                        None \<Rightarrow> None
                      | Some (x, r) \<Rightarrow> map_option (\<lambda>(y, r'). ((x, y), r')) (unpickle q r))\<rparr>"

lemma pair_pickler_ok [simp]: "pickler_ok p \<Longrightarrow> pickler_ok q \<Longrightarrow> pickler_ok (pair_pickler p q)"
  by (auto simp: pickler_ok_def pair_pickler_def)

definition option_pickler :: "'a pickler \<Rightarrow> 'a option pickler" where
  "option_pickler p =
     \<lparr>pickle = (\<lambda>x. case x of None \<Rightarrow> [0] | Some y \<Rightarrow> 1 # pickle p y),
      unpickle = (\<lambda>b. case b of
                        [] \<Rightarrow> None
                      | t # r \<Rightarrow> if t = 0 then Some (None, r)
                                 else map_option (\<lambda>(y, r'). (Some y, r')) (unpickle p r))\<rparr>"

lemma option_pickler_ok [simp]: "pickler_ok p \<Longrightarrow> pickler_ok (option_pickler p)"
  by (auto simp: pickler_ok_def option_pickler_def split: option.splits)

fun pickle_list :: "'a pickler \<Rightarrow> 'a list \<Rightarrow> bytes" where
  "pickle_list p [] = [0]"
| "pickle_list p (x # xs) = 1 # pickle p x @ pickle_list p xs"

fun unpickle_list :: "nat \<Rightarrow> 'a pickler \<Rightarrow> bytes \<Rightarrow> ('a list \<times> bytes) option" where
  "unpickle_list 0 p b = None"
| "unpickle_list (Suc n) p [] = None"
| "unpickle_list (Suc n) p (t # r) =
     (if t = 0 then Some ([], r)
      else case unpickle p r of
             None \<Rightarrow> None
           | Some (x, r') \<Rightarrow> map_option (\<lambda>(xs, r''). (x # xs, r'')) (unpickle_list n p r'))"

definition list_pickler :: "'a pickler \<Rightarrow> 'a list pickler" where
  "list_pickler p =
     \<lparr>pickle = pickle_list p, unpickle = (\<lambda>b. unpickle_list (Suc (length b)) p b)\<rparr>"

lemma unpickle_pickle_list:
  "pickler_ok p \<Longrightarrow> length xs < n \<Longrightarrow> unpickle_list n p (pickle_list p xs @ r) = Some (xs, r)"
proof (induction xs arbitrary: n)
  case Nil
  then show ?case by (cases n) auto
next
  case (Cons x xs)
  then show ?case by (cases n) (auto simp: pickler_ok_def)
qed

lemma length_pickle_list: "length xs < length (pickle_list p xs)"
  by (induction xs) auto

lemma list_pickler_ok [simp]: "pickler_ok p \<Longrightarrow> pickler_ok (list_pickler p)"
proof -
  assume p: "pickler_ok p"
  have "length xs < Suc (length (pickle_list p xs @ r))" for xs r
    using length_pickle_list [of xs p] by simp
  then have "unpickle_list (Suc (length (pickle_list p xs @ r))) p (pickle_list p xs @ r) = Some (xs, r)"
    for xs r by (rule unpickle_pickle_list [OF p])
  then show ?thesis by (simp only: pickler_ok_def list_pickler_def pickler.simps) blast
qed

definition unit_pickler :: "unit pickler" where
  "unit_pickler = \<lparr>pickle = (\<lambda>_. []), unpickle = (\<lambda>b. Some ((), b))\<rparr>"

lemma unit_pickler_ok [simp]: "pickler_ok unit_pickler"
  by (simp add: pickler_ok_def unit_pickler_def)

text \<open>Picklers of a type that is isomorphic to a simpler one, such as a record.\<close>

definition iso_pickler :: "('a \<Rightarrow> 'b) \<Rightarrow> ('b \<Rightarrow> 'a) \<Rightarrow> 'b pickler \<Rightarrow> 'a pickler" where
  "iso_pickler f g p =
     \<lparr>pickle = (\<lambda>x. pickle p (f x)),
      unpickle = (\<lambda>b. map_option (\<lambda>(y, r). (g y, r)) (unpickle p b))\<rparr>"

lemma iso_pickler_ok: "pickler_ok p \<Longrightarrow> (\<And>x. g (f x) = x) \<Longrightarrow> pickler_ok (iso_pickler f g p)"
  by (simp add: pickler_ok_def iso_pickler_def)

end
