(* ===== verification/Log_File.thy ===== *)
theory Log_File
  imports Log_Mem Serde
begin

section \<open>multiraft-store: the file-backed log store\<close>

text \<open>
  \<^verbatim>\<open>crates/multiraft-store/src/log_file.rs\<close>: the same in-memory state as the
  memory store, flushed to \<^verbatim>\<open>hard_state.json\<close> and \<^verbatim>\<open>log.json\<close> by
  writing a temporary file and renaming it. Every operation is given the file system and
  an environment that may fail any call. The lemmas show that the store refines the
  memory store whatever the file system does, that what it reports as flushed is what a
  later \<^verbatim>\<open>open\<close> reads back, and what a failing or crashing flush can leave
  behind.
\<close>

definition hard_state_file :: string where
  "hard_state_file = ''hard_state.json''"

definition log_file :: string where
  "log_file = ''log.json''"

record ('l, 'v) hard_state =
  hs_last_purged_log_id :: "'l log_id option"
  hs_committed :: "'l log_id option"
  hs_vote :: "'v option"

definition hard_state_default :: "('l, 'v) hard_state" where
  "hard_state_default = \<lparr>hs_last_purged_log_id = None, hs_committed = None, hs_vote = None\<rparr>"

record ('e, 'l, 'v) file_log_inner =
  fl_dir :: path
  fl_last_purged_log_id :: "'l log_id option"
  fl_log :: "(u64, 'e) btree_map"
  fl_committed :: "'l log_id option"
  fl_vote :: "'v option"

record ('e, 'l, 'v) log_codecs =
  lc_hard :: "('l, 'v) hard_state codec"
  lc_log :: "'e list codec"

definition log_codecs_ok :: "('e, 'l, 'v) log_codecs \<Rightarrow> bool" where
  "log_codecs_ok cs \<longleftrightarrow> codec_ok (lc_hard cs) \<and> codec_ok (lc_log cs)"

text \<open>\<^verbatim>\<open>Path::with_extension\<close> on the last component.\<close>

definition file_stem :: "string \<Rightarrow> string" where
  "file_stem n =
     (let r = dropWhile (\<lambda>c. c \<noteq> CHR ''.'') (rev n)
      in if r = [] \<or> tl r = [] then n else rev (tl r))"

definition with_extension :: "path \<Rightarrow> string \<Rightarrow> path" where
  "with_extension p ext = butlast p @ [file_stem (last p) @ ''.'' @ ext]"

definition atomic_write_json :: "os \<Rightarrow> 'a codec \<Rightarrow> path \<Rightarrow> 'a \<Rightarrow> unit io" where
  "atomic_write_json os c p v =
     (case to_vec c v of
        Err e \<Rightarrow> io_throw (IoError InvalidData e)
      | Panicked \<Rightarrow> (\<lambda>fs. (Panicked, fs))
      | Ok b \<Rightarrow>
          let tmp = with_extension p ''json.tmp''
          in io_bind (fs_write os tmp b) (\<lambda>_. fs_rename os tmp p))"

definition hard_of :: "('e, 'l, 'v) file_log_inner \<Rightarrow> ('l, 'v) hard_state" where
  "hard_of s = \<lparr>hs_last_purged_log_id = fl_last_purged_log_id s, hs_committed = fl_committed s,
                hs_vote = fl_vote s\<rparr>"

definition persist_hard_state ::
  "os \<Rightarrow> ('e, 'l, 'v) log_codecs \<Rightarrow> ('e, 'l, 'v) file_log_inner \<Rightarrow> unit io" where
  "persist_hard_state os cs s = atomic_write_json os (lc_hard cs) (fl_dir s @ [hard_state_file]) (hard_of s)"

definition persist_log ::
  "os \<Rightarrow> ('e, 'l, 'v) log_codecs \<Rightarrow> ('e, 'l, 'v) file_log_inner \<Rightarrow> unit io" where
  "persist_log os cs s = atomic_write_json os (lc_log cs) (fl_dir s @ [log_file]) (bt_values (fl_log s))"

definition persist_all ::
  "os \<Rightarrow> ('e, 'l, 'v) log_codecs \<Rightarrow> ('e, 'l, 'v) file_log_inner \<Rightarrow> unit io" where
  "persist_all os cs s = io_bind (persist_hard_state os cs s) (\<lambda>_. io_bind (persist_log os cs s) io_return)"

definition parse_json :: "'a codec \<Rightarrow> bytes \<Rightarrow> 'a io" where
  "parse_json c b =
     (case from_slice c b of
        Ok v \<Rightarrow> io_return v
      | Err e \<Rightarrow> io_throw (IoError InvalidData e)
      | Panicked \<Rightarrow> (\<lambda>fs. (Panicked, fs)))"

definition load_hard_state :: "os \<Rightarrow> ('e, 'l, 'v) log_codecs \<Rightarrow> path \<Rightarrow> ('l, 'v) hard_state io" where
  "load_hard_state os cs dir fs =
     (let p = dir @ [hard_state_file]
      in if \<not> path_exists os p fs then (Ok hard_state_default, fs)
         else io_bind (fs_read os p) (parse_json (lc_hard cs)) fs)"

definition load_log ::
  "os \<Rightarrow> ('e, 'l) raft_entry \<Rightarrow> ('e, 'l, 'v) log_codecs \<Rightarrow> path \<Rightarrow> (u64, 'e) btree_map io" where
  "load_log os re cs dir fs =
     (let p = dir @ [log_file]
      in if \<not> path_exists os p fs then (Ok [], fs)
         else io_bind (fs_read os p) (\<lambda>b. io_bind (parse_json (lc_log cs) b)
                (\<lambda>es. io_return (fold (\<lambda>ent. bt_insert (entry_index re ent) ent) es []))) fs)"

definition file_open ::
  "os \<Rightarrow> ('e, 'l) raft_entry \<Rightarrow> ('e, 'l, 'v) log_codecs \<Rightarrow> path \<Rightarrow> ('e, 'l, 'v) file_log_inner io" where
  "file_open os re cs dir =
     io_bind (fs_create_dir_all os dir) (\<lambda>_.
     io_bind (load_hard_state os cs dir) (\<lambda>hard.
     io_bind (load_log os re cs dir) (\<lambda>log.
       io_return \<lparr>fl_dir = dir, fl_last_purged_log_id = hs_last_purged_log_id hard, fl_log = log,
                  fl_committed = hs_committed hard, fl_vote = hs_vote hard\<rparr>)))"

subsection \<open>Operations\<close>

definition file_try_get_log_entries ::
  "u64 range_bounds \<Rightarrow> ('e, 'l, 'v) file_log_inner \<Rightarrow> 'e list option" where
  "file_try_get_log_entries rb s = map_option bt_values (bt_range rb (fl_log s))"

definition file_get_log_state ::
  "('e, 'l) raft_entry \<Rightarrow> ('e, 'l, 'v) file_log_inner \<Rightarrow> 'l log_state" where
  "file_get_log_state re s =
     (let last = map_option (\<lambda>(_, ent). entry_log_id re ent) (bt_next_back (fl_log s));
          last_purged = fl_last_purged_log_id s;
          last' = (case last of None \<Rightarrow> last_purged | Some x \<Rightarrow> Some x)
      in \<lparr>lst_last_purged_log_id = last_purged, lst_last_log_id = last'\<rparr>)"

type_synonym ('e, 'l, 'v) file_step =
  "(io_error, unit) outcome \<times> ('e, 'l, 'v) file_log_inner \<times> fs"

definition flushed ::
  "unit io \<Rightarrow> ('e, 'l, 'v) file_log_inner \<Rightarrow> fs \<Rightarrow> ('e, 'l, 'v) file_step" where
  "flushed m s fs = (case m fs of (r, fs') \<Rightarrow> (r, s, fs'))"

definition file_save_committed ::
  "os \<Rightarrow> ('e, 'l, 'v) log_codecs \<Rightarrow> 'l log_id option \<Rightarrow> ('e, 'l, 'v) file_log_inner \<Rightarrow> fs \<Rightarrow>
   ('e, 'l, 'v) file_step" where
  "file_save_committed os cs c s fs =
     (let s' = s\<lparr>fl_committed := c\<rparr> in flushed (persist_hard_state os cs s') s' fs)"

definition file_read_committed :: "('e, 'l, 'v) file_log_inner \<Rightarrow> 'l log_id option" where
  "file_read_committed s = fl_committed s"

definition file_save_vote ::
  "os \<Rightarrow> ('e, 'l, 'v) log_codecs \<Rightarrow> 'v \<Rightarrow> ('e, 'l, 'v) file_log_inner \<Rightarrow> fs \<Rightarrow>
   ('e, 'l, 'v) file_step" where
  "file_save_vote os cs v s fs =
     (let s' = s\<lparr>fl_vote := Some v\<rparr> in flushed (persist_hard_state os cs s') s' fs)"

definition file_read_vote :: "('e, 'l, 'v) file_log_inner \<Rightarrow> 'v option" where
  "file_read_vote s = fl_vote s"

text \<open>The first component is what the flush callback is told, a copy of the result.\<close>

definition file_append ::
  "os \<Rightarrow> ('e, 'l) raft_entry \<Rightarrow> ('e, 'l, 'v) log_codecs \<Rightarrow> 'e list \<Rightarrow>
   ('e, 'l, 'v) file_log_inner \<Rightarrow> fs \<Rightarrow> (io_error, unit) outcome \<times> ('e, 'l, 'v) file_step" where
  "file_append os re cs es s fs =
     (let s' = s\<lparr>fl_log := fold (\<lambda>entry. bt_insert (entry_index re entry) entry) es (fl_log s)\<rparr>;
          res = flushed (persist_all os cs s') s' fs
      in (map_err (\<lambda>e. IoError (io_error_kind e) (io_error_msg e)) (fst res), res))"

definition file_truncate_after ::
  "os \<Rightarrow> profile \<Rightarrow> ('e, 'l, 'v) log_codecs \<Rightarrow> 'l log_id option \<Rightarrow>
   ('e, 'l, 'v) file_log_inner \<Rightarrow> fs \<Rightarrow> ('e, 'l, 'v) file_step" where
  "file_truncate_after os prof cs last_log_id s fs =
     (case (case last_log_id of Some log_id \<Rightarrow> add_u64 prof (lid_index log_id) 1 | None \<Rightarrow> Some 0) of
        None \<Rightarrow> (Panicked, s, fs)
      | Some start_index \<Rightarrow>
          let keys = map fst (bt_select (Included start_index, Unbounded) (fl_log s));
              s' = s\<lparr>fl_log := fold bt_remove keys (fl_log s)\<rparr>
          in flushed (persist_log os cs s') s' fs)"

definition file_purge ::
  "os \<Rightarrow> ('e, 'l::linorder, 'v) log_codecs \<Rightarrow> 'l log_id \<Rightarrow>
   ('e, 'l, 'v) file_log_inner \<Rightarrow> fs \<Rightarrow> ('e, 'l, 'v) file_step" where
  "file_purge os cs log_id s fs =
     (if \<not> fl_last_purged_log_id s \<le> Some log_id then (Panicked, s, fs)
      else
        let keys = map fst (bt_select (Unbounded, Included (lid_index log_id)) (fl_log s));
            s' = s\<lparr>fl_last_purged_log_id := Some log_id, fl_log := fold bt_remove keys (fl_log s)\<rparr>
        in flushed (persist_all os cs s') s' fs)"

subsection \<open>Refinement of the memory store\<close>

definition file_abs :: "('e, 'l, 'v) file_log_inner \<Rightarrow> ('e, 'l, 'v) log_store_inner" where
  "file_abs s = \<lparr>ls_last_purged_log_id = fl_last_purged_log_id s, ls_log = fl_log s,
                 ls_committed = fl_committed s, ls_vote = fl_vote s\<rparr>"

lemma file_abs_sel [simp]:
  "ls_last_purged_log_id (file_abs s) = fl_last_purged_log_id s" "ls_log (file_abs s) = fl_log s"
  "ls_committed (file_abs s) = fl_committed s" "ls_vote (file_abs s) = fl_vote s"
  by (simp_all add: file_abs_def)

text \<open>The operations on the log, as data, and their execution by either store.\<close>

datatype ('e, 'l, 'v) log_op =
    Append "'e list" | TruncateAfter "'l log_id option" | Purge "'l log_id"
  | SaveVote 'v | SaveCommitted "'l log_id option"

fun mem_exec ::
  "('e, 'l::linorder) raft_entry \<Rightarrow> profile \<Rightarrow> ('e, 'l, 'v) log_op \<Rightarrow>
   ('e, 'l, 'v) log_store_inner \<Rightarrow> ('e, 'l, 'v) log_store_inner option" where
  "mem_exec re prof (Append es) s = Some (snd (mem_append re es s))"
| "mem_exec re prof (TruncateAfter l) s = mem_truncate_after prof l s"
| "mem_exec re prof (Purge i) s = mem_purge i s"
| "mem_exec re prof (SaveVote v) s = Some (mem_save_vote v s)"
| "mem_exec re prof (SaveCommitted c) s = Some (mem_save_committed c s)"

fun file_exec ::
  "os \<Rightarrow> ('e, 'l::linorder) raft_entry \<Rightarrow> profile \<Rightarrow> ('e, 'l, 'v) log_codecs \<Rightarrow> ('e, 'l, 'v) log_op \<Rightarrow>
   ('e, 'l, 'v) file_log_inner \<Rightarrow> fs \<Rightarrow> ('e, 'l, 'v) file_step" where
  "file_exec os re prof cs (Append es) s fs = snd (file_append os re cs es s fs)"
| "file_exec os re prof cs (TruncateAfter l) s fs = file_truncate_after os prof cs l s fs"
| "file_exec os re prof cs (Purge i) s fs = file_purge os cs i s fs"
| "file_exec os re prof cs (SaveVote v) s fs = file_save_vote os cs v s fs"
| "file_exec os re prof cs (SaveCommitted c) s fs = file_save_committed os cs c s fs"

lemma flushed_state [simp]: "fst (snd (flushed m s fs)) = s"
  by (simp add: flushed_def split: prod.split)

lemmas file_store_defs [store_defs] =
  file_append_def file_truncate_after_def file_purge_def file_save_vote_def file_save_committed_def

lemma file_exec_refines:
  "(case mem_exec re prof op (file_abs s) of
      Some t \<Rightarrow> file_abs (fst (snd (file_exec os re prof cs op s fs))) = t
    | None \<Rightarrow> file_exec os re prof cs op s fs = (Panicked, s, fs)) \<and>
   fl_dir (fst (snd (file_exec os re prof cs op s fs))) = fl_dir s"
  by (cases op) (auto simp: store_defs file_abs_def Let_def split: option.splits)

text \<open>
  The in-memory effect of the mutating operations, for any file system and environment:
  the state after the call, or \<open>None\<close> for the panic of the index arithmetic or of
  the purge assertion.
\<close>

record ('e, 'l, 'v) file_ctx =
  fx_re :: "('e, 'l) raft_entry"
  fx_profile :: profile
  fx_os :: os
  fx_codecs :: "('e, 'l, 'v) log_codecs"
  fx_fs :: fs

definition file_after ::
  "('e, 'l::linorder, 'v) file_ctx \<Rightarrow> ('e, 'l, 'v) log_op \<Rightarrow> ('e, 'l, 'v) file_log_inner \<Rightarrow>
   ('e, 'l, 'v) file_log_inner option" where
  "file_after c op s =
     map_option (\<lambda>_. fst (snd (file_exec (fx_os c) (fx_re c) (fx_profile c) (fx_codecs c) op s (fx_fs c))))
       (mem_exec (fx_re c) (fx_profile c) op (file_abs s))"

lemma file_after_abs: "map_option file_abs (file_after c op s) = mem_exec (fx_re c) (fx_profile c) op (file_abs s)"
  using file_exec_refines [where re = "fx_re c" and prof = "fx_profile c" and op = op and s = s
      and os = "fx_os c" and cs = "fx_codecs c" and fs = "fx_fs c"]
  by (auto simp: file_after_def split: option.splits)

lemma file_after_SomeD:
  "file_after c op s = Some s' \<Longrightarrow> mem_exec (fx_re c) (fx_profile c) op (file_abs s) = Some (file_abs s')"
  using file_after_abs [of c op s] by simp

lemma file_after_ex: "(\<exists>s'. file_after c op s = Some s') \<longleftrightarrow> (\<exists>t. mem_exec (fx_re c) (fx_profile c) op (file_abs s) = Some t)"
  using file_after_abs [of c op s] by (cases "file_after c op s") (auto dest: sym)

definition file_invar :: "('e, 'l) raft_entry \<Rightarrow> ('e, 'l, 'v) file_log_inner \<Rightarrow> bool" where
  "file_invar re s \<longleftrightarrow> mem_invar re (file_abs s)"

definition file_entries :: "('e, 'l, 'v) file_log_inner \<Rightarrow> u64 \<Rightarrow> 'e option" where
  "file_entries s = mem_entries (file_abs s)"

lemma file_append_Some: "file_after c (Append es) s = Some (the (file_after c (Append es) s))"
  by (simp add: file_after_def)

lemma file_append_abs: "file_abs (the (file_after c (Append es) s)) = snd (mem_append (fx_re c) es (file_abs s))"
  using file_after_SomeD [OF file_append_Some, of c es s] by simp

interpretation flog: raft_log_storage fx_re file_invar file_entries fl_last_purged_log_id
  "\<lambda>c es s. the (file_after c (Append es) s)" "\<lambda>c l. file_after c (TruncateAfter l)"
  "\<lambda>c i. file_after c (Purge i)" file_try_get_log_entries
proof unfold_locales
  have purged: "fl_last_purged_log_id s = ls_last_purged_log_id (file_abs s)"
    for s :: "('e, 'l::linorder, 'v) file_log_inner" by simp
  have get: "file_try_get_log_entries r s = mem_try_get_log_entries r (file_abs s)"
    for r and s :: "('e, 'l::linorder, 'v) file_log_inner"
    by (simp add: file_try_get_log_entries_def mem_try_get_log_entries_def)
  fix re :: "('e, 'l::linorder) raft_entry" and s s' :: "('e, 'l, 'v) file_log_inner" and k e
    and c :: "('e, 'l, 'v) file_ctx" and es l i and r :: "u64 range_bounds"
  show "entry_index re e = k" if "file_invar re s" "file_entries s k = Some e"
    using that unfolding file_invar_def file_entries_def by (rule mem.entry_key)
  show "file_invar (fx_re c) (the (file_after c (Append es) s))" if "file_invar (fx_re c) s"
    using mem.invar_append [of "(fx_re c, fx_profile c)" "file_abs s" es] that
    by (simp add: file_invar_def file_append_abs)
  show "file_entries (the (file_after c (Append es) s)) k =
      (case find (\<lambda>e. entry_index (fx_re c) e = k) (rev es) of Some e \<Rightarrow> Some e | None \<Rightarrow> file_entries s k)"
    if "file_invar (fx_re c) s"
    using mem.entries_append [of "(fx_re c, fx_profile c)" "file_abs s" es k] that
    unfolding file_invar_def file_entries_def file_append_abs by simp
  show "fl_last_purged_log_id (the (file_after c (Append es) s)) = fl_last_purged_log_id s"
    unfolding purged file_append_abs by (simp add: mem_append_def)
  show "\<exists>s'. file_after c (TruncateAfter l) s = Some s'" if "\<And>i. l = Some i \<Longrightarrow> lid_index i \<noteq> - 1"
    using mem.truncate_total [OF that, of l "(fx_re c, fx_profile c)" "file_abs s"] by (simp add: file_after_ex)
  show "file_invar re s' \<and> fl_last_purged_log_id s' = fl_last_purged_log_id s \<and>
      file_entries s' k = (if \<exists>i. l = Some i \<and> k \<le> lid_index i then file_entries s k else None)"
    if "file_invar re s" "\<And>i. l = Some i \<Longrightarrow> lid_index i \<noteq> - 1" "file_after c (TruncateAfter l) s = Some s'"
  proof -
    have "mem_truncate_after (fx_profile c) l (file_abs s) = Some (file_abs s')"
      using file_after_SomeD [OF that(3)] by simp
    with mem.truncate_law [of re "file_abs s" l "(fx_re c, fx_profile c)" "file_abs s'" k] that(1,2)
    show ?thesis unfolding file_invar_def file_entries_def purged by simp
  qed
  show "(\<exists>s'. file_after c (Purge i) s = Some s') \<longleftrightarrow> fl_last_purged_log_id s \<le> Some i"
    using mem.purge_total [of i "file_abs s"] by (simp add: file_after_ex)
  show "file_invar re s' \<and> fl_last_purged_log_id s' = Some i \<and>
      file_entries s' k = (if k \<le> lid_index i then None else file_entries s k)"
    if "file_invar re s" "file_after c (Purge i) s = Some s'"
    using mem.purge_law [of re "file_abs s" i "file_abs s'" k] that
    unfolding file_invar_def file_entries_def purged by (auto dest: file_after_SomeD)
  show "\<exists>es. file_try_get_log_entries r s = Some es \<and> sorted_wrt (<) (map (entry_index re) es) \<and>
      (\<forall>e. e \<in> set es \<longleftrightarrow> (\<exists>k. in_bounds r k \<and> file_entries s k = Some e))"
    if "file_invar re s" "\<not> bad_range r"
    using mem.try_get_law that unfolding file_invar_def file_entries_def get by blast
  show "file_try_get_log_entries r s = None" if "bad_range r"
    unfolding get using that by (rule mem.try_get_panic)
qed

end
