(* ===== verification/Log_Durable.thy ===== *)
theory Log_Durable
  imports Log_File
begin

section \<open>Durability of the file-backed log store\<close>

text \<open>
  What is on disk, as \<^verbatim>\<open>load_hard_state\<close> and \<^verbatim>\<open>load_log\<close> would read it,
  related to what the store holds in memory. A flush that reports success has made the
  two agree; a flush that fails or is cut short by a crash leaves each of the two files
  either old or new, and never a new log with an old hard state. Reopening the directory
  after any sequence of successful operations gives the state the memory store would
  have reached.
\<close>

definition on_disk :: "'a codec \<Rightarrow> 'a \<Rightarrow> path \<Rightarrow> fs \<Rightarrow> 'a option" where
  "on_disk c dflt p fs =
     (case node_at fs p of
        None \<Rightarrow> Some dflt
      | Some Dir \<Rightarrow> None
      | Some (File b) \<Rightarrow> (case from_slice c b of Ok v \<Rightarrow> Some v | _ \<Rightarrow> None))"

definition on_disk_hard :: "('e, 'l, 'v) log_codecs \<Rightarrow> path \<Rightarrow> fs \<Rightarrow> ('l, 'v) hard_state option" where
  "on_disk_hard cs dir fs = on_disk (lc_hard cs) hard_state_default (dir @ [hard_state_file]) fs"

definition on_disk_log :: "('e, 'l, 'v) log_codecs \<Rightarrow> path \<Rightarrow> fs \<Rightarrow> 'e list option" where
  "on_disk_log cs dir fs = on_disk (lc_log cs) [] (dir @ [log_file]) fs"

definition persisted :: "('e, 'l, 'v) log_codecs \<Rightarrow> ('e, 'l, 'v) file_log_inner \<Rightarrow> fs \<Rightarrow> bool" where
  "persisted cs s fs \<longleftrightarrow>
     on_disk_hard cs (fl_dir s) fs = Some (hard_of s) \<and>
     on_disk_log cs (fl_dir s) fs = Some (bt_values (fl_log s))"

definition dirs_exist :: "fs \<Rightarrow> path \<Rightarrow> bool" where
  "dirs_exist fs dir \<longleftrightarrow> (\<forall>q. prefix q dir \<and> q \<noteq> [] \<longrightarrow> node_at fs q = Some Dir)"

subsection \<open>Temporary names\<close>

lemma tmp_hard: "with_extension (d @ [hard_state_file]) ''json.tmp'' = d @ [''hard_state.json.tmp'']"
  by (simp add: with_extension_def hard_state_file_def file_stem_def)

lemma tmp_log: "with_extension (d @ [log_file]) ''json.tmp'' = d @ [''log.json.tmp'']"
  by (simp add: with_extension_def log_file_def file_stem_def)

lemma file_names_distinct:
  "hard_state_file \<noteq> log_file" "''hard_state.json.tmp'' \<noteq> hard_state_file"
  "''hard_state.json.tmp'' \<noteq> log_file" "''log.json.tmp'' \<noteq> log_file"
  "''log.json.tmp'' \<noteq> hard_state_file"
  by (simp_all add: hard_state_file_def log_file_def)

lemmas tmp_names = tmp_hard tmp_log file_names_distinct file_names_distinct [symmetric]

subsection \<open>One atomic write\<close>

lemma atomic_write_effect:
  assumes "atomic_write_json os c p v fs = (r, fs')" and "with_extension p ''json.tmp'' \<noteq> p"
  shows "q \<noteq> p \<Longrightarrow> q \<noteq> with_extension p ''json.tmp'' \<Longrightarrow> node_at fs' q = node_at fs q"
    and "node_at fs' p = node_at fs p \<or> (\<exists>b. to_vec c v = Ok b \<and> node_at fs' p = Some (File b))"
    and "r = Ok () \<Longrightarrow> \<exists>b. to_vec c v = Ok b \<and> node_at fs' p = Some (File b)"
    and "r = Err e \<Longrightarrow> node_at fs' p = node_at fs p"
  using assms
  by (auto simp: atomic_write_json_def Let_def io_bind_def fs_write_def fs_rename_def
      split: outcome.splits option.splits fnode.splits if_splits)

lemma atomic_write_no_panic:
  "codec_ok c \<Longrightarrow> atomic_write_json os c p v fs = (r, fs') \<Longrightarrow> r \<noteq> Panicked"
  using codec_okE [of c v]
  by (auto simp: atomic_write_json_def Let_def io_bind_def fs_write_def fs_rename_def
      split: outcome.splits option.splits fnode.splits if_splits)

lemma atomic_write_on_disk:
  assumes "codec_ok c" and "atomic_write_json os c p v fs = (r, fs')"
    and "with_extension p ''json.tmp'' \<noteq> p"
  shows "on_disk c dflt p fs' = on_disk c dflt p fs \<or> on_disk c dflt p fs' = Some v"
    and "r = Ok () \<Longrightarrow> on_disk c dflt p fs' = Some v"
    and "r = Err e \<Longrightarrow> on_disk c dflt p fs' = on_disk c dflt p fs"
    and "q \<noteq> p \<Longrightarrow> q \<noteq> with_extension p ''json.tmp'' \<Longrightarrow> on_disk c' d' q fs' = on_disk c' d' q fs"
proof -
  note eff = atomic_write_effect [OF assms(2,3)]
  have new: "on_disk c dflt p fs' = Some v" if "to_vec c v = Ok b" "node_at fs' p = Some (File b)" for b
    using that codec_ok_decode [OF assms(1) that(1)] by (simp add: on_disk_def)
  show "on_disk c dflt p fs' = on_disk c dflt p fs \<or> on_disk c dflt p fs' = Some v"
    using eff(2) new by (auto simp: on_disk_def)
  show "r = Ok () \<Longrightarrow> on_disk c dflt p fs' = Some v"
    using eff(3) new by blast
  show "r = Err e \<Longrightarrow> on_disk c dflt p fs' = on_disk c dflt p fs"
    using eff(4) by (simp add: on_disk_def)
  show "q \<noteq> p \<Longrightarrow> q \<noteq> with_extension p ''json.tmp'' \<Longrightarrow> on_disk c' d' q fs' = on_disk c' d' q fs"
    using eff(1) by (simp add: on_disk_def)
qed

text \<open>
  The disk as a pair (hard state, log), and what each of the three flushes can make of
  it. A failed serialization cannot happen under \<open>log_codecs_ok\<close>, so a flush never
  panics.
\<close>

definition disk ::
  "('e, 'l, 'v) log_codecs \<Rightarrow> path \<Rightarrow> fs \<Rightarrow> ('l, 'v) hard_state option \<times> 'e list option" where
  "disk cs dir fs = (on_disk_hard cs dir fs, on_disk_log cs dir fs)"

definition mem_image :: "('e, 'l, 'v) file_log_inner \<Rightarrow> ('l, 'v) hard_state option \<times> 'e list option" where
  "mem_image s = (Some (hard_of s), Some (bt_values (fl_log s)))"

lemma persisted_disk: "persisted cs s fs \<longleftrightarrow> disk cs (fl_dir s) fs = mem_image s"
  by (simp add: persisted_def disk_def mem_image_def)

lemma persist_hard_disk:
  assumes "log_codecs_ok cs" "persist_hard_state os cs s fs = (r, fs')"
  shows "snd (disk cs (fl_dir s) fs') = snd (disk cs (fl_dir s) fs)"
    and "r = Ok () \<Longrightarrow> fst (disk cs (fl_dir s) fs') = Some (hard_of s)"
    and "r \<noteq> Ok () \<Longrightarrow> fst (disk cs (fl_dir s) fs') = fst (disk cs (fl_dir s) fs)"
proof -
  have c: "codec_ok (lc_hard cs)" using assms(1) by (simp add: log_codecs_ok_def)
  have w: "atomic_write_json os (lc_hard cs) (fl_dir s @ [hard_state_file]) (hard_of s) fs = (r, fs')"
    using assms(2) by (simp add: persist_hard_state_def)
  have t: "with_extension (fl_dir s @ [hard_state_file]) ''json.tmp'' \<noteq> fl_dir s @ [hard_state_file]"
    by (simp add: tmp_names)
  note d = atomic_write_on_disk [OF c w t]
  show "snd (disk cs (fl_dir s) fs') = snd (disk cs (fl_dir s) fs)"
    by (simp add: disk_def on_disk_log_def d(4) tmp_names)
  show "r = Ok () \<Longrightarrow> fst (disk cs (fl_dir s) fs') = Some (hard_of s)"
    by (simp add: disk_def on_disk_hard_def d(2))
  have "r \<noteq> Panicked" by (rule atomic_write_no_panic [OF c w])
  then show "r \<noteq> Ok () \<Longrightarrow> fst (disk cs (fl_dir s) fs') = fst (disk cs (fl_dir s) fs)"
    using d(3) by (cases r) (auto simp: disk_def on_disk_hard_def)
qed

lemma persist_log_disk:
  assumes "log_codecs_ok cs" "persist_log os cs s fs = (r, fs')"
  shows "fst (disk cs (fl_dir s) fs') = fst (disk cs (fl_dir s) fs)"
    and "r = Ok () \<Longrightarrow> snd (disk cs (fl_dir s) fs') = Some (bt_values (fl_log s))"
    and "r \<noteq> Ok () \<Longrightarrow> snd (disk cs (fl_dir s) fs') = snd (disk cs (fl_dir s) fs)"
proof -
  have c: "codec_ok (lc_log cs)" using assms(1) by (simp add: log_codecs_ok_def)
  have w: "atomic_write_json os (lc_log cs) (fl_dir s @ [log_file]) (bt_values (fl_log s)) fs = (r, fs')"
    using assms(2) by (simp add: persist_log_def)
  have t: "with_extension (fl_dir s @ [log_file]) ''json.tmp'' \<noteq> fl_dir s @ [log_file]"
    by (simp add: tmp_names)
  note d = atomic_write_on_disk [OF c w t]
  show "fst (disk cs (fl_dir s) fs') = fst (disk cs (fl_dir s) fs)"
    by (simp add: disk_def on_disk_hard_def d(4) tmp_names)
  show "r = Ok () \<Longrightarrow> snd (disk cs (fl_dir s) fs') = Some (bt_values (fl_log s))"
    by (simp add: disk_def on_disk_log_def d(2))
  have "r \<noteq> Panicked" by (rule atomic_write_no_panic [OF c w])
  then show "r \<noteq> Ok () \<Longrightarrow> snd (disk cs (fl_dir s) fs') = snd (disk cs (fl_dir s) fs)"
    using d(3) by (cases r) (auto simp: disk_def on_disk_log_def)
qed

text \<open>The full flush writes the hard state first, so the log is never newer than it.\<close>

lemma persist_all_disk:
  assumes "log_codecs_ok cs" "persist_all os cs s fs = (r, fs')"
  shows "r = Ok () \<Longrightarrow> disk cs (fl_dir s) fs' = mem_image s"
    and "r \<noteq> Ok () \<Longrightarrow> snd (disk cs (fl_dir s) fs') = snd (disk cs (fl_dir s) fs) \<and>
      (fst (disk cs (fl_dir s) fs') = fst (disk cs (fl_dir s) fs) \<or>
       fst (disk cs (fl_dir s) fs') = Some (hard_of s))"
proof -
  obtain r1 fs1 where h: "persist_hard_state os cs s fs = (r1, fs1)" by (cases "persist_hard_state os cs s fs")
  obtain r2 fs2 where l: "persist_log os cs s fs1 = (r2, fs2)" by (cases "persist_log os cs s fs1")
  note hd = persist_hard_disk [OF assms(1) h] and ld = persist_log_disk [OF assms(1) l]
  have cases: "(r1 = Ok () \<and> r = r2 \<and> fs' = fs2) \<or> (r1 \<noteq> Ok () \<and> r = r1 \<and> fs' = fs1)"
    using assms(2) h l by (cases r1; cases r2) (auto simp: persist_all_def io_bind_def)
  show "r = Ok () \<Longrightarrow> disk cs (fl_dir s) fs' = mem_image s"
    using cases hd ld by (auto simp: mem_image_def prod_eq_iff)
  show "r \<noteq> Ok () \<Longrightarrow> snd (disk cs (fl_dir s) fs') = snd (disk cs (fl_dir s) fs) \<and>
      (fst (disk cs (fl_dir s) fs') = fst (disk cs (fl_dir s) fs) \<or>
       fst (disk cs (fl_dir s) fs') = Some (hard_of s))"
    using cases hd ld by metis
qed

subsection \<open>Operations and the disk\<close>

lemma hard_of_upd [simp]:
  "hard_of (s\<lparr>fl_log := m\<rparr>) = hard_of s" "fl_dir (s\<lparr>fl_log := m\<rparr>) = fl_dir s"
  by (simp_all add: hard_of_def)

lemma flushed_eq: "flushed m s fs = (r, s', fs') \<longleftrightarrow> s' = s \<and> m fs = (r, fs')"
  by (auto simp: flushed_def split: prod.splits)

text \<open>What an operation writes: nothing when it panics, else the part it has changed.\<close>

lemma file_exec_writes:
  assumes "file_exec os re prof cs op s fs = (r, s', fs')"
  shows "r = Panicked \<and> s' = s \<and> fs' = fs \<or>
    fl_dir s' = fl_dir s \<and>
      (persist_all os cs s' fs = (r, fs') \<or>
       persist_log os cs s' fs = (r, fs') \<and> hard_of s' = hard_of s \<or>
       persist_hard_state os cs s' fs = (r, fs') \<and> fl_log s' = fl_log s)"
  using assms by (cases op) (auto simp: store_defs Let_def flushed_eq split: option.splits if_splits)

lemma file_exec_disk:
  assumes "log_codecs_ok cs" "disk cs (fl_dir s) fs = mem_image s"
    and "file_exec os re prof cs op s fs = (r, s', fs')"
  shows "r = Ok () \<Longrightarrow> disk cs (fl_dir s) fs' = mem_image s'"
    and "disk cs (fl_dir s) fs' \<in>
      {mem_image s, (Some (hard_of s'), Some (bt_values (fl_log s))), mem_image s'}"
proof -
  note flush = persist_hard_disk [OF assms(1)] persist_log_disk [OF assms(1)] persist_all_disk [OF assms(1)]
  consider "r = Panicked" "s' = s" "fs' = fs" | "fl_dir s' = fl_dir s" "persist_all os cs s' fs = (r, fs')"
    | "fl_dir s' = fl_dir s" "persist_log os cs s' fs = (r, fs')" "hard_of s' = hard_of s"
    | "fl_dir s' = fl_dir s" "persist_hard_state os cs s' fs = (r, fs')" "fl_log s' = fl_log s"
    using file_exec_writes [OF assms(3)] by blast
  then have "(r = Ok () \<longrightarrow> disk cs (fl_dir s) fs' = mem_image s') \<and>
    disk cs (fl_dir s) fs' \<in> {mem_image s, (Some (hard_of s'), Some (bt_values (fl_log s))), mem_image s'}"
  proof cases
    case 2
    with flush(7,8) [of os s' fs r fs'] assms(2) show ?thesis by (auto simp: mem_image_def prod_eq_iff)
  next
    case 3
    with flush(4-6) [of os s' fs r fs'] assms(2) show ?thesis by (auto simp: mem_image_def prod_eq_iff)
  next
    case 4
    with flush(1-3) [of os s' fs r fs'] assms(2) show ?thesis by (auto simp: mem_image_def prod_eq_iff)
  qed (use assms(2) in simp)
  then show "r = Ok () \<Longrightarrow> disk cs (fl_dir s) fs' = mem_image s'"
    and "disk cs (fl_dir s) fs' \<in>
      {mem_image s, (Some (hard_of s'), Some (bt_values (fl_log s))), mem_image s'}" by blast+
qed

subsection \<open>Reopening\<close>

lemma mk_dirs_noop: "(\<And>p. p \<in> set ps \<Longrightarrow> node_at fs p = Some Dir) \<Longrightarrow> mk_dirs ps fs = Some fs"
  by (induction ps) auto

lemma create_existing_dir:
  "os_healthy os \<Longrightarrow> dirs_exist fs dir \<Longrightarrow> fs_create_dir_all os dir fs = (Ok (), fs)"
proof -
  assume "os_healthy os" "dirs_exist fs dir"
  then have "mk_dirs (tl (prefixes dir)) fs = Some fs"
    by (intro mk_dirs_noop) (simp add: dirs_exist_def)
  with \<open>os_healthy os\<close> show ?thesis by (simp add: fs_create_dir_all_def)
qed

definition reloaded ::
  "('e, 'l) raft_entry \<Rightarrow> path \<Rightarrow> ('l, 'v) hard_state \<Rightarrow> 'e list \<Rightarrow> ('e, 'l, 'v) file_log_inner" where
  "reloaded re dir h es =
     \<lparr>fl_dir = dir, fl_last_purged_log_id = hs_last_purged_log_id h,
      fl_log = fold (\<lambda>ent. bt_insert (entry_index re ent) ent) es [],
      fl_committed = hs_committed h, fl_vote = hs_vote h\<rparr>"

lemma load_hard_state_ok:
  "os_healthy os \<Longrightarrow> on_disk_hard cs dir fs = Some h \<Longrightarrow> load_hard_state os cs dir fs = (Ok h, fs)"
  by (auto simp: load_hard_state_def on_disk_hard_def on_disk_def path_exists_def io_bind_def
      fs_read_def parse_json_def split: option.splits fnode.splits outcome.splits)

lemma load_log_ok:
  "os_healthy os \<Longrightarrow> on_disk_log cs dir fs = Some es \<Longrightarrow>
   load_log os re cs dir fs = (Ok (fold (\<lambda>ent. bt_insert (entry_index re ent) ent) es []), fs)"
  by (auto simp: load_log_def on_disk_log_def on_disk_def path_exists_def io_bind_def
      fs_read_def parse_json_def split: option.splits fnode.splits outcome.splits)

lemma file_open_reloads:
  assumes "os_healthy os" "dirs_exist fs dir" "disk cs dir fs = (Some h, Some es)"
  shows "file_open os re cs dir fs = (Ok (reloaded re dir h es), fs)"
proof -
  have "on_disk_hard cs dir fs = Some h" "on_disk_log cs dir fs = Some es"
    using assms(3) by (simp_all add: disk_def)
  with assms(1,2) show ?thesis
    by (simp add: file_open_def create_existing_dir load_hard_state_ok load_log_ok reloaded_def)
qed

lemma reloaded_mem_image:
  assumes "log_wf re (fl_log s)"
  shows "reloaded re (fl_dir s) (hard_of s) (bt_values (fl_log s)) = s"
proof -
  have "fold (\<lambda>ent. bt_insert (entry_index re ent) ent) (bt_values (fl_log s)) [] = fl_log s"
    using assms by (intro bt_rebuild) (auto simp: log_wf_def)
  then show ?thesis by (simp add: reloaded_def hard_of_def)
qed

lemma reopen_persisted:
  assumes "os_healthy os" "dirs_exist fs (fl_dir s)" "persisted cs s fs" "log_wf re (fl_log s)"
  shows "file_open os re cs (fl_dir s) fs = (Ok s, fs)"
  using file_open_reloads [OF assms(1,2), of cs "hard_of s" "bt_values (fl_log s)" re] assms(3,4)
  by (simp add: persisted_disk mem_image_def reloaded_mem_image)

text \<open>The operations touch only files of the store's directory.\<close>

lemma within_atomic_write:
  "P p \<Longrightarrow> P (with_extension p ''json.tmp'') \<Longrightarrow> within P (atomic_write_json os c p v)"
  by (cases "to_vec c v")
    (auto simp: atomic_write_json_def Let_def intro!: within_write within_rename, simp add: within_def)

lemma within_persist:
  "within (\<lambda>q. \<exists>n. q = fl_dir s @ [n]) (persist_hard_state os cs s)"
  "within (\<lambda>q. \<exists>n. q = fl_dir s @ [n]) (persist_log os cs s)"
  "within (\<lambda>q. \<exists>n. q = fl_dir s @ [n]) (persist_all os cs s)"
  unfolding persist_hard_state_def persist_log_def persist_all_def
  by (auto simp: tmp_hard tmp_log intro!: within_atomic_write within_bind)

lemma file_exec_dir: "file_exec os re prof cs op s fs = (r, s', fs') \<Longrightarrow> fl_dir s' = fl_dir s"
  using file_exec_refines [where re = re and prof = prof and op = op and s = s and os = os and cs = cs and fs = fs]
  by simp

lemma file_exec_frame:
  assumes "file_exec os re prof cs op s fs = (r, s', fs')" "\<And>n. q \<noteq> fl_dir s @ [n]"
  shows "node_at fs' q = node_at fs q"
proof -
  note frame = withinD [OF within_persist(1), where q = q] withinD [OF within_persist(2), where q = q]
    withinD [OF within_persist(3), where q = q]
  have "fs' = fs \<or> persist_hard_state os cs s' fs = (r, fs') \<or> persist_log os cs s' fs = (r, fs') \<or>
      persist_all os cs s' fs = (r, fs')"
    using assms(1) by (cases op) (auto simp: store_defs Let_def flushed_eq split: option.splits if_splits)
  moreover have "q \<noteq> fl_dir s' @ [n]" for n using assms(2) file_exec_dir [OF assms(1)] by simp
  ultimately show ?thesis using frame [of s' os cs fs] by auto
qed

lemma file_exec_dirs:
  assumes "file_exec os re prof cs op s fs = (r, s', fs')" "dirs_exist fs (fl_dir s)"
  shows "dirs_exist fs' (fl_dir s)"
  unfolding dirs_exist_def
proof (intro allI impI)
  fix q assume q: "prefix q (fl_dir s) \<and> q \<noteq> []"
  then have "q \<noteq> fl_dir s @ [n]" for n
    using prefix_length_le by fastforce
  with file_exec_frame [OF assms(1)] assms(2) q show "node_at fs' q = Some Dir"
    by (simp add: dirs_exist_def)
qed

lemma file_exec_log_wf:
  "file_exec os re prof cs op s fs = (r, s', fs') \<Longrightarrow> log_wf re (fl_log s) \<Longrightarrow> log_wf re (fl_log s')"
  by (cases op)
    (auto simp: store_defs Let_def flushed_eq log_wf_insert_all log_wf_remove_range
      split: option.splits if_splits)

subsection \<open>Sequences of operations\<close>

text \<open>Each operation runs in its own environment; a failing one ends the sequence.\<close>

fun file_exec_all ::
  "('e, 'l::linorder) raft_entry \<Rightarrow> profile \<Rightarrow> ('e, 'l, 'v) log_codecs \<Rightarrow> (os \<times> ('e, 'l, 'v) log_op) list \<Rightarrow>
   ('e, 'l, 'v) file_log_inner \<Rightarrow> fs \<Rightarrow> ('e, 'l, 'v) file_step" where
  "file_exec_all re prof cs [] s fs = (Ok (), s, fs)"
| "file_exec_all re prof cs ((os, op) # ops) s fs =
     (case file_exec os re prof cs op s fs of
        (Ok _, s', fs') \<Rightarrow> file_exec_all re prof cs ops s' fs'
      | step \<Rightarrow> step)"

fun mem_exec_all ::
  "('e, 'l::linorder) raft_entry \<Rightarrow> profile \<Rightarrow> ('e, 'l, 'v) log_op list \<Rightarrow>
   ('e, 'l, 'v) log_store_inner \<Rightarrow> ('e, 'l, 'v) log_store_inner option" where
  "mem_exec_all re prof [] s = Some s"
| "mem_exec_all re prof (op # ops) s = Option.bind (mem_exec re prof op s) (mem_exec_all re prof ops)"

lemma file_exec_Ok_refines:
  assumes "file_exec os re prof cs op s fs = (Ok (), s', fs')"
  shows "mem_exec re prof op (file_abs s) = Some (file_abs s')"
  using file_exec_refines [where re = re and prof = prof and op = op and s = s and os = os and cs = cs and fs = fs]
    assms by (auto split: option.splits)

lemma file_exec_all_invariant:
  assumes "log_codecs_ok cs" "file_exec_all re prof cs ops s fs = (Ok (), s', fs')"
    "persisted cs s fs" "dirs_exist fs (fl_dir s)" "log_wf re (fl_log s)"
  shows "persisted cs s' fs' \<and> dirs_exist fs' (fl_dir s') \<and> log_wf re (fl_log s') \<and> fl_dir s' = fl_dir s \<and>
    mem_exec_all re prof (map snd ops) (file_abs s) = Some (file_abs s')"
  using assms(2-5)
proof (induction ops arbitrary: s fs)
  case Nil
  then show ?case by simp
next
  case (Cons x ops)
  obtain os op where x: "x = (os, op)" by (cases x)
  obtain r s1 fs1 where step: "file_exec os re prof cs op s fs = (r, s1, fs1)"
    by (metis prod_cases3)
  with Cons.prems(1) x have r: "r = Ok ()" by (cases r) auto
  have "fl_dir s1 = fl_dir s" by (rule file_exec_dir [OF step])
  moreover have "persisted cs s1 fs1"
    using file_exec_disk(1) [OF assms(1) _ step r] Cons.prems(2) calculation by (simp add: persisted_disk)
  moreover have "dirs_exist fs1 (fl_dir s1)"
    using file_exec_dirs [OF step Cons.prems(3)] calculation(1) by simp
  moreover have "log_wf re (fl_log s1)" by (rule file_exec_log_wf [OF step Cons.prems(4)])
  moreover have "file_exec_all re prof cs ops s1 fs1 = (Ok (), s', fs')"
    using Cons.prems(1) x step r by simp
  moreover have "mem_exec re prof op (file_abs s) = Some (file_abs s1)"
    using file_exec_Ok_refines step r by blast
  ultimately show ?case using Cons.IH [of s1 fs1] x by auto
qed

subsection \<open>A concrete store\<close>

definition sample_re :: "(u64 \<times> u64, u64) raft_entry" where
  "sample_re = \<lparr>entry_log_id = (\<lambda>(t, i). LogId t i), entry_index = snd\<rparr>"

definition sample_log_id_pickler :: "u64 log_id pickler" where
  "sample_log_id_pickler = iso_pickler (\<lambda>l. (lid_leader l, lid_index l)) (\<lambda>(t, i). LogId t i)
     (pair_pickler word_pickler word_pickler)"

definition sample_hard_pickler :: "(u64, u64) hard_state pickler" where
  "sample_hard_pickler =
     iso_pickler (\<lambda>h. (hs_last_purged_log_id h, hs_committed h, hs_vote h))
       (\<lambda>(p, c, v). \<lparr>hs_last_purged_log_id = p, hs_committed = c, hs_vote = v\<rparr>)
       (pair_pickler (option_pickler sample_log_id_pickler)
         (pair_pickler (option_pickler sample_log_id_pickler) (option_pickler word_pickler)))"

definition sample_codecs :: "(u64 \<times> u64, u64, u64) log_codecs" where
  "sample_codecs = \<lparr>lc_hard = codec_of sample_hard_pickler,
     lc_log = codec_of (list_pickler (pair_pickler word_pickler word_pickler))\<rparr>"

lemma sample_codecs_ok [simp]: "log_codecs_ok sample_codecs"
  by (simp add: log_codecs_ok_def sample_codecs_def sample_hard_pickler_def sample_log_id_pickler_def
      codec_of_ok iso_pickler_ok)

definition sample_dir :: path where
  "sample_dir = [''data'', ''group-1'']"

definition sample_fs :: fs where
  "sample_fs = [([''data''], Dir), ([''data'', ''group-1''], Dir)]"

definition sample_store :: "(u64 \<times> u64, u64, u64) file_log_inner" where
  "sample_store = \<lparr>fl_dir = sample_dir, fl_last_purged_log_id = None, fl_log = [], fl_committed = None,
     fl_vote = None\<rparr>"

lemma sample_fs_dirs [simp]: "dirs_exist sample_fs (fl_dir sample_store)"
  by (auto simp: dirs_exist_def sample_fs_def sample_store_def sample_dir_def node_at_def prefix_Cons)

lemma sample_persisted [simp]: "persisted sample_codecs sample_store sample_fs"
  by (simp add: persisted_def on_disk_hard_def on_disk_log_def on_disk_def sample_fs_def sample_store_def
      sample_dir_def node_at_def hard_state_default_def hard_of_def bt_values_def)

lemma sample_log_wf [simp]: "log_wf sample_re (fl_log sample_store)"
  by (simp add: sample_store_def)

text \<open>On a healthy file system a flush into an existing directory succeeds.\<close>

lemma atomic_write_succeeds:
  assumes "codec_ok c" "os_healthy os" "p \<noteq> []" "is_dir fs (butlast p)"
    "node_at fs p \<noteq> Some Dir" "node_at fs (with_extension p ''json.tmp'') \<noteq> Some Dir"
    "butlast (with_extension p ''json.tmp'') = butlast p"
    "butlast p \<noteq> with_extension p ''json.tmp''"
  shows "\<exists>fs'. atomic_write_json os c p v fs = (Ok (), fs')"
proof -
  obtain b where "to_vec c v = Ok b" using assms(1) by (rule codec_okE)
  with assms show ?thesis
    by (auto simp: atomic_write_json_def Let_def io_bind_def fs_write_def fs_rename_def is_dir_def
        with_extension_def)
qed

definition store_files_ok :: "fs \<Rightarrow> path \<Rightarrow> bool" where
  "store_files_ok fs dir \<longleftrightarrow> is_dir fs dir \<and>
     (\<forall>n\<in>{hard_state_file, log_file, ''hard_state.json.tmp'', ''log.json.tmp''}.
        node_at fs (dir @ [n]) \<noteq> Some Dir)"

lemma atomic_write_keeps_nodes:
  assumes "atomic_write_json os c p v fs = (r, fs')"
  shows "node_at fs q = Some Dir \<Longrightarrow> node_at fs' q = Some Dir"
    and "node_at fs q \<noteq> Some Dir \<Longrightarrow> node_at fs' q \<noteq> Some Dir"
  using assms
  by (auto simp: atomic_write_json_def Let_def io_bind_def fs_write_def fs_rename_def
      split: outcome.splits option.splits fnode.splits if_splits)

lemma store_files_ok_atomic_write:
  "atomic_write_json os c p v fs = (r, fs') \<Longrightarrow> store_files_ok fs dir \<Longrightarrow> store_files_ok fs' dir"
  using atomic_write_keeps_nodes [of os c p v fs r fs'] by (auto simp: store_files_ok_def is_dir_def)

lemma persist_succeeds:
  assumes "log_codecs_ok cs" "os_healthy os" "store_files_ok fs (fl_dir s)"
  shows "\<exists>fs'. persist_hard_state os cs s fs = (Ok (), fs') \<and> store_files_ok fs' (fl_dir s)"
    and "\<exists>fs'. persist_log os cs s fs = (Ok (), fs') \<and> store_files_ok fs' (fl_dir s)"
proof -
  have h: "\<exists>fs'. persist_hard_state os cs s fs = (Ok (), fs')"
    unfolding persist_hard_state_def
    by (rule atomic_write_succeeds)
      (use assms in \<open>auto simp: tmp_names log_codecs_ok_def store_files_ok_def butlast_append\<close>)
  then show "\<exists>fs'. persist_hard_state os cs s fs = (Ok (), fs') \<and> store_files_ok fs' (fl_dir s)"
    unfolding persist_hard_state_def using assms(3) by (auto intro: store_files_ok_atomic_write)
  have l: "\<exists>fs'. persist_log os cs s fs = (Ok (), fs')"
    unfolding persist_log_def
    by (rule atomic_write_succeeds)
      (use assms in \<open>auto simp: tmp_names log_codecs_ok_def store_files_ok_def butlast_append\<close>)
  then show "\<exists>fs'. persist_log os cs s fs = (Ok (), fs') \<and> store_files_ok fs' (fl_dir s)"
    unfolding persist_log_def using assms(3) by (auto intro: store_files_ok_atomic_write)
qed

lemma persist_all_succeeds:
  assumes "log_codecs_ok cs" "os_healthy os" "store_files_ok fs (fl_dir s)"
  shows "\<exists>fs'. persist_all os cs s fs = (Ok (), fs') \<and> store_files_ok fs' (fl_dir s)"
proof -
  obtain fs1 where 1: "persist_hard_state os cs s fs = (Ok (), fs1)" "store_files_ok fs1 (fl_dir s)"
    using persist_succeeds(1) [OF assms] by blast
  obtain fs2 where 2: "persist_log os cs s fs1 = (Ok (), fs2)" "store_files_ok fs2 (fl_dir s)"
    using persist_succeeds(2) [OF assms(1,2) 1(2)] by blast
  from 1 2 show ?thesis by (simp add: persist_all_def)
qed

lemma file_exec_succeeds:
  assumes "log_codecs_ok cs" "os_healthy os" "store_files_ok fs (fl_dir s)"
    and "mem_exec re prof op (file_abs s) \<noteq> None"
  shows "\<exists>s' fs'. file_exec os re prof cs op s fs = (Ok (), s', fs') \<and> store_files_ok fs' (fl_dir s')"
proof -
  have "\<exists>fs'. persist_hard_state os cs t fs = (Ok (), fs') \<and> store_files_ok fs' (fl_dir s)"
    and "\<exists>fs'. persist_log os cs t fs = (Ok (), fs') \<and> store_files_ok fs' (fl_dir s)"
    and "\<exists>fs'. persist_all os cs t fs = (Ok (), fs') \<and> store_files_ok fs' (fl_dir s)"
    if "fl_dir t = fl_dir s" for t
    using persist_succeeds [OF assms(1,2), of fs t] persist_all_succeeds [OF assms(1,2), of fs t]
      assms(3) that by simp_all
  note ok = this
  show ?thesis
    using assms(4) by (cases op)
      (auto simp: store_defs Let_def flushed_eq split: option.splits if_splits intro!: ok)
qed

end
