(* ===== verification/Log_Props.thy ===== *)
theory Log_Props
  imports Log_Durable
begin

section \<open>Properties of the log stores\<close>

text \<open>
  The claims about the two implementations of the log storage contract: the file store
  is the memory store plus a disk, conflict resolution and range reads behave as Raft
  needs them, and restarting or crashing gives a state that is exactly characterised.
\<close>

lemma file_exec_after:
  assumes "file_exec os re prof cs op s fs = (r, s', fs')" "r \<noteq> Panicked"
  shows "file_after \<lparr>fx_re = re, fx_profile = prof, fx_os = os, fx_codecs = cs, fx_fs = fs\<rparr> op s = Some s'"
  using file_exec_refines [where re = re and prof = prof and op = op and s = s and os = os and cs = cs and fs = fs]
    assms by (auto simp: file_after_def split: option.splits)

lemma flush_no_panic:
  assumes "log_codecs_ok cs"
  shows "fst (persist_hard_state os cs s fs) \<noteq> Panicked" "fst (persist_log os cs s fs) \<noteq> Panicked"
    "fst (persist_all os cs s fs) \<noteq> Panicked"
proof -
  have c: "codec_ok (lc_hard cs)" "codec_ok (lc_log cs)" using assms by (simp_all add: log_codecs_ok_def)
  show h: "fst (persist_hard_state os cs s fs) \<noteq> Panicked" and l: "fst (persist_log os cs s fs) \<noteq> Panicked" for fs
    unfolding persist_hard_state_def persist_log_def
    using atomic_write_no_panic [OF c(1)] atomic_write_no_panic [OF c(2)] by (metis prod.collapse)+
  show "fst (persist_all os cs s fs) \<noteq> Panicked"
    unfolding persist_all_def io_bind_def
    using h [of fs] l by (auto split: prod.splits outcome.splits) (metis fst_conv)+
qed

lemma file_exec_panic:
  assumes "log_codecs_ok cs"
  shows "fst (file_exec os re prof cs op s fs) = Panicked \<longleftrightarrow> mem_exec re prof op (file_abs s) = None"
proof -
  have "fst (flushed m t fs) = fst (m fs)" for m :: "unit io" and t :: "('a, 'b, 'c) file_log_inner"
    by (simp add: flushed_def split: prod.split)
  with flush_no_panic [OF assms] show ?thesis
    by (cases op) (auto simp: store_defs Let_def split: option.splits)
qed

text \<open>
  C4. The file store refines the memory store. Whatever the file system does, every
  mutating operation changes the in-memory part exactly as the memory store's operation
  does, panics exactly when that one panics (changing nothing), and the reads (range
  reads, log state, vote, committed id) are the memory store's reads of the abstraction.
\<close>

theorem file_store_refines_mem:
  assumes "log_codecs_ok cs" and "file_exec os re prof cs op s fs = (r, s', fs')"
  shows "(r = Panicked \<longleftrightarrow> mem_exec re prof op (file_abs s) = None) \<and>
    (r = Panicked \<longrightarrow> s' = s \<and> fs' = fs) \<and>
    (r \<noteq> Panicked \<longrightarrow> mem_exec re prof op (file_abs s) = Some (file_abs s')) \<and>
    file_try_get_log_entries rb s' = mem_try_get_log_entries rb (file_abs s') \<and>
    file_get_log_state re s' = mem_get_log_state re (file_abs s') \<and>
    file_read_vote s' = mem_read_vote (file_abs s') \<and>
    file_read_committed s' = mem_read_committed (file_abs s')"
proof -
  have "r = Panicked \<longleftrightarrow> mem_exec re prof op (file_abs s) = None"
    using file_exec_panic [OF assms(1), of os re prof op s fs] assms(2) by simp
  with file_exec_refines [where re = re and prof = prof and op = op and s = s and os = os and cs = cs and fs = fs]
    assms(2)
  show ?thesis
    by (auto simp: file_try_get_log_entries_def file_get_log_state_def file_read_vote_def
        file_read_committed_def mem_try_get_log_entries_def mem_get_log_state_def mem_read_vote_def
        mem_read_committed_def split: option.splits)
qed

definition full_disk :: os where
  "full_disk = calm_os\<lparr>os_fault := (\<lambda>q. case q of OpWrite _ \<Rightarrow> Some (IoError OtherKind ''no space'') | _ \<Rightarrow> None)\<rparr>"

theorem file_store_refines_mem_witness:
  "\<exists>r s' fs'. file_exec full_disk sample_re Debug sample_codecs (Append [(1, 1), (1, 2)]) sample_store sample_fs
      = (r, s', fs') \<and> r \<noteq> Panicked \<and>
    mem_exec sample_re Debug (Append [(1, 1), (1, 2)]) (file_abs sample_store) = Some (file_abs s')"
proof -
  obtain r s' fs' where e: "file_exec full_disk sample_re Debug sample_codecs (Append [(1, 1), (1, 2)])
      sample_store sample_fs = (r, s', fs')" by (metis prod_cases3)
  note ref = file_store_refines_mem [OF sample_codecs_ok e, of "(Unbounded, Unbounded)"]
  have "r \<noteq> Panicked" using ref [THEN conjunct1] by simp
  moreover from this
  have "mem_exec sample_re Debug (Append [(1, 1), (1, 2)]) (file_abs sample_store) = Some (file_abs s')"
    using ref [THEN conjunct2, THEN conjunct2, THEN conjunct1] by (rule rev_mp)
  ultimately show ?thesis using e by (intro exI conjI)
qed

text \<open>
  C6. Restart. A file store that starts in agreement with its directory, runs any
  sequence of operations that all report success, each under its own environment, and is
  then reopened, is exactly the store it was, and that is what the memory store reaches
  by the same operations.
\<close>

theorem file_log_restart:
  assumes "log_codecs_ok cs" and "persisted cs s fs" and "dirs_exist fs (fl_dir s)" and "log_wf re (fl_log s)"
    and "file_exec_all re prof cs ops s fs = (Ok (), s', fs')" and "os_healthy os"
  shows "file_open os re cs (fl_dir s) fs' = (Ok s', fs') \<and>
    mem_exec_all re prof (map snd ops) (file_abs s) = Some (file_abs s')"
  using file_exec_all_invariant [OF assms(1,5,2-4)] reopen_persisted [OF assms(6), of fs' s' cs re] by auto

lemma sample_store_files_ok: "store_files_ok sample_fs (fl_dir sample_store)"
  by (simp add: store_files_ok_def sample_fs_def sample_store_def sample_dir_def is_dir_def node_at_def)

theorem file_log_restart_witness:
  "\<exists>s' fs'. file_exec_all sample_re Debug sample_codecs [(calm_os, Append [(1, 1), (1, 2)])]
      sample_store sample_fs = (Ok (), s', fs') \<and>
    file_open calm_os sample_re sample_codecs (fl_dir sample_store) fs' = (Ok s', fs')"
proof -
  obtain s' fs' where "file_exec calm_os sample_re Debug sample_codecs (Append [(1, 1), (1, 2)])
      sample_store sample_fs = (Ok (), s', fs')"
    using file_exec_succeeds [OF sample_codecs_ok calm_os_healthy sample_store_files_ok,
        of sample_re Debug "Append [(1, 1), (1, 2)]"] by auto
  then have e: "file_exec_all sample_re Debug sample_codecs [(calm_os, Append [(1, 1), (1, 2)])]
      sample_store sample_fs = (Ok (), s', fs')" by (simp del: file_exec.simps)
  from file_log_restart [OF sample_codecs_ok sample_persisted sample_fs_dirs sample_log_wf e calm_os_healthy]
  show ?thesis using e by blast
qed

text \<open>
  C7. Crash safety of one operation. Whatever fails during an operation, a later reopening
  succeeds and finds the store before the operation or the store after it; the only other
  possibility is a purge whose new hard state was written while the log was not. An
  operation that reports success is found complete.
\<close>

theorem file_flush_crash_atomic:
  assumes "log_codecs_ok cs" and "persisted cs s fs" and "dirs_exist fs (fl_dir s)" and "log_wf re (fl_log s)"
    and "file_exec os re prof cs op s fs = (r, s', fs')" and "os_healthy os'"
  shows "\<exists>t. file_open os' re cs (fl_dir s) fs' = (Ok t, fs') \<and> (r = Ok () \<longrightarrow> t = s') \<and>
    (t = s \<or> t = s' \<or> (\<exists>i. op = Purge i \<and> t = s\<lparr>fl_last_purged_log_id := Some i\<rparr>))"
proof -
  have d: "disk cs (fl_dir s) fs = mem_image s" using assms(2) by (simp add: persisted_disk)
  note dk = file_exec_disk [OF assms(1) d assms(5)]
  have dir: "fl_dir s' = fl_dir s" by (rule file_exec_dir [OF assms(5)])
  have wf': "log_wf re (fl_log s')" by (rule file_exec_log_wf [OF assms(5,4)])
  have mixed: "t = s \<or> t = s' \<or> (\<exists>i. op = Purge i \<and> t = s\<lparr>fl_last_purged_log_id := Some i\<rparr>)"
    if "t = s'\<lparr>fl_log := fl_log s\<rparr>" for t
    using assms(5) that by (cases op) (auto simp: store_defs Let_def flushed_eq split: option.splits if_splits)
  have reopen: "file_open os' re cs (fl_dir s) fs' = (Ok t, fs')"
    if "disk cs (fl_dir s) fs' = mem_image t" "fl_dir t = fl_dir s" "log_wf re (fl_log t)" for t
    using reopen_persisted [OF assms(6), of fs' t cs re] file_exec_dirs [OF assms(5,3)] that
    by (simp add: persisted_disk)
  have mix_image: "(Some (hard_of s'), Some (bt_values (fl_log s))) = mem_image (s'\<lparr>fl_log := fl_log s\<rparr>)"
    by (simp add: mem_image_def)
  show ?thesis
  proof (cases "r = Ok ()")
    case True
    then show ?thesis using reopen [OF dk(1) dir wf'] by blast
  next
    case False
    consider "disk cs (fl_dir s) fs' = mem_image s" | "disk cs (fl_dir s) fs' = mem_image s'"
      | "disk cs (fl_dir s) fs' = mem_image (s'\<lparr>fl_log := fl_log s\<rparr>)"
      using dk(2) mix_image by auto
    then show ?thesis
      using reopen [of s] reopen [of s'] reopen [of "s'\<lparr>fl_log := fl_log s\<rparr>"] mixed assms(4) wf' dir False
      by cases auto
  qed
qed

theorem file_flush_crash_atomic_witness:
  "\<exists>r s' fs' t. file_exec full_disk sample_re Debug sample_codecs (Append [(1, 1)]) sample_store sample_fs
      = (r, s', fs') \<and> file_open calm_os sample_re sample_codecs (fl_dir sample_store) fs' = (Ok t, fs') \<and>
    (t = sample_store \<or> t = s')"
proof -
  obtain r s' fs' where e: "file_exec full_disk sample_re Debug sample_codecs (Append [(1, 1)])
      sample_store sample_fs = (r, s', fs')" by (metis prod_cases3)
  from file_flush_crash_atomic [OF sample_codecs_ok sample_persisted sample_fs_dirs sample_log_wf e calm_os_healthy]
  show ?thesis using e by blast
qed


text \<open>
  C22. Conflict resolution. When a follower's log has no holes and covers the index of the
  log id it agrees on with the leader, truncating after that log id and appending the
  leader's consecutive entries gives, with any disk errors on the way, a log without holes
  that ends with the leader's entries: the old entries up to the agreed index, the new
  entries after it and nothing else; and a range read inside it returns one entry for
  every index of the range, in order.
\<close>

theorem file_conflict_resolution:
  assumes "file_invar re s" and "log_span (file_entries s) lo hi"
    and "lid_index i \<noteq> - 1" and "lo \<le> Suc (unat (lid_index i))" and "Suc (unat (lid_index i)) \<le> hi"
    and "run_from re (Suc (unat (lid_index i))) es"
    and "file_exec os1 re prof cs (TruncateAfter (Some i)) s fs = (r1, s1, fs1)" and "r1 \<noteq> Panicked"
    and "file_exec os2 re prof cs (Append es) s1 fs1 = (r2, s2, fs2)" and "r2 \<noteq> Panicked"
  shows "log_span (file_entries s2) lo (Suc (unat (lid_index i)) + length es) \<and>
    (\<forall>k. file_entries s2 k =
       (case find (\<lambda>e. entry_index re e = k) (rev es) of
          Some e \<Rightarrow> Some e | None \<Rightarrow> if k \<le> lid_index i then file_entries s k else None)) \<and>
    (\<forall>a b. lo \<le> unat a \<and> a \<le> b \<and> unat b \<le> Suc (unat (lid_index i)) + length es \<longrightarrow>
       (\<exists>out. file_try_get_log_entries (Included a, Excluded b) s2 = Some out \<and>
              map (\<lambda>e. unat (entry_index re e)) out = [unat a..<unat b]))"
proof -
  let ?c = "\<lambda>os fs. \<lparr>fx_re = re, fx_profile = prof, fx_os = os, fx_codecs = cs, fx_fs = fs\<rparr>"
  have t: "file_after (?c os1 fs) (TruncateAfter (Some i)) s = Some s1"
    by (rule file_exec_after [OF assms(7,8)])
  have a: "the (file_after (?c os2 fs1) (Append es) s1) = s2"
    using file_exec_after [OF assms(9,10)] by simp
  have inv: "file_invar (fx_re (?c os2 fs1)) s" using assms(1) by simp
  have span: "log_span (file_entries s2) lo (Suc (unat (lid_index i)) + length es)"
    using flog.replace_suffix_span [OF inv assms(2-5) t, of es] assms(6) a by simp
  moreover have "file_entries s2 k =
      (case find (\<lambda>e. entry_index re e = k) (rev es) of
         Some e \<Rightarrow> Some e | None \<Rightarrow> if k \<le> lid_index i then file_entries s k else None)" for k
    using flog.replace_suffix [OF inv assms(3) t, of es k] a by simp
  moreover have "file_invar re s1" using flog.truncate_law [OF assms(1) _ t] assms(3) by blast
  then have "file_invar re s2" using flog.invar_append [of "?c os2 fs1" s1 es] a by simp
  then have "lo \<le> unat a \<and> a \<le> b \<and> unat b \<le> Suc (unat (lid_index i)) + length es \<Longrightarrow>
      \<exists>out. file_try_get_log_entries (Included a, Excluded b) s2 = Some out \<and>
        map (\<lambda>e. unat (entry_index re e)) out = [unat a..<unat b]" for a b
    using flog.read_span [OF _ span] by blast
  ultimately show ?thesis by blast
qed

definition sample_log_store :: "(u64 \<times> u64, u64, u64) file_log_inner" where
  "sample_log_store = sample_store\<lparr>fl_log := [(1, (1, 1)), (2, (1, 2)), (3, (1, 3))]\<rparr>"

lemma sample_log_store_invar: "file_invar sample_re sample_log_store"
  by (simp add: file_invar_def mem_invar_def log_wf_def sample_log_store_def sample_re_def bt_wf_def)

lemma sample_log_store_span: "log_span (file_entries sample_log_store) 1 4"
proof -
  have "1 \<le> unat k \<and> unat k < 4 \<longleftrightarrow> k = 1 \<or> k = 2 \<or> k = 3" for k :: u64
    by (auto simp: word_unat_eq_iff)
  then show ?thesis
    by (simp add: log_span_def file_entries_def mem_entries_def sample_log_store_def bt_get_def)
qed

text \<open>The follower holds indices 1 to 3 of term 1 and agrees with a term 2 leader up to index 1.\<close>

theorem file_conflict_resolution_witness:
  "\<exists>r1 s1 fs1 r2 s2 fs2.
     file_exec full_disk sample_re Debug sample_codecs (TruncateAfter (Some (LogId 1 1))) sample_log_store sample_fs
       = (r1, s1, fs1) \<and>
     file_exec calm_os sample_re Debug sample_codecs (Append [(2, 2), (2, 3)]) s1 fs1 = (r2, s2, fs2) \<and>
     log_span (file_entries s2) 1 4 \<and> file_entries s2 1 = Some (1, 1) \<and> file_entries s2 3 = Some (2, 3)"
proof -
  obtain r1 s1 fs1 where e1: "file_exec full_disk sample_re Debug sample_codecs
      (TruncateAfter (Some (LogId 1 1))) sample_log_store sample_fs = (r1, s1, fs1)" by (metis prod_cases3)
  obtain r2 s2 fs2 where e2: "file_exec calm_os sample_re Debug sample_codecs (Append [(2, 2), (2, 3)]) s1 fs1
      = (r2, s2, fs2)" by (metis prod_cases3)
  have "mem_exec sample_re Debug (TruncateAfter (Some (LogId 1 1))) (file_abs sample_log_store) \<noteq> None"
    by (simp add: mem_truncate_after_def add_u64_one_Some)
  then have r1: "r1 \<noteq> Panicked"
    using file_exec_panic [OF sample_codecs_ok, of full_disk sample_re Debug _ sample_log_store sample_fs] e1
    by (metis fst_conv)
  have r2: "r2 \<noteq> Panicked"
    using file_exec_panic [OF sample_codecs_ok, of calm_os sample_re Debug "Append [(2, 2), (2, 3)]" s1 fs1] e2
    by (metis fst_conv mem_exec.simps(1) option.distinct(1))
  have run: "run_from sample_re (Suc (unat (lid_index (LogId 1 1 :: u64 log_id)))) [(2, 2), (2, 3)]"
    by (simp add: run_from_def sample_re_def upt_rec)
  have idx: "Suc (unat (lid_index (LogId 1 1 :: u64 log_id))) = 2" by simp
  note res = file_conflict_resolution [OF sample_log_store_invar sample_log_store_span _ _ _ run e1 r1 e2 r2,
      unfolded idx, simplified]
  have "log_span (file_entries s2) 1 4" using res [THEN conjunct1] by (simp add: eval_nat_numeral)
  moreover have "file_entries s2 1 = Some (1, 1)" "file_entries s2 3 = Some (2, 3)"
    using res [THEN conjunct2, THEN conjunct1, THEN spec, of 1] res [THEN conjunct2, THEN conjunct1, THEN spec, of 3]
    by (simp_all add: sample_re_def file_entries_def mem_entries_def sample_log_store_def bt_get_def)
  ultimately show ?thesis using e1 e2 by (intro exI conjI)
qed

text \<open>
  C23. Purging. A purge panics exactly when it would move the purge point backwards.
  Otherwise, with or without disk errors, the purge point becomes the given log id, the
  entries up to its index are gone and all others are kept, and the log state still
  reports a last log id: that of the highest entry left, or the purge point when none is.
\<close>

theorem file_purge_exact:
  assumes "log_codecs_ok cs" and "file_invar re s" and "file_purge os cs i s fs = (r, s', fs')"
  shows "(r = Panicked \<longleftrightarrow> Some i < fl_last_purged_log_id s) \<and>
    (r \<noteq> Panicked \<longrightarrow> fl_last_purged_log_id s' = Some i \<and>
       (\<forall>k. file_entries s' k = (if k \<le> lid_index i then None else file_entries s k)) \<and>
       (case lst_last_log_id (file_get_log_state re s') of
          None \<Rightarrow> False
        | Some l \<Rightarrow> (\<exists>k e. file_entries s' k = Some e \<and> entry_log_id re e = l \<and>
                        (\<forall>j. file_entries s' j \<noteq> None \<longrightarrow> j \<le> k)) \<or>
                   ((\<forall>k. file_entries s' k = None) \<and> l = i)))"
proof -
  have e: "file_exec os re Debug cs (Purge i) s fs = (r, s', fs')" using assms(3) by simp
  have pan: "r = Panicked \<longleftrightarrow> Some i < fl_last_purged_log_id s"
    using file_exec_panic [OF assms(1), of os re Debug "Purge i" s fs] assms(3)
    by (simp add: mem_purge_def Let_def linorder_not_le)
  show ?thesis
  proof (cases "r = Panicked")
    case True
    with pan show ?thesis by simp
  next
    case False
    have law: "file_invar re s'" "fl_last_purged_log_id s' = Some i"
      "file_entries s' k = (if k \<le> lid_index i then None else file_entries s k)" for k
      using flog.purge_law [OF assms(2) file_exec_after [OF e False], of k] by simp_all
    have "file_get_log_state re s' = mem_get_log_state re (file_abs s')"
      by (simp add: file_get_log_state_def mem_get_log_state_def)
    then have "case lst_last_log_id (file_get_log_state re s') of
        None \<Rightarrow> False
      | Some l \<Rightarrow> (\<exists>k e. file_entries s' k = Some e \<and> entry_log_id re e = l \<and>
                      (\<forall>j. file_entries s' j \<noteq> None \<longrightarrow> j \<le> k)) \<or>
                 ((\<forall>k. file_entries s' k = None) \<and> l = i)"
      using mem_last_log_id [of re "file_abs s'"] law(1,2)
      by (auto simp: file_invar_def file_entries_def split: option.splits)
    with False pan law show ?thesis by simp
  qed
qed

theorem file_purge_exact_witness:
  "\<exists>r s' fs'. file_purge full_disk sample_codecs (LogId 1 2) sample_log_store sample_fs = (r, s', fs') \<and>
    r \<noteq> Panicked \<and> fl_last_purged_log_id s' = Some (LogId 1 2) \<and>
    file_entries s' 2 = None \<and> file_entries s' 3 = Some (1, 3)"
proof -
  obtain r s' fs' where e: "file_purge full_disk sample_codecs (LogId 1 2) sample_log_store sample_fs = (r, s', fs')"
    by (metis prod_cases3)
  note ex = file_purge_exact [OF sample_codecs_ok sample_log_store_invar e]
  have r: "r \<noteq> Panicked" using ex [THEN conjunct1] by (simp add: sample_log_store_def sample_store_def)
  note ok = ex [THEN conjunct2, rule_format, OF r]
  have "fl_last_purged_log_id s' = Some (LogId 1 2)" using ok [THEN conjunct1] .
  moreover have "file_entries s' 2 = None" "file_entries s' 3 = Some (1, 3)"
    using ok [THEN conjunct2, THEN conjunct1, THEN spec, of 2] ok [THEN conjunct2, THEN conjunct1, THEN spec, of 3]
    by (simp_all add: file_entries_def mem_entries_def sample_log_store_def bt_get_def)
  ultimately show ?thesis using e r by (intro exI conjI)
qed

text \<open>The rename of \<^verbatim>\<open>log.json\<close> fails (or the process dies before it) and nothing else does.\<close>

definition log_rename_fails :: "path \<Rightarrow> os" where
  "log_rename_fails dir = calm_os\<lparr>os_fault := (\<lambda>q.
     if q = OpRename (dir @ [''log.json.tmp'']) (dir @ [log_file]) then Some (IoError OtherKind ''rename'') else None)\<rparr>"

lemma persist_hard_calm: "persist_hard_state (log_rename_fails (fl_dir s)) cs s fs = persist_hard_state calm_os cs s fs"
  by (simp add: persist_hard_state_def atomic_write_json_def Let_def tmp_hard fs_write_def fs_rename_def
      io_bind_def log_rename_fails_def calm_os_def split: outcome.split)

lemma persist_log_rename_fails:
  assumes "log_codecs_ok cs" "store_files_ok fs (fl_dir s)"
  shows "\<exists>e fs'. persist_log (log_rename_fails (fl_dir s)) cs s fs = (Err e, fs')"
proof -
  have "codec_ok (lc_log cs)" using assms(1) by (simp add: log_codecs_ok_def)
  then obtain b where "to_vec (lc_log cs) (bt_values (fl_log s)) = Ok b" by (rule codec_okE)
  with assms(2) show ?thesis
    by (simp add: persist_log_def atomic_write_json_def Let_def tmp_log fs_write_def fs_rename_def
        io_bind_def log_rename_fails_def calm_os_def store_files_ok_def)
qed

text \<open>
  C24. An interrupted purge. If a purge goes past the last entry of the log (as after
  installing a snapshot from a leader) and the process stops after the hard state and
  before the log reached its file, the reopened store reports a last log id that is
  smaller than its last purged log id, and still holds the purged entries.
\<close>

theorem file_purge_crash_stale:
  assumes "log_codecs_ok cs" and "persisted cs s fs" and "dirs_exist fs (fl_dir s)"
    and "store_files_ok fs (fl_dir s)" and "log_wf re (fl_log s)"
    and "fl_last_purged_log_id s \<le> Some i" and "bt_next_back (fl_log s) = Some (k, ent)"
    and "entry_log_id re ent < i"
  shows "\<exists>e s' fs' t. file_purge (log_rename_fails (fl_dir s)) cs i s fs = (Err e, s', fs') \<and>
    file_open calm_os re cs (fl_dir s) fs' = (Ok t, fs') \<and> fl_log t = fl_log s \<and>
    lst_last_purged_log_id (file_get_log_state re t) = Some i \<and>
    lst_last_log_id (file_get_log_state re t) = Some (entry_log_id re ent) \<and>
    lst_last_log_id (file_get_log_state re t) < lst_last_purged_log_id (file_get_log_state re t)"
proof -
  let ?os = "log_rename_fails (fl_dir s)"
  define s' where "s' = s\<lparr>fl_last_purged_log_id := Some i,
    fl_log := fold bt_remove (map fst (bt_select (Unbounded, Included (lid_index i)) (fl_log s))) (fl_log s)\<rparr>"
  have dir: "fl_dir s' = fl_dir s" by (simp add: s'_def)
  obtain fs1 where h: "persist_hard_state ?os cs s' fs = (Ok (), fs1)" and fs1: "store_files_ok fs1 (fl_dir s)"
    using persist_succeeds(1) [OF assms(1) calm_os_healthy, of fs s'] assms(4) persist_hard_calm [of s' cs fs] dir
    by auto
  obtain e fs2 where l: "persist_log ?os cs s' fs1 = (Err e, fs2)"
    using persist_log_rename_fails [OF assms(1), of fs1 s'] fs1 dir by auto
  have p: "file_purge ?os cs i s fs = (Err e, s', fs2)"
    using h l assms(6) by (simp add: file_purge_def Let_def flushed_def persist_all_def s'_def [symmetric])
  let ?t = "s\<lparr>fl_last_purged_log_id := Some i\<rparr>"
  have "disk cs (fl_dir s) fs2 = mem_image ?t"
    using persist_hard_disk [OF assms(1) h] persist_log_disk [OF assms(1) l] assms(2) dir
    by (auto simp: persisted_disk mem_image_def prod_eq_iff s'_def hard_of_def)
  moreover have "dirs_exist fs2 (fl_dir s)"
    using file_exec_dirs [of ?os re Debug cs "Purge i" s fs] p assms(3) by simp
  ultimately have open_t: "file_open calm_os re cs (fl_dir s) fs2 = (Ok ?t, fs2)"
    using reopen_persisted [OF calm_os_healthy, of fs2 ?t cs re] assms(5) by (simp add: persisted_disk)
  have last: "lst_last_log_id (file_get_log_state re ?t) = Some (entry_log_id re ent)"
    and purged: "lst_last_purged_log_id (file_get_log_state re ?t) = Some i"
    using assms(7) by (simp_all add: file_get_log_state_def Let_def)
  have "lst_last_log_id (file_get_log_state re ?t) < lst_last_purged_log_id (file_get_log_state re ?t)"
    unfolding last purged using assms(8) by simp
  with p open_t last purged show ?thesis by (intro exI conjI) (assumption | simp)+
qed

lemma sample_log_store_files:
  "\<exists>fs. persisted sample_codecs sample_log_store fs \<and> dirs_exist fs (fl_dir sample_log_store) \<and>
     store_files_ok fs (fl_dir sample_log_store)"
proof -
  let ?a = "Append [(1, 1), (1, 2), (1, 3)] :: (u64 \<times> u64, u64, u64) log_op"
  obtain s' fs' where e: "file_exec calm_os sample_re Debug sample_codecs ?a sample_store sample_fs = (Ok (), s', fs')"
    and files: "store_files_ok fs' (fl_dir s')"
    using file_exec_succeeds [OF sample_codecs_ok calm_os_healthy sample_store_files_ok, of sample_re Debug ?a] by auto
  have s': "s' = sample_log_store"
    using e by (auto simp: file_append_def Let_def flushed_eq sample_log_store_def sample_store_def sample_re_def
        bt_insert_def)
  have "disk sample_codecs (fl_dir sample_store) fs' = mem_image s'"
    using file_exec_disk(1) [OF sample_codecs_ok _ e] sample_persisted by (simp add: persisted_disk)
  moreover have "dirs_exist fs' (fl_dir sample_store)" by (rule file_exec_dirs [OF e sample_fs_dirs])
  ultimately show ?thesis
    using files file_exec_dir [OF e] unfolding s' persisted_disk by auto
qed

theorem file_purge_crash_stale_witness:
  "\<exists>fs e s' fs' t. file_purge (log_rename_fails sample_dir) sample_codecs (LogId 2 10) sample_log_store fs
      = (Err e, s', fs') \<and>
    file_open calm_os sample_re sample_codecs sample_dir fs' = (Ok t, fs') \<and>
    lst_last_log_id (file_get_log_state sample_re t) = Some (LogId 1 3) \<and>
    lst_last_purged_log_id (file_get_log_state sample_re t) = Some (LogId 2 10)"
proof -
  have dir: "fl_dir sample_log_store = sample_dir" by (simp add: sample_log_store_def sample_store_def)
  have wf: "log_wf sample_re (fl_log sample_log_store)"
    using sample_log_store_invar by (simp add: file_invar_def mem_invar_def)
  have last: "bt_next_back (fl_log sample_log_store) = Some (3, (1, 3))"
    by (simp add: sample_log_store_def bt_next_back_def)
  have le: "fl_last_purged_log_id sample_log_store \<le> Some (LogId 2 10)"
    by (simp add: sample_log_store_def sample_store_def)
  have lt: "entry_log_id sample_re (1, 3) < LogId 2 10" by (simp add: sample_re_def less_log_id_def)
  obtain fs where "persisted sample_codecs sample_log_store fs" "dirs_exist fs (fl_dir sample_log_store)"
    "store_files_ok fs (fl_dir sample_log_store)" using sample_log_store_files by blast
  note stale = file_purge_crash_stale [OF sample_codecs_ok this wf le last lt]
  have "entry_log_id sample_re (1, 3) = LogId 1 3" by (simp add: sample_re_def)
  with stale obtain e s' fs' t where
    "file_purge (log_rename_fails sample_dir) sample_codecs (LogId 2 10) sample_log_store fs = (Err e, s', fs')"
    "file_open calm_os sample_re sample_codecs sample_dir fs' = (Ok t, fs')"
    "lst_last_log_id (file_get_log_state sample_re t) = Some (LogId 1 3)"
    "lst_last_purged_log_id (file_get_log_state sample_re t) = Some (LogId 2 10)"
    unfolding dir by auto
  then show ?thesis by (intro exI conjI)
qed

text \<open>
  A damaged file is never taken for an empty or shorter log: opening a directory whose
  hard state or log does not decode reports \<open>InvalidData\<close> with the decoder's message
  and leaves the files as they are.
\<close>

theorem file_open_rejects_corrupt:
  assumes "os_healthy os" and "dirs_exist fs dir"
    and "node_at fs (dir @ [hard_state_file]) = Some (File b) \<and> from_slice (lc_hard cs) b = Err m \<or>
         on_disk_hard cs dir fs \<noteq> None \<and>
         node_at fs (dir @ [log_file]) = Some (File b) \<and> from_slice (lc_log cs) b = Err m"
  shows "file_open os re cs dir fs = (Err (IoError InvalidData m), fs)"
  using assms(3)
proof
  assume "node_at fs (dir @ [hard_state_file]) = Some (File b) \<and> from_slice (lc_hard cs) b = Err m"
  then have "load_hard_state os cs dir fs = (Err (IoError InvalidData m), fs)"
    using assms(1) by (simp add: load_hard_state_def Let_def path_exists_def io_bind_def fs_read_def parse_json_def)
  then show ?thesis by (simp add: file_open_def create_existing_dir [OF assms(1,2)])
next
  assume l: "on_disk_hard cs dir fs \<noteq> None \<and>
    node_at fs (dir @ [log_file]) = Some (File b) \<and> from_slice (lc_log cs) b = Err m"
  then obtain h where "load_hard_state os cs dir fs = (Ok h, fs)"
    using load_hard_state_ok [OF assms(1)] by blast
  moreover have "load_log os re cs dir fs = (Err (IoError InvalidData m), fs)"
    using l assms(1) by (simp add: load_log_def Let_def path_exists_def io_bind_def fs_read_def parse_json_def)
  ultimately show ?thesis by (simp add: file_open_def create_existing_dir [OF assms(1,2)])
qed

theorem file_open_rejects_corrupt_witness:
  "file_open calm_os sample_re sample_codecs sample_dir ((sample_dir @ [log_file], File []) # sample_fs) =
   (Err (IoError InvalidData ''invalid''), (sample_dir @ [log_file], File []) # sample_fs)"
proof (rule file_open_rejects_corrupt)
  let ?fs = "(sample_dir @ [log_file], File []) # sample_fs"
  show "dirs_exist ?fs sample_dir"
    by (auto simp: dirs_exist_def sample_fs_def sample_dir_def node_at_def prefix_Cons)
  have "on_disk_hard sample_codecs sample_dir ?fs \<noteq> None"
    by (simp add: on_disk_hard_def on_disk_def node_at_def sample_fs_def sample_dir_def log_file_def
        hard_state_file_def)
  moreover have "from_slice (lc_log sample_codecs) [] = Err ''invalid''"
    by (simp add: sample_codecs_def codec_of_def list_pickler_def)
  ultimately show "node_at ?fs (sample_dir @ [hard_state_file]) = Some (File []) \<and>
      from_slice (lc_hard sample_codecs) [] = Err ''invalid'' \<or>
    on_disk_hard sample_codecs sample_dir ?fs \<noteq> None \<and>
      node_at ?fs (sample_dir @ [log_file]) = Some (File []) \<and>
      from_slice (lc_log sample_codecs) [] = Err ''invalid''"
    by (simp add: node_at_def)
qed simp

end
