(* ===== verification/Log_Handles.thy ===== *)
theory Log_Handles
  imports Log_Props
begin

section \<open>Shared handles on a log store\<close>

text \<open>
  openraft holds several handles on one store: the storage itself and the readers it gets
  from \<^verbatim>\<open>get_log_reader\<close>. A handle is a clone of the \<^verbatim>\<open>Arc<Mutex<..>>\<close>, and
  every method of the traits \<^verbatim>\<open>RaftLogReader\<close> and \<^verbatim>\<open>RaftLogStorage\<close> is one
  call of the inner store while the lock is held (\<^verbatim>\<open>mod impl_log_store\<close> of
  \<^verbatim>\<open>log_file.rs\<close> and of \<^verbatim>\<open>log_mem.rs\<close>). So a run of any number of handles is
  a sequence of calls on the one inner store, each tagged with its handle. The lock is not
  poisoned: a call after one that panicked is served.
\<close>

datatype ('e, 'l, 'v) log_call =
    Mutate "('e, 'l, 'v) log_op"
  | TryGetLogEntries "u64 range_bounds" | ReadVote | GetLogState | ReadCommitted

datatype ('e, 'l, 'v) log_answer =
    Done "(io_error, unit) outcome" | Entries "'e list option" | VoteIs "'v option"
  | StateIs "'l log_state" | CommittedIs "'l log_id option"

fun mem_call ::
  "('e, 'l::linorder) raft_entry \<Rightarrow> profile \<Rightarrow> ('e, 'l, 'v) log_call \<Rightarrow> ('e, 'l, 'v) log_store_inner \<Rightarrow>
   ('e, 'l, 'v) log_answer \<times> ('e, 'l, 'v) log_store_inner" where
  "mem_call re prof (Mutate op) s =
     (case mem_exec re prof op s of Some s' \<Rightarrow> (Done (Ok ()), s') | None \<Rightarrow> (Done Panicked, s))"
| "mem_call re prof (TryGetLogEntries rb) s = (Entries (mem_try_get_log_entries rb s), s)"
| "mem_call re prof ReadVote s = (VoteIs (mem_read_vote s), s)"
| "mem_call re prof GetLogState s = (StateIs (mem_get_log_state re s), s)"
| "mem_call re prof ReadCommitted s = (CommittedIs (mem_read_committed s), s)"

fun file_call ::
  "os \<Rightarrow> ('e, 'l::linorder) raft_entry \<Rightarrow> profile \<Rightarrow> ('e, 'l, 'v) log_codecs \<Rightarrow> ('e, 'l, 'v) log_call \<Rightarrow>
   ('e, 'l, 'v) file_log_inner \<Rightarrow> fs \<Rightarrow> ('e, 'l, 'v) log_answer \<times> ('e, 'l, 'v) file_log_inner \<times> fs" where
  "file_call os re prof cs (Mutate op) s fs =
     (case file_exec os re prof cs op s fs of (r, s', fs') \<Rightarrow> (Done r, s', fs'))"
| "file_call os re prof cs (TryGetLogEntries rb) s fs = (Entries (file_try_get_log_entries rb s), s, fs)"
| "file_call os re prof cs ReadVote s fs = (VoteIs (file_read_vote s), s, fs)"
| "file_call os re prof cs GetLogState s fs = (StateIs (file_get_log_state re s), s, fs)"
| "file_call os re prof cs ReadCommitted s fs = (CommittedIs (file_read_committed s), s, fs)"

text \<open>A call of a handle; on disk it runs in an environment of its own.\<close>

fun mem_handle ::
  "('e, 'l::linorder) raft_entry \<times> profile \<times> ('e, 'l, 'v) log_codecs \<Rightarrow> 'h \<times> ('e, 'l, 'v) log_call \<Rightarrow>
   ('e, 'l, 'v) log_store_inner \<Rightarrow> ('h \<times> ('e, 'l, 'v) log_answer) \<times> ('e, 'l, 'v) log_store_inner" where
  "mem_handle (re, prof, cs) (h, c) s = (case mem_call re prof c s of (a, s') \<Rightarrow> ((h, a), s'))"

fun file_handle ::
  "('e, 'l::linorder) raft_entry \<times> profile \<times> ('e, 'l, 'v) log_codecs \<Rightarrow> 'h \<times> os \<times> ('e, 'l, 'v) log_call \<Rightarrow>
   ('e, 'l, 'v) file_log_inner \<times> fs \<Rightarrow> ('h \<times> ('e, 'l, 'v) log_answer) \<times> ('e, 'l, 'v) file_log_inner \<times> fs" where
  "file_handle (re, prof, cs) (h, os, c) (s, fs) =
     (case file_call os re prof cs c s fs of (a, s', fs') \<Rightarrow> ((h, a), s', fs'))"

text \<open>An answer of the file store agrees with one of the memory store up to an error of the flush.\<close>

definition answer_agrees ::
  "('h \<times> ('e, 'l, 'v) log_answer) \<Rightarrow> ('h \<times> ('e, 'l, 'v) log_answer) \<Rightarrow> bool" where
  "answer_agrees a b \<longleftrightarrow> a = b \<or> fst a = fst b \<and> snd b = Done (Ok ()) \<and> (\<exists>e. snd a = Done (Err e))"

lemmas file_reads_abs =
  file_try_get_log_entries_def file_get_log_state_def file_read_vote_def file_read_committed_def
  mem_try_get_log_entries_def mem_get_log_state_def mem_read_vote_def mem_read_committed_def

lemma file_exec_agrees:
  assumes "log_codecs_ok cs" "file_exec os re prof cs op s fs = (r, s', fs')"
  shows "case mem_exec re prof op (file_abs s) of Some t \<Rightarrow> t = file_abs s' \<and> r \<noteq> Panicked | None \<Rightarrow> r = Panicked \<and> s' = s"
  using file_exec_panic [OF assms(1), of os re prof op s fs] assms(2)
    file_exec_refines [where re = re and prof = prof and op = op and s = s and os = os and cs = cs and fs = fs]
  by (auto split: option.splits)

lemma file_call_agrees:
  assumes "log_codecs_ok cs" "file_call os re prof cs c s fs = (a, s', fs')"
  shows "\<exists>b. mem_call re prof c (file_abs s) = (b, file_abs s') \<and> answer_agrees (h, a) (h, b)"
proof (cases c)
  case (Mutate op)
  obtain r where e: "file_exec os re prof cs op s fs = (r, s', fs')" "a = Done r"
    using assms(2) Mutate by (auto split: prod.splits)
  then show ?thesis using file_exec_agrees [OF assms(1) e(1)] Mutate
    by (cases r) (auto simp: answer_agrees_def split: option.splits)
qed (use assms(2) in \<open>auto simp: answer_agrees_def file_reads_abs\<close>)

interpretation handles: call_simulation "\<lambda>(re, prof, cs). log_codecs_ok cs" file_handle mem_handle
  "\<lambda>(h, os, c). (h, c)" "\<lambda>_ (s, fs). file_abs s" "\<lambda>_. answer_agrees" "\<lambda>_ _. True"
proof
  fix ctx :: "('e, 'l::linorder) raft_entry \<times> profile \<times> ('e, 'l, 'v) log_codecs"
    and i :: "'h \<times> os \<times> ('e, 'l, 'v) log_call" and s a s'
  assume ok: "case ctx of (re, prof, cs) \<Rightarrow> log_codecs_ok cs" and c: "file_handle ctx i s = (a, s')"
  obtain re prof cs h os c where d: "ctx = (re, prof, cs)" "i = (h, os, c)" by (metis prod_cases3)
  with c obtain b where f: "file_call os re prof cs c (fst s) (snd s) = (b, s')" "a = (h, b)"
    by (cases s) (auto split: prod.splits)
  have "log_codecs_ok cs" using ok d by simp
  from file_call_agrees [OF this, of os re prof c "fst s" "snd s" b "fst s'" "snd s'" h] f
  obtain b' where "mem_call re prof c (file_abs (fst s)) = (b', file_abs (fst s'))" "answer_agrees (h, b) (h, b')" by auto
  then show "True \<and> (\<exists>b. mem_handle ctx (case i of (h, os, c) \<Rightarrow> (h, c)) (case s of (s, fs) \<Rightarrow> file_abs s) =
      (b, case s' of (s, fs) \<Rightarrow> file_abs s) \<and> answer_agrees a b)"
    using d f(2) by (simp add: case_prod_beta)
qed

text \<open>
  C5. A node cannot tell its log stores apart. Any number of handles make any calls, in
  any interleaving, on a file store; the operating system may fail any of them. The memory
  store, behind the same handles and with the same calls, gives the same answers call by
  call, except that a mutating call of the file store may report the error of its flush
  where the memory store reports success; and both end with the same contents. In
  particular, a failed flush never makes a later read differ.
\<close>

theorem log_handles_agree:
  assumes "log_codecs_ok cs" "run_calls (file_handle (re, prof, cs)) calls (s, fs) = (as, s', fs')"
  shows "\<exists>bs. run_calls (mem_handle (re, prof, cs)) (map (\<lambda>(h, os, c). (h, c)) calls) (file_abs s) = (bs, file_abs s') \<and>
    list_all2 answer_agrees as bs"
  using handles.runs_agree [of "(re, prof, cs)" calls "(s, fs)" as "(s', fs')"] assms by simp

theorem log_handles_agree_witness:
  "\<exists>as s' fs' bs. run_calls (file_handle (sample_re, Debug, sample_codecs))
       [(1 :: nat, full_disk, Mutate (Append [(1, 1), (1, 2)])), (2, calm_os, TryGetLogEntries (Unbounded, Unbounded))]
       (sample_store, sample_fs) = (as, s', fs') \<and>
     run_calls (mem_handle (sample_re, Debug, sample_codecs))
       [(1, Mutate (Append [(1, 1), (1, 2)])), (2, TryGetLogEntries (Unbounded, Unbounded))]
       (file_abs sample_store) = (bs, file_abs s') \<and>
     list_all2 answer_agrees as bs \<and> snd (hd bs) = Done (Ok ())"
proof -
  let ?calls = "[(1 :: nat, full_disk, Mutate (Append [(1, 1), (1, 2)])), (2, calm_os, TryGetLogEntries (Unbounded, Unbounded))]"
    and ?ctx = "(sample_re, Debug, sample_codecs)"
  obtain as s' fs' where r: "run_calls (file_handle ?ctx) ?calls (sample_store, sample_fs) = (as, s', fs')"
    by (metis prod_cases3)
  obtain bs where bs: "run_calls (mem_handle ?ctx) (map (\<lambda>(h, os, c). (h, c)) ?calls) (file_abs sample_store) = (bs, file_abs s')"
    "list_all2 answer_agrees as bs"
    using log_handles_agree [OF sample_codecs_ok r] by blast
  have "fst (mem_call sample_re Debug (Mutate (Append [(1, 1), (1, 2)])) t) = Done (Ok ())"
    for t :: "(u64 \<times> u64, u64, u64) log_store_inner" by simp
  with bs(1) have "snd (hd bs) = Done (Ok ())"
    by (auto simp del: mem_call.simps mem_exec.simps split: prod.splits) (metis fst_conv)
  with r bs show ?thesis by (intro exI conjI) (assumption | simp only: list.map prod.case)+
qed

end
