(* ===== verification/Snapshot_Catalog.thy ===== *)
theory Snapshot_Catalog
  imports Core_Types Std_Fs Serde "HOL-Library.Product_Lexorder"
begin

section \<open>multiraft-store: the durable snapshot catalog\<close>

text \<open>
  \<^verbatim>\<open>crates/multiraft-store/src/snapshot_catalog.rs\<close>: snapshots of a group are
  directories \<^verbatim>\<open>{root}/{group}/{index}-{term}/\<close> with the data, a JSON
  description and a checksum. SHA-256 and the JSON encoder are third-party code and
  parameters (\<open>catalog_env\<close>). The abstract catalog is a finite map from (index,
  term) to the snapshot id and the data; a write is an insertion followed by keeping the
  newest \<^verbatim>\<open>keep\<close> keys.
\<close>

record catalog_entry =
  ce_group :: group_id
  ce_last_index :: u64
  ce_last_term :: u64
  ce_snapshot_id :: string
  ce_size :: u64
  ce_sha256_hex :: string
  ce_dir :: path

record meta_file =
  mf_group :: group_id
  mf_last_index :: u64
  mf_last_term :: u64
  mf_snapshot_id :: string
  mf_size :: u64
  mf_sha256_hex :: string

record snapshot_catalog =
  sc_root :: path
  sc_keep :: u64

record catalog_env =
  cat_digest :: "bytes \<Rightarrow> bytes"
  cat_meta :: "meta_file codec"

definition catalog_new :: "path \<Rightarrow> u64 \<Rightarrow> snapshot_catalog" where
  "catalog_new root keep = \<lparr>sc_root = root, sc_keep = max keep 1\<rparr>"

definition hex_digit :: "nat \<Rightarrow> char" where
  "hex_digit d = (if d < 10 then char_of (48 + d) else char_of (87 + d))"

definition hex_sha256 :: "catalog_env \<Rightarrow> bytes \<Rightarrow> string" where
  "hex_sha256 env data =
     concat (map (\<lambda>b. [hex_digit (unat b div 16), hex_digit (unat b mod 16)]) (cat_digest env data))"

definition write_fsync :: "os \<Rightarrow> path \<Rightarrow> bytes \<Rightarrow> unit io" where
  "write_fsync os p data = io_bind (fs_write os p data) (\<lambda>_. fs_sync os p)"

definition fsync_dir :: "os \<Rightarrow> path \<Rightarrow> unit io" where
  "fsync_dir os p = io_bind (fs_open os p) (\<lambda>_. fs_sync os p)"

definition group_dir :: "snapshot_catalog \<Rightarrow> group_id \<Rightarrow> path" where
  "group_dir cat g = sc_root cat @ [show_u64 g]"

definition entry_name :: "u64 \<Rightarrow> u64 \<Rightarrow> string" where
  "entry_name i t = show_u64 i @ ''-'' @ show_u64 t"

subsection \<open>Reading\<close>

definition entry_of_meta :: "path \<Rightarrow> meta_file \<Rightarrow> catalog_entry" where
  "entry_of_meta dir m =
     \<lparr>ce_group = mf_group m, ce_last_index = mf_last_index m, ce_last_term = mf_last_term m,
      ce_snapshot_id = mf_snapshot_id m, ce_size = mf_size m, ce_sha256_hex = mf_sha256_hex m,
      ce_dir = dir\<rparr>"

text \<open>The loop of \<^verbatim>\<open>list\<close> over the directory entries that \<^verbatim>\<open>read_dir\<close> yields.\<close>

fun list_loop ::
  "os \<Rightarrow> catalog_env \<Rightarrow> path \<Rightarrow> string list \<Rightarrow> catalog_entry list \<Rightarrow> catalog_entry list io" where
  "list_loop os env gd [] out fs = (Ok out, fs)"
| "list_loop os env gd (n # ns) out fs =
     (case os_fault os (OpDirEnt (gd @ [n])) of
        Some e \<Rightarrow> (Err e, fs)
      | None \<Rightarrow>
          let dir = gd @ [n]; meta_path = dir @ [''meta.json''] in
          if node_at fs dir \<noteq> Some Dir then list_loop os env gd ns out fs
          else if \<not> path_exists os meta_path fs then list_loop os env gd ns out fs
          else (case fs_read os meta_path fs of
                  (Err e, fs') \<Rightarrow> (Err e, fs')
                | (Panicked, fs') \<Rightarrow> (Panicked, fs')
                | (Ok b, fs') \<Rightarrow>
                    (case from_slice (cat_meta env) b of
                       Err e \<Rightarrow> (Err (IoError InvalidData e), fs')
                     | Panicked \<Rightarrow> (Panicked, fs')
                     | Ok m \<Rightarrow> list_loop os env gd ns (out @ [entry_of_meta dir m]) fs')))"

definition catalog_list :: "os \<Rightarrow> catalog_env \<Rightarrow> snapshot_catalog \<Rightarrow> group_id \<Rightarrow> catalog_entry list io" where
  "catalog_list os env cat g fs =
     (let gd = group_dir cat g
      in if \<not> path_exists os gd fs then (Ok [], fs)
         else io_bind (fs_read_dir os gd) (\<lambda>names. list_loop os env gd names []) fs)"

definition entry_key :: "catalog_entry \<Rightarrow> u64 \<times> u64" where
  "entry_key e = (ce_last_index e, ce_last_term e)"

text \<open>A stable sort by descending key, of which the first element is taken.\<close>

definition catalog_latest ::
  "os \<Rightarrow> catalog_env \<Rightarrow> snapshot_catalog \<Rightarrow> group_id \<Rightarrow> catalog_entry option io" where
  "catalog_latest os env cat g =
     io_bind (catalog_list os env cat g) (\<lambda>entries.
       io_return (case rev (sort_key entry_key (rev entries)) of [] \<Rightarrow> None | e # _ \<Rightarrow> Some e))"

definition catalog_find ::
  "os \<Rightarrow> catalog_env \<Rightarrow> snapshot_catalog \<Rightarrow> group_id \<Rightarrow> string \<Rightarrow> catalog_entry option io" where
  "catalog_find os env cat g sid =
     io_bind (catalog_list os env cat g) (\<lambda>entries.
       io_return (find (\<lambda>e. ce_snapshot_id e = sid \<or> (ce_dir e \<noteq> [] \<and> last (ce_dir e) = sid)) entries))"

definition catalog_read ::
  "os \<Rightarrow> catalog_env \<Rightarrow> snapshot_catalog \<Rightarrow> group_id \<Rightarrow> string \<Rightarrow> bytes option io" where
  "catalog_read os env cat g sid =
     io_bind (catalog_find os env cat g sid) (\<lambda>found.
       case found of
         None \<Rightarrow> io_return None
       | Some entry \<Rightarrow>
           io_bind (fs_read os (ce_dir entry @ [''data.bin''])) (\<lambda>data.
             let actual = hex_sha256 env data in
             if actual \<noteq> ce_sha256_hex entry then
               io_throw (IoError InvalidData
                 (''snapshot sha256 mismatch: expected '' @ ce_sha256_hex entry @ '', got '' @ actual))
             else io_return (Some data)))"

subsection \<open>Writing\<close>

text \<open>Removal errors are ignored.\<close>

fun prune_loop :: "os \<Rightarrow> catalog_entry list \<Rightarrow> unit io" where
  "prune_loop os [] fs = (Ok (), fs)"
| "prune_loop os (e # es) fs = prune_loop os es (snd (fs_remove_dir_all os (ce_dir e) fs))"

definition catalog_prune :: "os \<Rightarrow> catalog_env \<Rightarrow> snapshot_catalog \<Rightarrow> group_id \<Rightarrow> unit io" where
  "catalog_prune os env cat g =
     io_bind (catalog_list os env cat g) (\<lambda>entries.
       if length entries \<le> unat (sc_keep cat) then io_return ()
       else prune_loop os (take (length entries - unat (sc_keep cat)) (sort_key entry_key entries)))"

definition catalog_write ::
  "os \<Rightarrow> catalog_env \<Rightarrow> snapshot_catalog \<Rightarrow> group_id \<Rightarrow> u64 \<Rightarrow> u64 \<Rightarrow> string \<Rightarrow> bytes \<Rightarrow> catalog_entry io" where
  "catalog_write os env cat g last_index last_term snapshot_id data =
     (let dir = group_dir cat g @ [entry_name last_index last_term];
          sha256_hex = hex_sha256 env data;
          meta = \<lparr>mf_group = g, mf_last_index = last_index, mf_last_term = last_term,
                  mf_snapshot_id = snapshot_id, mf_size = of_nat (length data), mf_sha256_hex = sha256_hex\<rparr>
      in io_bind (fs_create_dir_all os dir) (\<lambda>_.
         io_bind (write_fsync os (dir @ [''data.bin'']) data) (\<lambda>_.
           case to_vec (cat_meta env) meta of
             Err e \<Rightarrow> io_throw (IoError OtherKind e)
           | Panicked \<Rightarrow> (\<lambda>fs. (Panicked, fs))
           | Ok meta_bytes \<Rightarrow>
               io_bind (write_fsync os (dir @ [''meta.json'']) meta_bytes) (\<lambda>_.
               io_bind (write_fsync os (dir @ [''sha256'']) (str_bytes (sha256_hex @ ''\<newline>''))) (\<lambda>_.
               io_bind (fsync_dir os dir) (\<lambda>_.
               io_bind (catalog_prune os env cat g) (\<lambda>_.
                 io_return (entry_of_meta dir meta))))))))"

lemma entry_name_inj [simp]: "entry_name i t = entry_name j u \<longleftrightarrow> i = j \<and> t = u"
  by (simp add: entry_name_def append_sep_inj)

end
