(* ===== verification/Catalog_Spec.thy ===== *)
theory Catalog_Spec
  imports Snapshot_Catalog
begin

section \<open>The catalog as a map, and its refinement\<close>

text \<open>
  The abstract catalog of a group maps (index, term) to the snapshot id and data. The
  concrete directory is related to it by \<open>catalog_map\<close> under the well-formedness
  \<open>catalog_ok\<close>; a successful write implements \<open>spec_write\<close>, \<^verbatim>\<open>latest\<close>
  the maximum of the domain, and \<^verbatim>\<open>read\<close> a lookup by id or by directory name.
\<close>

subsection \<open>The specification\<close>

text \<open>The \<open>k\<close> largest elements of a finite set: those with fewer than \<open>k\<close> larger ones.\<close>

definition top_keys :: "nat \<Rightarrow> 'k::linorder set \<Rightarrow> 'k set" where
  "top_keys k K = {x \<in> K. card {y \<in> K. x < y} < k}"

definition spec_write ::
  "nat \<Rightarrow> 'k::linorder \<Rightarrow> 'v \<Rightarrow> ('k \<rightharpoonup> 'v) \<Rightarrow> ('k \<rightharpoonup> 'v)" where
  "spec_write k key v m = (let m' = m(key \<mapsto> v) in m' |` top_keys k (dom m'))"

lemma top_keys_sorted:
  assumes "sorted_wrt (<) ks" "k \<le> length ks"
  shows "top_keys k (set ks) = set (drop (length ks - k) ks)"
proof -
  have larger: "{y \<in> set ks. ks ! j < y} = set (drop (Suc j) ks)" if "j < length ks" for j
  proof -
    have "y \<le> ks ! j" if "y \<in> set (take (Suc j) ks)" for y
    proof -
      from that obtain i where "i < Suc j" "i < length ks" "y = ks ! i" by (auto simp: in_set_conv_nth)
      with assms(1) \<open>j < length ks\<close> show ?thesis
        by (cases "i = j") (auto simp: sorted_wrt_iff_nth_less less_imp_le)
    qed
    moreover have "ks ! j < y" if y: "y \<in> set (drop (Suc j) ks)" for y
    proof -
      from y obtain i where "i < length ks - Suc j" "y = ks ! Suc (j + i)"
        by (auto simp: in_set_conv_nth)
      with assms(1) show ?thesis by (auto simp: sorted_wrt_iff_nth_less)
    qed
    moreover have "y \<in> set (take (Suc j) ks) \<or> y \<in> set (drop (Suc j) ks)" if "y \<in> set ks" for y
      using that by (metis Un_iff append_take_drop_id set_append)
    ultimately show ?thesis by (fastforce dest: in_set_dropD)
  qed
  have dist: "distinct ks" using assms(1) by (simp add: strict_sorted_iff)
  have card: "card {y \<in> set ks. ks ! j < y} = length ks - Suc j" if "j < length ks" for j
    using larger [OF that] dist by (simp add: distinct_card)
  show ?thesis
  proof (intro set_eqI iffI)
    fix x assume "x \<in> top_keys k (set ks)"
    then have x: "x \<in> set ks" "card {y \<in> set ks. x < y} < k" by (simp_all add: top_keys_def)
    from x(1) obtain j where j0: "j < length ks" "x = ks ! j" by (metis in_set_conv_nth)
    with x(2) card [OF j0(1)] have j: "j < length ks" "x = ks ! j" "length ks - Suc j < k" by simp_all
    then have "x = drop (length ks - k) ks ! (j - (length ks - k))" "j - (length ks - k) < k" by auto
    with assms(2) show "x \<in> set (drop (length ks - k) ks)" by (auto simp: in_set_conv_nth)
  next
    fix x assume "x \<in> set (drop (length ks - k) ks)"
    then obtain i where "i < k" "x = ks ! (length ks - k + i)"
      using assms(2) by (auto simp: in_set_conv_nth)
    with assms(2) card [of "length ks - k + i"] show "x \<in> top_keys k (set ks)"
      by (auto simp: top_keys_def)
  qed
qed

lemma top_keys_take:
  assumes "sorted_wrt (<) ks" "k \<le> length ks"
  shows "- set (take (length ks - k) ks) \<inter> set ks = top_keys k (set ks)"
proof -
  have "distinct ks" using assms(1) by (simp add: strict_sorted_iff)
  then have "set (take (length ks - k) ks) \<inter> set (drop (length ks - k) ks) = {}"
    by (rule set_take_disj_set_drop_if_distinct) simp
  moreover have "set ks = set (take (length ks - k) ks) \<union> set (drop (length ks - k) ks)"
    by (metis append_take_drop_id set_append)
  ultimately show ?thesis unfolding top_keys_sorted [OF assms] by blast
qed

lemma top_keys_all: "finite K \<Longrightarrow> card K \<le> k \<Longrightarrow> top_keys k K = K"
proof -
  assume "finite K" "card K \<le> k"
  have "card {y \<in> K. x < y} < k" if "x \<in> K" for x
  proof -
    have "{y \<in> K. x < y} \<subset> K" using that by auto
    with \<open>finite K\<close> \<open>card K \<le> k\<close> show ?thesis by (meson order_less_le_trans psubset_card_mono)
  qed
  then show ?thesis by (auto simp: top_keys_def)
qed

lemma Max_top_keys: "finite K \<Longrightarrow> K \<noteq> {} \<Longrightarrow> 0 < k \<Longrightarrow> Max K \<in> top_keys k K"
proof -
  assume K: "finite K" "K \<noteq> {}" "0 < k"
  have "{y \<in> K. Max K < y} = {}" using Max_ge [OF K(1)] by (auto simp: not_less)
  then have c: "card {y \<in> K. Max K < y} = 0" by (simp only: card.empty)
  show ?thesis
    unfolding top_keys_def
  proof (intro CollectI conjI)
    show "Max K \<in> K" by (rule Max_in [OF K(1,2)])
    show "card {y \<in> K. Max K < y} < k" unfolding c by (rule K(3))
  qed
qed

lemma card_top_keys: "finite K \<Longrightarrow> card (top_keys k K) \<le> k"
proof -
  assume K: "finite K"
  show ?thesis
  proof (cases "card K \<le> k")
    case True
    then show ?thesis using top_keys_all [OF K True] by simp
  next
    case False
    let ?ks = "sorted_list_of_set K"
    have "top_keys k (set ?ks) = set (drop (length ?ks - k) ?ks)"
      by (rule top_keys_sorted) (use K False in auto)
    then have "card (top_keys k K) \<le> length (drop (length ?ks - k) ?ks)"
      using K by (metis card_length set_sorted_list_of_set)
    then show ?thesis by simp
  qed
qed

subsection \<open>The abstraction\<close>

text \<open>What the files of an entry say: the description and the data.\<close>

definition entry_at ::
  "catalog_env \<Rightarrow> snapshot_catalog \<Rightarrow> group_id \<Rightarrow> fs \<Rightarrow> u64 \<times> u64 \<Rightarrow> (meta_file \<times> bytes) option" where
  "entry_at env cat g fs key =
     (let dir = group_dir cat g @ [entry_name (fst key) (snd key)] in
      case (node_at fs dir, node_at fs (dir @ [''meta.json'']), node_at fs (dir @ [''data.bin''])) of
        (Some Dir, Some (File b), Some (File d)) \<Rightarrow>
          (case from_slice (cat_meta env) b of Ok m \<Rightarrow> Some (m, d) | _ \<Rightarrow> None)
      | _ \<Rightarrow> None)"

definition catalog_map ::
  "catalog_env \<Rightarrow> snapshot_catalog \<Rightarrow> group_id \<Rightarrow> fs \<Rightarrow> u64 \<times> u64 \<rightharpoonup> string \<times> bytes" where
  "catalog_map env cat g fs key = map_option (\<lambda>(m, d). (mf_snapshot_id m, d)) (entry_at env cat g fs key)"

text \<open>A complete entry: its description agrees with its directory name and its data.\<close>

definition good_entry ::
  "catalog_env \<Rightarrow> snapshot_catalog \<Rightarrow> group_id \<Rightarrow> fs \<Rightarrow> u64 \<times> u64 \<Rightarrow> bool" where
  "good_entry env cat g fs key \<longleftrightarrow>
     (\<exists>m d. entry_at env cat g fs key = Some (m, d) \<and> mf_group m = g \<and>
        (mf_last_index m, mf_last_term m) = key \<and> mf_size m = of_nat (length d) \<and>
        mf_sha256_hex m = hex_sha256 env d)"

definition catalog_ok :: "catalog_env \<Rightarrow> snapshot_catalog \<Rightarrow> group_id \<Rightarrow> fs \<Rightarrow> bool" where
  "catalog_ok env cat g fs \<longleftrightarrow>
     wf_fs fs \<and>
     (\<forall>q b. prefix q (group_dir cat g) \<longrightarrow> node_at fs q \<noteq> Some (File b)) \<and>
     (\<forall>n. node_at fs (group_dir cat g @ [n]) \<noteq> None \<longrightarrow>
        node_at fs (group_dir cat g) = Some Dir \<and>
        (\<exists>key. n = entry_name (fst key) (snd key) \<and> good_entry env cat g fs key)) \<and>
     (\<forall>n x. node_at fs (group_dir cat g @ [n, x]) \<noteq> Some Dir)"

lemma entry_at_cong:
  assumes "\<And>x. prefix (group_dir cat g @ [entry_name (fst key) (snd key)]) x \<Longrightarrow> node_at fs' x = node_at fs x"
  shows "entry_at env cat g fs' key = entry_at env cat g fs key"
  unfolding entry_at_def Let_def using assms by simp

lemma entry_at_dir:
  "entry_at env cat g fs key = Some x \<Longrightarrow>
   node_at fs (group_dir cat g @ [entry_name (fst key) (snd key)]) = Some Dir"
  by (auto simp: entry_at_def Let_def split: option.splits fnode.splits)

lemma dom_catalog_map: "dom (catalog_map env cat g fs) = {key. entry_at env cat g fs key \<noteq> None}"
  by (auto simp: catalog_map_def)

text \<open>In a well-formed directory the entries present are the keys of the map.\<close>

lemma catalog_ok_names:
  assumes "catalog_ok env cat g fs"
  shows "{n. node_at fs (group_dir cat g @ [n]) \<noteq> None} =
    (\<lambda>key. entry_name (fst key) (snd key)) ` dom (catalog_map env cat g fs)"
proof (intro set_eqI iffI)
  fix n assume "n \<in> {n. node_at fs (group_dir cat g @ [n]) \<noteq> None}"
  with assms obtain key where "n = entry_name (fst key) (snd key)" "good_entry env cat g fs key"
    unfolding catalog_ok_def by blast
  then show "n \<in> (\<lambda>key. entry_name (fst key) (snd key)) ` dom (catalog_map env cat g fs)"
    by (auto simp: dom_catalog_map good_entry_def)
next
  fix n assume "n \<in> (\<lambda>key. entry_name (fst key) (snd key)) ` dom (catalog_map env cat g fs)"
  then show "n \<in> {n. node_at fs (group_dir cat g @ [n]) \<noteq> None}"
    by (auto simp: dom_catalog_map dest: entry_at_dir)
qed

lemma inj_entry_name: "inj (\<lambda>key. entry_name (fst key) (snd key))"
  by (auto simp: inj_def)

lemma finite_catalog_map: "catalog_ok env cat g fs \<Longrightarrow> finite (dom (catalog_map env cat g fs))"
proof -
  assume ok: "catalog_ok env cat g fs"
  have "finite ((\<lambda>key. entry_name (fst key) (snd key)) ` dom (catalog_map env cat g fs))"
    unfolding catalog_ok_names [OF ok, symmetric] set_children [symmetric] by (rule List.finite_set)
  then show ?thesis by (rule finite_imageD) (rule inj_on_subset [OF inj_entry_name subset_UNIV])
qed

lemma catalog_ok_good:
  assumes "catalog_ok env cat g fs" "key \<in> dom (catalog_map env cat g fs)"
  shows "good_entry env cat g fs key"
proof -
  have "node_at fs (group_dir cat g @ [entry_name (fst key) (snd key)]) \<noteq> None"
    using assms(2) by (auto simp: dom_catalog_map dest: entry_at_dir)
  with assms(1) obtain key' where "entry_name (fst key) (snd key) = entry_name (fst key') (snd key')"
    "good_entry env cat g fs key'" unfolding catalog_ok_def by blast
  then show ?thesis by (metis entry_name_inj prod.collapse)
qed

subsection \<open>Listing\<close>

definition listed :: "catalog_env \<Rightarrow> snapshot_catalog \<Rightarrow> group_id \<Rightarrow> fs \<Rightarrow> u64 \<times> u64 \<Rightarrow> catalog_entry" where
  "listed env cat g fs key =
     entry_of_meta (group_dir cat g @ [entry_name (fst key) (snd key)])
       (fst (the (entry_at env cat g fs key)))"

lemma listed_sel:
  assumes "good_entry env cat g fs key"
  shows "entry_key (listed env cat g fs key) = key"
    and "ce_dir (listed env cat g fs key) = group_dir cat g @ [entry_name (fst key) (snd key)]"
  using assms by (auto simp: good_entry_def listed_def entry_of_meta_def entry_key_def)

lemma list_loop_good:
  assumes "os_healthy os"
    and "\<And>key. key \<in> set keys \<Longrightarrow> entry_at env cat g fs key \<noteq> None"
  shows "list_loop os env (group_dir cat g) (map (\<lambda>key. entry_name (fst key) (snd key)) keys) out fs =
    (Ok (out @ map (listed env cat g fs) keys), fs)"
  using assms(2)
proof (induction keys arbitrary: out)
  case Nil
  then show ?case by simp
next
  case (Cons key keys)
  then obtain m d where e: "entry_at env cat g fs key = Some (m, d)" by fastforce
  then obtain b where "node_at fs (group_dir cat g @ [entry_name (fst key) (snd key)]) = Some Dir"
    "node_at fs (group_dir cat g @ [entry_name (fst key) (snd key), ''meta.json'']) = Some (File b)"
    "from_slice (cat_meta env) b = Ok m"
    by (auto simp: entry_at_def Let_def split: option.splits fnode.splits outcome.splits)
  then show ?case
    using Cons assms(1) e by (simp add: path_exists_def fs_read_def listed_def)
qed

lemma catalog_list_ok:
  assumes "os_healthy os" "catalog_ok env cat g fs"
  shows "\<exists>keys. catalog_list os env cat g fs = (Ok (map (listed env cat g fs) keys), fs) \<and>
    distinct keys \<and> set keys = dom (catalog_map env cat g fs)"
proof (cases "node_at fs (group_dir cat g) = None")
  case True
  then have "node_at fs (group_dir cat g @ [n]) = None" for n
    using assms(2) unfolding catalog_ok_def by fastforce
  then have "dom (catalog_map env cat g fs) = {}" by (auto simp: dom_catalog_map dest: entry_at_dir)
  moreover have "catalog_list os env cat g fs = (Ok [], fs)"
    using True by (simp add: catalog_list_def path_exists_def group_dir_def)
  ultimately show ?thesis by (intro exI [of _ "[]"]) simp
next
  case False
  then have dir: "node_at fs (group_dir cat g) = Some Dir"
    using assms(2) unfolding catalog_ok_def by (metis fnode.exhaust not_Some_eq prefix_order.refl)
  let ?nm = "\<lambda>key. entry_name (fst key) (snd key)"
  let ?names = "os_order os (group_dir cat g) (children fs (group_dir cat g))"
  have m: "mset ?names = mset (children fs (group_dir cat g))"
    using assms(1) by (simp add: os_healthy_def os_ok_def)
  have names: "set ?names = ?nm ` dom (catalog_map env cat g fs)"
    using mset_eq_setD [OF m] set_children catalog_ok_names [OF assms(2)] by metis
  have "wf_fs fs" using assms(2) by (simp add: catalog_ok_def)
  then have "distinct ?names" using distinct_children mset_eq_imp_distinct_iff [OF m] by blast
  define keys where "keys = map (inv ?nm) ?names"
  have inv: "?nm (inv ?nm n) = n" if "n \<in> set ?names" for n
    by (intro f_inv_into_f) (use that names in blast)
  then have nm: "map ?nm keys = ?names" by (simp add: keys_def comp_def map_idI)
  have dist: "distinct keys" using \<open>distinct ?names\<close> unfolding nm [symmetric] distinct_map by (rule conjunct1)
  have "?nm ` set keys = ?nm ` dom (catalog_map env cat g fs)"
    unfolding set_map [symmetric] nm by (rule names)
  then have keys: "set keys = dom (catalog_map env cat g fs)"
    using inj_entry_name by (simp add: inj_image_eq_iff)
  have "list_loop os env (group_dir cat g) ?names [] fs = (Ok (map (listed env cat g fs) keys), fs)"
    using list_loop_good [OF assms(1), of keys env cat g fs "[]"] keys nm by (simp add: dom_catalog_map)
  then have "catalog_list os env cat g fs = (Ok (map (listed env cat g fs) keys), fs)"
    using assms(1) dir by (simp add: catalog_list_def path_exists_def fs_read_dir_def is_dir_def io_bind_def)
  with dist keys show ?thesis by blast
qed

subsection \<open>Pruning\<close>

lemma restrict_inter_dom: "A \<inter> dom m = B \<Longrightarrow> m |` A = m |` B"
  by (rule ext) (auto simp: restrict_map_def)

lemma restrict_dom [simp]: "m |` dom m = m"
  by (rule ext) (metis domIff restrict_in restrict_out)

lemma prefix_sibling: "prefix (G @ [n]) (G @ [m] @ r) \<longleftrightarrow> n = m"
  by auto

lemma prune_loop_effect:
  assumes "os_healthy os" "distinct (map ce_dir es)"
    and "\<And>e. e \<in> set es \<Longrightarrow> (\<exists>n. ce_dir e = G @ [n]) \<and> node_at fs (ce_dir e) = Some Dir"
  shows "\<exists>fs'. prune_loop os es fs = (Ok (), fs') \<and> (wf_fs fs \<longrightarrow> wf_fs fs') \<and>
    (\<forall>q. node_at fs' q = (if \<exists>e\<in>set es. prefix (ce_dir e) q then None else node_at fs q))"
  using assms(2,3)
proof (induction es arbitrary: fs)
  case Nil
  then show ?case by simp
next
  case (Cons e es)
  let ?fs1 = "del_nodes (prefix (ce_dir e)) fs"
  have rm: "fs_remove_dir_all os (ce_dir e) fs = (Ok (), ?fs1)"
    using assms(1) Cons.prems(2) [of e] by (simp add: fs_remove_dir_all_def is_dir_def)
  have "(\<exists>n. ce_dir x = G @ [n]) \<and> node_at ?fs1 (ce_dir x) = Some Dir" if "x \<in> set es" for x
  proof -
    from that have "ce_dir x \<in> ce_dir ` set es" by (rule imageI)
    with Cons.prems(1) have "ce_dir x \<noteq> ce_dir e" by auto
    moreover have "x \<in> set (e # es)" "e \<in> set (e # es)" using that by simp_all
    then obtain n m where "ce_dir x = G @ [n]" "ce_dir e = G @ [m]" using Cons.prems(2) by blast
    ultimately show ?thesis using Cons.prems(2) [of x] that by simp
  qed
  with Cons.IH [of ?fs1] Cons.prems(1) obtain fs' where
    "prune_loop os es ?fs1 = (Ok (), fs')" "wf_fs ?fs1 \<longrightarrow> wf_fs fs'"
    "\<And>q. node_at fs' q = (if \<exists>e\<in>set es. prefix (ce_dir e) q then None else node_at ?fs1 q)" by auto
  with rm show ?case by (intro exI [of _ fs']) auto
qed

lemma sort_key_keys:
  assumes "distinct (map f xs)"
  shows "sorted_wrt (<) (map f (sort_key f xs))" "set (map f (sort_key f xs)) = f ` set xs"
  using assms by (simp_all add: strict_sorted_iff distinct_map)

text \<open>Removing whole entries of a well-formed directory.\<close>

lemma catalog_remove_entries:
  assumes "\<And>q. node_at fs' q =
      (if \<exists>key\<in>R. prefix (group_dir cat g @ [entry_name (fst key) (snd key)]) q then None else node_at fs q)"
  shows "node_at fs' (group_dir cat g @ [n] @ r) =
      (if n \<in> (\<lambda>key. entry_name (fst key) (snd key)) ` R then None else node_at fs (group_dir cat g @ [n] @ r))"
    and "entry_at env cat g fs' key = (if key \<in> R then None else entry_at env cat g fs key)"
proof -
  let ?G = "group_dir cat g"
  have nodes: "node_at fs' (?G @ [n] @ r) =
      (if n \<in> (\<lambda>key. entry_name (fst key) (snd key)) ` R then None else node_at fs (?G @ [n] @ r))" for n r
    unfolding assms prefix_sibling by auto
  show "entry_at env cat g fs' key = (if key \<in> R then None else entry_at env cat g fs key)"
  proof (cases "key \<in> R")
    case True
    then have "node_at fs' (?G @ [entry_name (fst key) (snd key)]) = None" using nodes [of _ "[]"] by auto
    with True show ?thesis by (auto simp: entry_at_def)
  next
    case False
    then have "entry_name (fst key) (snd key) \<notin> (\<lambda>key. entry_name (fst key) (snd key)) ` R"
      by auto
    then have "entry_at env cat g fs' key = entry_at env cat g fs key"
      by (intro entry_at_cong) (use nodes in \<open>auto simp: prefix_def\<close>)
    with False show ?thesis by simp
  qed
  show "node_at fs' (?G @ [n] @ r) =
      (if n \<in> (\<lambda>key. entry_name (fst key) (snd key)) ` R then None else node_at fs (?G @ [n] @ r))"
    by (rule nodes)
qed

lemma catalog_remove:
  assumes "catalog_ok env cat g fs" "wf_fs fs'"
    and "\<And>q. node_at fs' q =
      (if \<exists>key\<in>R. prefix (group_dir cat g @ [entry_name (fst key) (snd key)]) q then None else node_at fs q)"
  shows "catalog_ok env cat g fs'"
    and "catalog_map env cat g fs' = catalog_map env cat g fs |` (- R)"
proof -
  let ?G = "group_dir cat g"
  note nodes = catalog_remove_entries(1) [of fs' R cat g fs, OF assms(3)]
    and entry = catalog_remove_entries(2) [of fs' R cat g fs env, OF assms(3)]
  show "catalog_map env cat g fs' = catalog_map env cat g fs |` (- R)"
    using entry by (auto simp: catalog_map_def restrict_map_def)
  have above: "node_at fs' q = node_at fs q" if "prefix q ?G" for q
  proof -
    have "\<not> prefix (?G @ [n]) q" for n using that by (auto dest!: prefix_length_le)
    then show ?thesis by (simp add: assms(3))
  qed
  show "catalog_ok env cat g fs'"
    unfolding catalog_ok_def
  proof (intro conjI allI impI)
    show "wf_fs fs'" by (fact assms(2))
    show "node_at fs' q \<noteq> Some (File b)" if "prefix q ?G" for q b
      using assms(1) above [OF that] that by (simp add: catalog_ok_def)
    show "node_at fs' (?G @ [n, x]) \<noteq> Some Dir" for n x
      using assms(1) nodes [of n "[x]"] by (simp add: catalog_ok_def)
    fix n assume n: "node_at fs' (?G @ [n]) \<noteq> None"
    with nodes [of n "[]"] have keep: "n \<notin> (\<lambda>key. entry_name (fst key) (snd key)) ` R"
      and old: "node_at fs (?G @ [n]) \<noteq> None" by (auto split: if_splits)
    from old assms(1) obtain key where key: "node_at fs ?G = Some Dir" "n = entry_name (fst key) (snd key)"
      "good_entry env cat g fs key" unfolding catalog_ok_def by blast
    with keep entry [of key] above [of ?G]
    show "node_at fs' ?G = Some Dir" "\<exists>key. n = entry_name (fst key) (snd key) \<and> good_entry env cat g fs' key"
      by (auto simp: good_entry_def)
  qed
qed

text \<open>Removing some of the entries, in any order.\<close>

lemma prune_entries:
  assumes "os_healthy os" "catalog_ok env cat g fs" "distinct ks" "set ks \<subseteq> dom (catalog_map env cat g fs)"
  shows "\<exists>fs'. prune_loop os (map (listed env cat g fs) ks) fs = (Ok (), fs') \<and> catalog_ok env cat g fs' \<and>
    catalog_map env cat g fs' = catalog_map env cat g fs |` (- set ks)"
proof -
  let ?dir = "\<lambda>key. group_dir cat g @ [entry_name (fst key) (snd key)]"
  have dir: "ce_dir (listed env cat g fs key) = ?dir key" "node_at fs (?dir key) = Some Dir" if k: "key \<in> set ks" for key
  proof -
    have "good_entry env cat g fs key" using catalog_ok_good [OF assms(2)] assms(4) k by blast
    then show "ce_dir (listed env cat g fs key) = ?dir key" "node_at fs (?dir key) = Some Dir"
      by (auto simp: listed_sel good_entry_def dest: entry_at_dir)
  qed
  have "inj_on ?dir (set ks)" by (auto simp: inj_on_def prod_eq_iff)
  then have dd: "distinct (map ce_dir (map (listed env cat g fs) ks))"
    using assms(3) dir(1) by (simp add: distinct_map comp_def cong: inj_on_cong)
  have rm: "(\<exists>n. ce_dir e = group_dir cat g @ [n]) \<and> node_at fs (ce_dir e) = Some Dir"
    if "e \<in> set (map (listed env cat g fs) ks)" for e using that dir by auto
  have "wf_fs fs" using assms(2) by (simp add: catalog_ok_def)
  then obtain fs' where p: "prune_loop os (map (listed env cat g fs) ks) fs = (Ok (), fs')" and wf: "wf_fs fs'"
    and n: "\<And>q. node_at fs' q =
      (if \<exists>e\<in>set (map (listed env cat g fs) ks). prefix (ce_dir e) q then None else node_at fs q)"
    using prune_loop_effect [OF assms(1) dd rm] by blast
  have "node_at fs' q = (if \<exists>key\<in>set ks. prefix (?dir key) q then None else node_at fs q)" for q
    unfolding n using dir(1) by auto
  from catalog_remove [OF assms(2) wf this] p show ?thesis by blast
qed

lemma catalog_prune_ok:
  assumes "os_healthy os" "catalog_ok env cat g fs"
  shows "\<exists>fs'. catalog_prune os env cat g fs = (Ok (), fs') \<and> catalog_ok env cat g fs' \<and>
    catalog_map env cat g fs' =
      catalog_map env cat g fs |` top_keys (unat (sc_keep cat)) (dom (catalog_map env cat g fs))"
proof -
  let ?K = "dom (catalog_map env cat g fs)" and ?k = "unat (sc_keep cat)"
  obtain keys where l: "catalog_list os env cat g fs = (Ok (map (listed env cat g fs) keys), fs)"
    and keys: "distinct keys" "set keys = ?K" using catalog_list_ok [OF assms] by blast
  define es where "es = map (listed env cat g fs) keys"
  have key: "entry_key (listed env cat g fs key) = key" if "key \<in> set keys" for key
    using catalog_ok_good [OF assms(2)] that keys(2) by (auto simp: listed_sel)
  then have ek: "map entry_key es = keys" by (auto simp: es_def comp_def intro: map_idI)
  show ?thesis
  proof (cases "length es \<le> ?k")
    case True
    have "card ?K \<le> ?k" using True keys by (simp add: es_def flip: distinct_card)
    then have "top_keys ?k ?K = ?K" using top_keys_all finite_catalog_map [OF assms(2)] by blast
    then show ?thesis using True l assms(2) by (simp add: catalog_prune_def es_def)
  next
    case False
    let ?xs = "sort_key entry_key es" and ?r = "length es - ?k"
    let ?ks = "map entry_key ?xs"
    have d: "distinct (map entry_key es)" unfolding ek by (rule keys(1))
    have "entry_key ` set es = ?K" unfolding set_map [symmetric] ek by (rule keys(2))
    with sort_key_keys [OF d] have ks: "sorted_wrt (<) ?ks" "set ?ks = ?K" by simp_all
    have "map (listed env cat g fs) ?ks = ?xs" using key by (auto simp: es_def intro!: map_idI)
    then have xs: "take ?r ?xs = map (listed env cat g fs) (take ?r ?ks)" by (metis take_map)
    have "distinct (take ?r ?ks)" using ks(1) by (metis strict_sorted_iff distinct_take)
    moreover have "set (take ?r ?ks) \<subseteq> ?K" using ks(2) set_take_subset by metis
    ultimately obtain fs' where p: "prune_loop os (take ?r ?xs) fs = (Ok (), fs')" "catalog_ok env cat g fs'"
      "catalog_map env cat g fs' = catalog_map env cat g fs |` (- set (take ?r ?ks))"
      using prune_entries [OF assms] unfolding xs by blast
    have "- set (take ?r ?ks) \<inter> ?K = top_keys ?k ?K"
      using top_keys_take [OF ks(1), of ?k] False ks(2) by simp
    then have "catalog_map env cat g fs |` (- set (take ?r ?ks)) = catalog_map env cat g fs |` top_keys ?k ?K"
      by (rule restrict_inter_dom)
    with p l False show ?thesis by (simp add: catalog_prune_def es_def)
  qed
qed

end
