(* ===== verification/Catalog_Props.thy ===== *)
theory Catalog_Props
  imports Catalog_Spec
begin

section \<open>Properties of the snapshot catalog\<close>

text \<open>
  A write on a well-formed directory succeeds and implements the abstract write;
  \<^verbatim>\<open>latest\<close> and \<^verbatim>\<open>read\<close> observe the map; a checksum mismatch is
  always detected; a failing write leaves the other entries alone, but a torn
  \<^verbatim>\<open>meta.json\<close> blocks the whole group.
\<close>

subsection \<open>Writing the files of an entry\<close>

lemma write_fsync_ok:
  "os_healthy os \<Longrightarrow> p \<noteq> [] \<Longrightarrow> is_dir fs (butlast p) \<Longrightarrow> node_at fs p \<noteq> Some Dir \<Longrightarrow>
   write_fsync os p d fs = (Ok (), set_node p (File d) fs)"
  by (simp add: write_fsync_def io_bind_def fs_write_def fs_sync_def)

lemma create_dir_all_ok:
  assumes "os_healthy os" "\<And>q b. prefix q p \<Longrightarrow> node_at fs q \<noteq> Some (File b)"
  shows "\<exists>fs'. fs_create_dir_all os p fs = (Ok (), fs') \<and> (wf_fs fs \<longrightarrow> wf_fs fs') \<and>
    (\<forall>q. node_at fs' q = (if prefix q p \<and> q \<noteq> [] then Some Dir else node_at fs q))"
proof -
  obtain fs' where "mk_dirs (tl (prefixes p)) fs = Some fs'"
    using mk_dirs_Some [of "tl (prefixes p)" fs] assms(2) by auto
  with assms(1) show ?thesis
    by (auto simp: fs_create_dir_all_def node_at_mk_dirs wf_mk_dirs)
qed

definition entry_dir :: "snapshot_catalog \<Rightarrow> group_id \<Rightarrow> u64 \<times> u64 \<Rightarrow> path" where
  "entry_dir cat g key = group_dir cat g @ [entry_name (fst key) (snd key)]"

definition new_meta :: "catalog_env \<Rightarrow> group_id \<Rightarrow> u64 \<times> u64 \<Rightarrow> string \<Rightarrow> bytes \<Rightarrow> meta_file" where
  "new_meta env g key sid data =
     \<lparr>mf_group = g, mf_last_index = fst key, mf_last_term = snd key, mf_snapshot_id = sid,
      mf_size = of_nat (length data), mf_sha256_hex = hex_sha256 env data\<rparr>"

text \<open>The part of a write before the pruning, on a healthy file system.\<close>

lemma catalog_path_no_file:
  assumes "catalog_ok env cat g fs" "prefix q (group_dir cat g @ [entry_name i t])"
  shows "node_at fs q \<noteq> Some (File b)"
proof (cases "q = group_dir cat g @ [entry_name i t]")
  case True
  have "node_at fs q = None \<or> (\<exists>key. entry_name i t = entry_name (fst key) (snd key) \<and> good_entry env cat g fs key)"
    using assms(1) unfolding catalog_ok_def True by blast
  then have "node_at fs q = None \<or> node_at fs q = Some Dir"
    unfolding True by (auto simp: good_entry_def dest: entry_at_dir)
  then show ?thesis by auto
next
  case False
  with assms(2) have "prefix q (group_dir cat g)" by (simp add: prefix_append prefix_Cons) (auto simp: prefix_def)
  with assms(1) show ?thesis by (simp add: catalog_ok_def)
qed

lemma catalog_write_files:
  fixes i t :: u64 and cat :: snapshot_catalog and g :: group_id
  assumes "os_healthy os" "codec_ok (cat_meta env)" "catalog_ok env cat g fs"
  defines "D \<equiv> entry_dir cat g (i, t)"
  shows "\<exists>fs1 b. catalog_write os env cat g i t sid data fs =
      io_bind (catalog_prune os env cat g) (\<lambda>_. io_return (entry_of_meta D (new_meta env g (i, t) sid data))) fs1 \<and>
    wf_fs fs1 \<and> from_slice (cat_meta env) b = Ok (new_meta env g (i, t) sid data) \<and>
    (\<forall>q. node_at fs1 q =
      (if q = D @ [''data.bin''] then Some (File data)
       else if q = D @ [''meta.json''] then Some (File b)
       else if q = D @ [''sha256''] then Some (File (str_bytes (hex_sha256 env data @ ''\<newline>'')))
       else if prefix q D \<and> q \<noteq> [] then Some Dir else node_at fs q))"
proof -
  have D: "D = group_dir cat g @ [entry_name i t]" by (simp add: D_def entry_dir_def)
  have noDir: "node_at fs (D @ [x]) \<noteq> Some Dir" for x using assms(3) by (simp add: D catalog_ok_def)
  note noFile = catalog_path_no_file [OF assms(3), of _ i t, folded D]
  have "wf_fs fs" using assms(3) by (simp add: catalog_ok_def)
  then obtain fs0 where c: "fs_create_dir_all os D fs = (Ok (), fs0)" and wf: "wf_fs fs0"
    and n0: "\<And>q. node_at fs0 q = (if prefix q D \<and> q \<noteq> [] then Some Dir else node_at fs q)"
    using create_dir_all_ok [OF assms(1), of D fs] noFile by blast
  obtain b where b: "to_vec (cat_meta env) (new_meta env g (i, t) sid data) = Ok b"
    and fb: "from_slice (cat_meta env) b = Ok (new_meta env g (i, t) sid data)"
    using assms(2) by (rule codec_okE)
  have "D \<noteq> []" by (simp add: D)
  have f0: "is_dir fs0 D" "node_at fs0 (D @ [x]) \<noteq> Some Dir" for x
    using noDir [of x] \<open>D \<noteq> []\<close> by (auto simp: is_dir_def n0 dest: prefix_length_le)
  let ?fs1 = "set_node (D @ [''data.bin'']) (File data) fs0"
  let ?fs2 = "set_node (D @ [''meta.json'']) (File b) ?fs1"
  let ?fs3 = "set_node (D @ [''sha256'']) (File (str_bytes (hex_sha256 env data @ ''\<newline>''))) ?fs2"
  have w: "write_fsync os (D @ [''data.bin'']) data fs0 = (Ok (), ?fs1)"
    "write_fsync os (D @ [''meta.json'']) b ?fs1 = (Ok (), ?fs2)"
    "write_fsync os (D @ [''sha256'']) (str_bytes (hex_sha256 env data @ ''\<newline>'')) ?fs2 = (Ok (), ?fs3)"
    using f0 assms(1) by (auto intro!: write_fsync_ok simp: is_dir_def)
  have "fsync_dir os D ?fs3 = (Ok (), ?fs3)"
    using assms(1) f0(1) \<open>D \<noteq> []\<close> by (simp add: fsync_dir_def io_bind_def fs_open_def fs_sync_def is_dir_def)
  with c w b have "catalog_write os env cat g i t sid data fs =
      io_bind (catalog_prune os env cat g) (\<lambda>_. io_return (entry_of_meta D (new_meta env g (i, t) sid data))) ?fs3"
    by (simp add: catalog_write_def Let_def D new_meta_def)
  moreover have "wf_fs ?fs3" using wf by simp
  ultimately show ?thesis
    using fb by (intro exI [of _ ?fs3] exI [of _ b]) (simp add: n0)
qed

text \<open>The files written make the directory well-formed again, with one more entry.\<close>

lemma catalog_insert_entries:
  fixes i t :: u64 and cat :: snapshot_catalog and g :: group_id
  defines "D \<equiv> entry_dir cat g (i, t)"
  assumes "from_slice (cat_meta env) b = Ok (new_meta env g (i, t) sid data)"
    and n: "\<And>q. node_at fs1 q =
      (if q = D @ [''data.bin''] then Some (File data)
       else if q = D @ [''meta.json''] then Some (File b)
       else if q = D @ [''sha256''] then Some (File x)
       else if prefix q D \<and> q \<noteq> [] then Some Dir else node_at fs q)"
  shows "m \<noteq> entry_name i t \<Longrightarrow> node_at fs1 (group_dir cat g @ m # r) = node_at fs (group_dir cat g @ m # r)"
    and "node_at fs1 (group_dir cat g) = Some Dir"
    and "entry_at env cat g fs1 (i, t) = Some (new_meta env g (i, t) sid data, data)"
    and "key \<noteq> (i, t) \<Longrightarrow> entry_at env cat g fs1 key = entry_at env cat g fs key"
proof -
  let ?G = "group_dir cat g"
  have D: "D = ?G @ [entry_name i t]" by (simp add: D_def entry_dir_def)
  have same: "node_at fs1 (?G @ m # r) = node_at fs (?G @ m # r)" if "m \<noteq> entry_name i t" for m r
    using that by (auto simp: n D)
  have dir: "node_at fs1 ?G = Some Dir" "node_at fs1 D = Some Dir" by (simp_all add: n D group_dir_def)
  show "node_at fs1 ?G = Some Dir" by (fact dir(1))
  show "entry_at env cat g fs1 (i, t) = Some (new_meta env g (i, t) sid data, data)"
    using dir(2) assms(2) by (simp add: entry_at_def Let_def D n)
  show "entry_at env cat g fs1 key = entry_at env cat g fs key" if "key \<noteq> (i, t)"
    by (rule entry_at_cong) (use same [of "entry_name (fst key) (snd key)"] that in \<open>auto simp: prefix_def prod_eq_iff\<close>)
  show "node_at fs1 (?G @ m # r) = node_at fs (?G @ m # r)" if "m \<noteq> entry_name i t" by (rule same [OF that])
qed

lemma catalog_insert:
  fixes i t :: u64 and cat :: snapshot_catalog and g :: group_id
  assumes "catalog_ok env cat g fs" "wf_fs fs1"
  defines "D \<equiv> entry_dir cat g (i, t)"
  assumes "from_slice (cat_meta env) b = Ok (new_meta env g (i, t) sid data)"
    and n: "\<And>q. node_at fs1 q =
      (if q = D @ [''data.bin''] then Some (File data)
       else if q = D @ [''meta.json''] then Some (File b)
       else if q = D @ [''sha256''] then Some (File x)
       else if prefix q D \<and> q \<noteq> [] then Some Dir else node_at fs q)"
  shows "catalog_ok env cat g fs1"
    and "catalog_map env cat g fs1 = (catalog_map env cat g fs)((i, t) \<mapsto> (sid, data))"
proof -
  let ?G = "group_dir cat g"
  have D: "D = ?G @ [entry_name i t]" by (simp add: D_def entry_dir_def)
  note entries = catalog_insert_entries [OF assms(4) n [unfolded D_def]]
  note same = entries(1) and new = entries(3) and old = entries(4)
  show "catalog_map env cat g fs1 = (catalog_map env cat g fs)((i, t) \<mapsto> (sid, data))"
    by (rule ext) (auto simp: catalog_map_def new old new_meta_def)
  show "catalog_ok env cat g fs1"
    unfolding catalog_ok_def
  proof (intro conjI allI impI)
    show "wf_fs fs1" by (fact assms(2))
    show "node_at fs1 q \<noteq> Some (File f)" if "prefix q ?G" for q f
    proof -
      have "q \<noteq> D @ [y]" for y using that by (auto simp: D dest: prefix_length_le)
      with that assms(1) show ?thesis by (simp add: n catalog_ok_def)
    qed
    show "node_at fs1 (?G @ [m, y]) \<noteq> Some Dir" for m y
      using assms(1) by (auto simp: n D catalog_ok_def)
    fix m assume m: "node_at fs1 (?G @ [m]) \<noteq> None"
    show "node_at fs1 ?G = Some Dir" by (fact entries(2))
    show "\<exists>key. m = entry_name (fst key) (snd key) \<and> good_entry env cat g fs1 key"
    proof (cases "m = entry_name i t")
      case True
      then show ?thesis
        by (intro exI [of _ "(i, t)"]) (simp add: good_entry_def new, simp add: new_meta_def)
    next
      case False
      with m same [of m "[]"] assms(1) obtain key where
        "m = entry_name (fst key) (snd key)" "good_entry env cat g fs key"
        unfolding catalog_ok_def by (metis append_Cons append_Nil)
      with False old [of key] show ?thesis by (auto simp: good_entry_def)
    qed
  qed
qed

subsection \<open>Observing the map\<close>

lemma find_SomeD: "find P xs = Some x \<Longrightarrow> x \<in> set xs \<and> P x"
  by (induction xs) (auto split: if_splits)

lemma sorted_last: "sorted (map f xs) \<Longrightarrow> x \<in> set xs \<Longrightarrow> f x \<le> f (last xs)"
  by (cases xs rule: rev_cases) (auto simp: sorted_append)

lemma catalog_latest_ok:
  assumes "os_healthy os" "catalog_ok env cat g fs"
  shows "catalog_latest os env cat g fs =
    (Ok (if dom (catalog_map env cat g fs) = {} then None
         else Some (listed env cat g fs (Max (dom (catalog_map env cat g fs))))), fs)"
proof -
  let ?K = "dom (catalog_map env cat g fs)"
  obtain keys where l: "catalog_list os env cat g fs = (Ok (map (listed env cat g fs) keys), fs)"
    and keys: "distinct keys" "set keys = ?K" using catalog_list_ok [OF assms] by blast
  let ?es = "map (listed env cat g fs) keys"
  let ?xs = "sort_key entry_key (rev ?es)"
  have fin: "finite ?K" by (rule finite_catalog_map [OF assms(2)])
  show ?thesis
  proof (cases "keys = []")
    case True
    with l keys(2) show ?thesis by (simp add: catalog_latest_def)
  next
    case False
    then have ne: "?xs \<noteq> []" using set_sort [of entry_key "rev ?es"] by (metis Nil_is_map_conv Nil_is_rev_conv set_empty)
    then have "last ?xs \<in> set ?xs" by (rule last_in_set)
    then obtain key where key: "key \<in> set keys" "last ?xs = listed env cat g fs key" by auto
    have ek: "entry_key (listed env cat g fs k) = k" if "k \<in> set keys" for k
      using listed_sel(1) catalog_ok_good [OF assms(2)] that keys(2) by blast
    have "k \<le> key" if k: "k \<in> set keys" for k
    proof -
      have "listed env cat g fs k \<in> set ?xs" using k by simp
      then have "entry_key (listed env cat g fs k) \<le> entry_key (last ?xs)"
        by (intro sorted_last sorted_sort_key)
      with ek [OF k] ek [OF key(1)] key(2) show ?thesis by simp
    qed
    then have "Max ?K = key" using keys(2) key(1) fin by (intro Max_eqI) auto
    moreover have "(case rev ?xs of [] \<Rightarrow> None | e # _ \<Rightarrow> Some e) = Some (last ?xs)"
      using ne by (cases "?xs" rule: rev_cases) auto
    moreover have "?K \<noteq> {}" using key(1) keys(2) by blast
    ultimately show ?thesis using l key(2) by (simp add: catalog_latest_def)
  qed
qed

lemma catalog_write_ok:
  assumes "os_healthy os" "codec_ok (cat_meta env)" "catalog_ok env cat g fs"
  shows "\<exists>fs'. catalog_write os env cat g i t sid data fs =
      (Ok (entry_of_meta (entry_dir cat g (i, t)) (new_meta env g (i, t) sid data)), fs') \<and>
    catalog_ok env cat g fs' \<and>
    catalog_map env cat g fs' =
      spec_write (unat (sc_keep cat)) (i, t) (sid, data) (catalog_map env cat g fs)"
proof -
  let ?D = "entry_dir cat g (i, t)" and ?m = "new_meta env g (i, t) sid data"
  obtain fs1 b where w: "catalog_write os env cat g i t sid data fs =
      io_bind (catalog_prune os env cat g) (\<lambda>_. io_return (entry_of_meta ?D ?m)) fs1"
    and wf: "wf_fs fs1" and fb: "from_slice (cat_meta env) b = Ok ?m"
    and n: "\<And>q. node_at fs1 q =
      (if q = ?D @ [''data.bin''] then Some (File data)
       else if q = ?D @ [''meta.json''] then Some (File b)
       else if q = ?D @ [''sha256''] then Some (File (str_bytes (hex_sha256 env data @ ''\<newline>'')))
       else if prefix q ?D \<and> q \<noteq> [] then Some Dir else node_at fs q)"
    using catalog_write_files [OF assms, of i t sid data] by blast
  note ins = catalog_insert [OF assms(3) wf fb n]
  obtain fs' where "catalog_prune os env cat g fs1 = (Ok (), fs')" "catalog_ok env cat g fs'"
    "catalog_map env cat g fs' =
      catalog_map env cat g fs1 |` top_keys (unat (sc_keep cat)) (dom (catalog_map env cat g fs1))"
    using catalog_prune_ok [OF assms(1) ins(1)] by blast
  with w ins(2) show ?thesis by (auto simp: spec_write_def Let_def simp del: dom_fun_upd)
qed

text \<open>A concrete catalog: an empty directory tree, an identity digest and the pickled description.\<close>

definition char_byte :: "char \<Rightarrow> u8" where
  "char_byte c = of_nat (of_char c)"

definition string_pickler :: "string pickler" where
  "string_pickler = iso_pickler (map char_byte) (map (\<lambda>w. char_of (unat w))) (list_pickler word_pickler)"

lemma char_byte_inverse [simp]: "char_of (unat (char_byte c)) = c"
proof -
  have "of_char c < (2 ^ 8 :: nat)" using nat_of_char_less_256 [of c] by simp
  then have "unat (of_nat (of_char c) :: u8) = of_char c" by (simp add: unat_of_nat take_bit_nat_eq_self)
  then show ?thesis by (simp add: char_byte_def)
qed

lemma string_pickler_ok [simp]: "pickler_ok string_pickler"
  unfolding string_pickler_def by (rule iso_pickler_ok) (simp_all add: comp_def)

definition meta_pickler :: "meta_file pickler" where
  "meta_pickler = iso_pickler
     (\<lambda>m. (mf_group m, mf_last_index m, mf_last_term m, mf_snapshot_id m, mf_size m, mf_sha256_hex m))
     (\<lambda>(g, i, t, s, z, h). \<lparr>mf_group = g, mf_last_index = i, mf_last_term = t, mf_snapshot_id = s,
        mf_size = z, mf_sha256_hex = h\<rparr>)
     (pair_pickler word_pickler (pair_pickler word_pickler (pair_pickler word_pickler
       (pair_pickler string_pickler (pair_pickler word_pickler string_pickler)))))"

definition sample_catalog_env :: catalog_env where
  "sample_catalog_env = \<lparr>cat_digest = (\<lambda>d. d), cat_meta = codec_of meta_pickler\<rparr>"

lemma sample_catalog_env_ok [simp]: "codec_ok (cat_meta sample_catalog_env)"
  unfolding sample_catalog_env_def meta_pickler_def
  by (simp, rule codec_of_ok, rule iso_pickler_ok) simp_all

definition sample_catalog :: snapshot_catalog where
  "sample_catalog = catalog_new [''snap''] 2"

lemma catalog_ok_empty: "catalog_ok env cat g []"
  by (simp add: catalog_ok_def node_at_def)

lemma catalog_map_empty: "catalog_map env cat g [] = Map.empty"
  by (rule ext) (simp add: catalog_map_def entry_at_def node_at_def)

lemma sample_keep [simp]: "unat (sc_keep sample_catalog) = 2"
  by (simp add: sample_catalog_def catalog_new_def max_def word_le_nat_alt)

text \<open>A snapshot that is at least as new as all others survives its own pruning.\<close>

lemma spec_write_newest:
  assumes "finite (dom m)" "0 < k" "\<And>x. x \<in> dom m \<Longrightarrow> x \<le> key"
  shows "spec_write k key v m key = Some v"
proof -
  have "Max (insert key (dom m)) = key" using assms by (intro Max_eqI) auto
  with Max_top_keys [of "insert key (dom m)" k] assms(1,2) show ?thesis
    by (simp add: spec_write_def Let_def)
qed

subsection \<open>The claims\<close>

text \<open>
  Writing refines the abstract catalog. On a well-formed group directory and a
  healthy file system a write succeeds, returns the entry it was asked to store, keeps the
  directory well-formed, and the catalog becomes the old one with the snapshot added (or
  replaced) and only the newest \<^verbatim>\<open>keep\<close> entries by (index, term) retained.
\<close>

theorem catalog_write_refines:
  assumes "os_healthy os" and "codec_ok (cat_meta env)" and "catalog_ok env cat g fs"
  shows "\<exists>entry fs'. catalog_write os env cat g i t sid data fs = (Ok entry, fs') \<and>
    entry_key entry = (i, t) \<and> ce_snapshot_id entry = sid \<and> ce_sha256_hex entry = hex_sha256 env data \<and>
    catalog_ok env cat g fs' \<and>
    catalog_map env cat g fs' =
      spec_write (unat (sc_keep cat)) (i, t) (sid, data) (catalog_map env cat g fs)"
  using catalog_write_ok [OF assms, of i t sid data]
  by (auto simp: entry_of_meta_def new_meta_def entry_key_def)

theorem catalog_write_refines_witness:
  "\<exists>entry fs'. catalog_write calm_os sample_catalog_env sample_catalog 7 10 1 ''10-1'' [1, 2, 3] [] = (Ok entry, fs') \<and>
     catalog_map sample_catalog_env sample_catalog 7 fs' (10, 1) = Some (''10-1'', [1, 2, 3])"
  using catalog_write_refines [OF calm_os_healthy sample_catalog_env_ok catalog_ok_empty,
      of sample_catalog 7 10 1 "''10-1''" "[1, 2, 3]"]
  by (auto simp: catalog_map_empty intro!: spec_write_newest)

text \<open>
  The latest snapshot. On a well-formed directory \<^verbatim>\<open>latest\<close> changes nothing
  and returns nothing exactly when the catalog is empty, and otherwise the entry with the
  greatest (index, term), with the id and the checksum of the data stored under it.
\<close>

theorem catalog_latest_is_max:
  assumes "os_healthy os" and "catalog_ok env cat g fs"
  shows "case catalog_latest os env cat g fs of
      (Ok None, fs') \<Rightarrow> fs' = fs \<and> dom (catalog_map env cat g fs) = {}
    | (Ok (Some e), fs') \<Rightarrow> fs' = fs \<and>
        entry_key e \<in> dom (catalog_map env cat g fs) \<and>
        (\<forall>k \<in> dom (catalog_map env cat g fs). k \<le> entry_key e) \<and>
        (\<exists>d. catalog_map env cat g fs (entry_key e) = Some (ce_snapshot_id e, d) \<and>
             ce_sha256_hex e = hex_sha256 env d \<and> ce_size e = of_nat (length d))
    | _ \<Rightarrow> False"
proof (cases "dom (catalog_map env cat g fs) = {}")
  case True
  then show ?thesis using catalog_latest_ok [OF assms] by simp
next
  case False
  let ?K = "dom (catalog_map env cat g fs)"
  have fin: "finite ?K" by (rule finite_catalog_map [OF assms(2)])
  have good: "good_entry env cat g fs (Max ?K)"
    by (rule catalog_ok_good [OF assms(2) Max_in [OF fin False]])
  then obtain m d where m: "entry_at env cat g fs (Max ?K) = Some (m, d)"
    "mf_sha256_hex m = hex_sha256 env d" "mf_size m = of_nat (length d)"
    by (auto simp: good_entry_def)
  have key: "entry_key (listed env cat g fs (Max ?K)) = Max ?K" by (rule listed_sel(1) [OF good])
  have "catalog_map env cat g fs (Max ?K) = Some (ce_snapshot_id (listed env cat g fs (Max ?K)), d)"
    using m(1) by (simp add: catalog_map_def listed_def entry_of_meta_def)
  moreover have "ce_sha256_hex (listed env cat g fs (Max ?K)) = hex_sha256 env d"
    "ce_size (listed env cat g fs (Max ?K)) = of_nat (length d)"
    using m by (simp_all add: listed_def entry_of_meta_def)
  ultimately show ?thesis
    using catalog_latest_ok [OF assms] False key Max_in [OF fin False] Max_ge [OF fin] by simp
qed

lemma first_write:
  assumes "0 < unat (sc_keep cat)"
  shows "\<exists>fs'. catalog_write calm_os sample_catalog_env cat g i t sid data [] =
     (Ok (entry_of_meta (entry_dir cat g (i, t)) (new_meta sample_catalog_env g (i, t) sid data)), fs') \<and>
     catalog_ok sample_catalog_env cat g fs' \<and>
     catalog_map sample_catalog_env cat g fs' = [(i, t) \<mapsto> (sid, data)]"
proof -
  have "top_keys (unat (sc_keep cat)) {(i, t)} = {(i, t)}" by (rule top_keys_all) (use assms in simp_all)
  then have "spec_write (unat (sc_keep cat)) (i, t) (sid, data) Map.empty = [(i, t) \<mapsto> (sid, data)]"
    by (auto simp: spec_write_def Let_def restrict_map_def)
  with catalog_write_ok [OF calm_os_healthy sample_catalog_env_ok catalog_ok_empty, of cat g i t sid data]
  show ?thesis by (simp add: catalog_map_empty)
qed

lemma sample_written:
  "\<exists>fs'. catalog_ok sample_catalog_env sample_catalog 7 fs' \<and>
     catalog_map sample_catalog_env sample_catalog 7 fs' = [(10, 1) \<mapsto> (''10-1'', [1, 2, 3])]"
  using first_write [of sample_catalog 7 10 1 "''10-1''" "[1, 2, 3]"] by auto

theorem catalog_latest_is_max_witness:
  "\<exists>fs e. catalog_latest calm_os sample_catalog_env sample_catalog 7 fs = (Ok (Some e), fs) \<and> entry_key e = (10, 1)"
proof -
  obtain fs where ok: "catalog_ok sample_catalog_env sample_catalog 7 fs"
    and m: "catalog_map sample_catalog_env sample_catalog 7 fs = [(10, 1) \<mapsto> (''10-1'', [1, 2, 3])]"
    using sample_written by blast
  from catalog_latest_is_max [OF calm_os_healthy ok] m show ?thesis
    by (auto split: prod.splits outcome.splits option.splits)
qed

lemma catalog_read_ok:
  assumes "os_healthy os" and "catalog_ok env cat g fs"
  shows "case catalog_read os env cat g sid fs of
      (Ok None, fs') \<Rightarrow> fs' = fs \<and>
        (\<forall>key sid' d. catalog_map env cat g fs key = Some (sid', d) \<longrightarrow>
            sid' \<noteq> sid \<and> entry_name (fst key) (snd key) \<noteq> sid)
    | (Ok (Some d), fs') \<Rightarrow> fs' = fs \<and>
        (\<exists>key sid'. catalog_map env cat g fs key = Some (sid', d) \<and>
            (sid' = sid \<or> entry_name (fst key) (snd key) = sid))
    | _ \<Rightarrow> False"
proof -
  let ?P = "\<lambda>e. ce_snapshot_id e = sid \<or> (ce_dir e \<noteq> [] \<and> last (ce_dir e) = sid)"
  obtain keys where l: "catalog_list os env cat g fs = (Ok (map (listed env cat g fs) keys), fs)"
    and keys: "set keys = dom (catalog_map env cat g fs)" using catalog_list_ok [OF assms] by blast
  have P: "?P (listed env cat g fs key) \<longleftrightarrow>
      sid' = sid \<or> entry_name (fst key) (snd key) = sid"
    if "catalog_map env cat g fs key = Some (sid', d)" for key sid' d
    using that by (auto simp: catalog_map_def listed_def entry_of_meta_def)
  have f: "catalog_find os env cat g sid fs = (Ok (find ?P (map (listed env cat g fs) keys)), fs)"
    using l by (simp add: catalog_find_def)
  show ?thesis
  proof (cases "find ?P (map (listed env cat g fs) keys)")
    case None
    then have "\<not> ?P (listed env cat g fs key)" if "key \<in> set keys" for key
      using that unfolding find_None_iff by auto
    then have "\<forall>key sid' d. catalog_map env cat g fs key = Some (sid', d) \<longrightarrow>
        sid' \<noteq> sid \<and> entry_name (fst key) (snd key) \<noteq> sid"
      using P keys by blast
    with f None show ?thesis by (simp add: catalog_read_def)
  next
    case (Some e)
    then have "e \<in> set (map (listed env cat g fs) keys)" "?P e" by (auto dest: find_SomeD)
    then obtain key where key: "key \<in> dom (catalog_map env cat g fs)" "e = listed env cat g fs key" "?P e"
      using keys by auto
    from catalog_ok_good [OF assms(2) key(1)] obtain m d where m: "entry_at env cat g fs key = Some (m, d)"
      "mf_sha256_hex m = hex_sha256 env d" by (auto simp: good_entry_def)
    then have data: "node_at fs (ce_dir e @ [''data.bin'']) = Some (File d)" "ce_sha256_hex e = hex_sha256 env d"
      by (auto simp: key(2) listed_def entry_of_meta_def entry_at_def Let_def
          split: option.splits fnode.splits outcome.splits)
    have "catalog_map env cat g fs key = Some (mf_snapshot_id m, d)" using m by (simp add: catalog_map_def)
    with P key(2,3) have "\<exists>key sid'. catalog_map env cat g fs key = Some (sid', d) \<and>
            (sid' = sid \<or> entry_name (fst key) (snd key) = sid)" by blast
    moreover have "catalog_read os env cat g sid fs = (Ok (Some d), fs)"
      using f Some data assms(1) by (simp add: catalog_read_def fs_read_def io_bind_def)
    ultimately show ?thesis by simp
  qed
qed

text \<open>A catalog whose ids are the directory names, with nothing newer than a given entry.\<close>

definition none_newer :: "catalog_env \<Rightarrow> snapshot_catalog \<Rightarrow> group_id \<Rightarrow> u64 \<times> u64 \<Rightarrow> fs \<Rightarrow> bool" where
  "none_newer env cat g key fs \<longleftrightarrow>
     (\<forall>k sid d. catalog_map env cat g fs k = Some (sid, d) \<longrightarrow> k \<le> key \<and> sid = entry_name (fst k) (snd k))"

text \<open>Its newest entry is found and read.\<close>

lemma newest_readable:
  assumes "os_healthy os" "catalog_ok env cat g fs"
    and "catalog_map env cat g fs key = Some (sid, data)"
    and newer: "none_newer env cat g key fs"
  shows "\<exists>e. catalog_latest os env cat g fs = (Ok (Some e), fs) \<and> entry_key e = key \<and> ce_snapshot_id e = sid \<and>
    catalog_read os env cat g sid fs = (Ok (Some data), fs)"
proof -
  let ?m = "catalog_map env cat g fs" and ?e = "listed env cat g fs key"
  have "Max (dom ?m) = key" 
    by (rule Max_eqI [OF finite_catalog_map [OF assms(2)]]) (use assms(3) newer in \<open>auto simp: none_newer_def\<close>)
  then have lat: "catalog_latest os env cat g fs = (Ok (Some ?e), fs)"
    using catalog_latest_ok [OF assms(1,2)] assms(3) by auto
  have key: "entry_key ?e = key" using listed_sel(1) catalog_ok_good [OF assms(2)] assms(3) by blast
  have sid: "ce_snapshot_id ?e = sid" using assms(3) by (auto simp: catalog_map_def listed_def entry_of_meta_def)
  have only: "k = key \<and> d = data" if "?m k = Some (sid', d)" "sid' = sid \<or> entry_name (fst k) (snd k) = sid" for k sid' d
  proof -
    have "sid' = entry_name (fst k) (snd k)" "sid = entry_name (fst key) (snd key)"
      using that(1) assms(3) newer unfolding none_newer_def by blast+
    then have "k = key" using that(2) by (auto simp: prod_eq_iff)
    with assms(3) that(1) show ?thesis by simp
  qed
  obtain x fs1 where x: "catalog_read os env cat g sid fs = (x, fs1)" by (metis surj_pair)
  note rok = catalog_read_ok [OF assms(1,2), of sid, unfolded x prod.case]
  then obtain found where f: "x = Ok found" by (cases x) simp_all
  have "catalog_read os env cat g sid fs = (Ok (Some data), fs)"
  proof (cases found)
    case None
    from rok [unfolded f None outcome.case option.case] assms(3) have False by blast
    then show ?thesis ..
  next
    case (Some d)
    from rok [unfolded f Some outcome.case option.case] only have "d = data" "fs1 = fs" by blast+
    with x f Some show ?thesis by simp
  qed
  with lat key sid show ?thesis by blast
qed

text \<open>What happens elsewhere in the tree does not touch the catalog of a group.\<close>

lemma catalog_elsewhere:
  assumes "catalog_ok env cat g fs" "wf_fs fs'"
    and "\<And>q. prefix q (group_dir cat g) \<or> prefix (group_dir cat g) q \<Longrightarrow> node_at fs' q = node_at fs q"
  shows "catalog_ok env cat g fs'" "catalog_map env cat g fs' = catalog_map env cat g fs"
proof -
  have at: "entry_at env cat g fs' key = entry_at env cat g fs key" for key
    by (rule entry_at_cong) (use assms(3) in \<open>auto simp: prefix_def\<close>)
  then show "catalog_map env cat g fs' = catalog_map env cat g fs" by (auto simp: catalog_map_def)
  have good: "good_entry env cat g fs' key = good_entry env cat g fs key" for key
    by (simp add: good_entry_def at)
  have "node_at fs' (group_dir cat g) = node_at fs (group_dir cat g)"
    "node_at fs' (group_dir cat g @ r) = node_at fs (group_dir cat g @ r)" for r
    by (rule assms(3), simp)+
  then show "catalog_ok env cat g fs'"
    using assms(1-3) unfolding catalog_ok_def good by metis
qed

lemma sample_read:
  "\<exists>fs. catalog_ok sample_catalog_env sample_catalog 7 fs \<and>
     catalog_map sample_catalog_env sample_catalog 7 fs = [(10, 1) \<mapsto> (''10-1'', [1, 2, 3])] \<and>
     catalog_read calm_os sample_catalog_env sample_catalog 7 ''10-1'' fs = (Ok (Some [1, 2, 3]), fs)"
proof -
  obtain fs where ok: "catalog_ok sample_catalog_env sample_catalog 7 fs"
    and m: "catalog_map sample_catalog_env sample_catalog 7 fs = [(10, 1) \<mapsto> (''10-1'', [1, 2, 3])]"
    using sample_written by blast
  with catalog_read_ok [OF calm_os_healthy ok, of "''10-1''"] show ?thesis
    by (intro exI [of _ fs]) (auto split: prod.splits outcome.splits option.splits if_splits)
qed

text \<open>
  Reading by id. On a well-formed directory a read changes nothing and cannot fail:
  it returns data stored under an entry whose snapshot id or directory name is the one
  asked for, and nothing exactly when there is no such entry.
\<close>

theorem catalog_read_complete:
  assumes "os_healthy os" and "catalog_ok env cat g fs"
  shows "case catalog_read os env cat g sid fs of
      (Ok None, fs') \<Rightarrow> fs' = fs \<and>
        (\<forall>key sid' d. catalog_map env cat g fs key = Some (sid', d) \<longrightarrow>
            sid' \<noteq> sid \<and> entry_name (fst key) (snd key) \<noteq> sid)
    | (Ok (Some d), fs') \<Rightarrow> fs' = fs \<and>
        (\<exists>key sid'. catalog_map env cat g fs key = Some (sid', d) \<and>
            (sid' = sid \<or> entry_name (fst key) (snd key) = sid))
    | _ \<Rightarrow> False"
  using assms by (rule catalog_read_ok)

theorem catalog_read_complete_witness:
  "\<exists>fs. catalog_read calm_os sample_catalog_env sample_catalog 7 ''10-1'' fs = (Ok (Some [1, 2, 3]), fs)"
proof -
  obtain fs where ok: "catalog_ok sample_catalog_env sample_catalog 7 fs"
    and m: "catalog_map sample_catalog_env sample_catalog 7 fs = [(10, 1) \<mapsto> (''10-1'', [1, 2, 3])]"
    using sample_written by blast
  from catalog_read_complete [OF calm_os_healthy ok, of "''10-1''"] m show ?thesis
    by (auto split: prod.splits outcome.splits option.splits if_splits)
qed

subsection \<open>Any directory, any environment\<close>

lemma list_loop_sound:
  assumes "list_loop os env gd ns out fs = (r, fs')"
  shows "fs' = fs"
    and "r = Ok es \<Longrightarrow> e \<in> set es \<Longrightarrow> e \<in> set out \<or>
      (\<exists>n b m. e = entry_of_meta (gd @ [n]) m \<and> node_at fs (gd @ [n, ''meta.json'']) = Some (File b) \<and>
         from_slice (cat_meta env) b = Ok m)"
proof -
  have "fs' = fs \<and> (\<forall>es. r = Ok es \<longrightarrow> (\<forall>e\<in>set es. e \<in> set out \<or>
      (\<exists>n b m. e = entry_of_meta (gd @ [n]) m \<and> node_at fs (gd @ [n, ''meta.json'']) = Some (File b) \<and>
         from_slice (cat_meta env) b = Ok m)))"
    using assms
  proof (induction ns arbitrary: out)
    case Nil
    then show ?case by auto
  next
    case (Cons n ns)
    show ?case
    proof (cases "list_loop os env gd ns out fs = (r, fs')")
      case True
      then show ?thesis by (rule Cons.IH)
    next
      case False
      with Cons.prems consider "\<exists>e. r = Err e" "fs' = fs" | "r = Panicked" "fs' = fs"
        | b m where "node_at fs (gd @ [n, ''meta.json'']) = Some (File b)" "from_slice (cat_meta env) b = Ok m"
            "list_loop os env gd ns (out @ [entry_of_meta (gd @ [n]) m]) fs = (r, fs')"
        by (auto simp: Let_def fs_read_def split: option.splits if_splits fnode.splits outcome.splits)
      then show ?thesis
      proof cases
        case 3
        have "fs' = fs" using Cons.IH [OF 3(3)] by blast
        moreover have "e = entry_of_meta (gd @ [n]) m \<or> e \<in> set out \<or>
            (\<exists>n b m. e = entry_of_meta (gd @ [n]) m \<and> node_at fs (gd @ [n, ''meta.json'']) = Some (File b) \<and>
               from_slice (cat_meta env) b = Ok m)" if "r = Ok es" "e \<in> set es" for es e
          using Cons.IH [OF 3(3)] that by auto
        ultimately show ?thesis using 3(1,2) by blast
      qed auto
    qed
  qed
  then show "fs' = fs"
    and "r = Ok es \<Longrightarrow> e \<in> set es \<Longrightarrow> e \<in> set out \<or>
      (\<exists>n b m. e = entry_of_meta (gd @ [n]) m \<and> node_at fs (gd @ [n, ''meta.json'']) = Some (File b) \<and>
         from_slice (cat_meta env) b = Ok m)" by blast+
qed

lemma catalog_list_sound:
  assumes "catalog_list os env cat g fs = (r, fs')"
  shows "fs' = fs"
    and "r = Ok es \<Longrightarrow> e \<in> set es \<Longrightarrow>
      \<exists>n b m. e = entry_of_meta (group_dir cat g @ [n]) m \<and>
        node_at fs (group_dir cat g @ [n, ''meta.json'']) = Some (File b) \<and> from_slice (cat_meta env) b = Ok m"
proof -
  have "(r = Ok [] \<and> fs' = fs) \<or> (\<exists>e. r = Err e \<and> fs' = fs) \<or>
      (\<exists>ns. list_loop os env (group_dir cat g) ns [] fs = (r, fs'))"
    using assms by (auto simp: catalog_list_def Let_def io_bind_def fs_read_dir_def split: if_splits option.splits)
  then show "fs' = fs" and "r = Ok es \<Longrightarrow> e \<in> set es \<Longrightarrow>
      \<exists>n b m. e = entry_of_meta (group_dir cat g @ [n]) m \<and>
        node_at fs (group_dir cat g @ [n, ''meta.json'']) = Some (File b) \<and> from_slice (cat_meta env) b = Ok m"
    using list_loop_sound(1) list_loop_sound(2) [of os env "group_dir cat g" _ "[]" fs r fs' es e] by fastforce+
qed

lemma catalog_read_unchanged:
  assumes "catalog_read os env cat g sid fs = (r, fs')"
  shows "fs' = fs"
proof -
  obtain l fs1 where l: "catalog_list os env cat g fs = (l, fs1)" by (cases "catalog_list os env cat g fs")
  have "fs1 = fs" by (rule catalog_list_sound(1) [OF l])
  with assms l show ?thesis
    by (auto simp: catalog_read_def catalog_find_def io_bind_def fs_read_def Let_def
        split: outcome.splits option.splits fnode.splits if_splits)
qed

text \<open>
  C25. Reads are verified. Whatever state the directory is in and whatever fails, data that
  a read returns is the content of the \<^verbatim>\<open>data.bin\<close> of an entry whose
  description carries the id (or whose directory has the name) asked for, and its checksum
  is the one in that description; a read never changes the file system.
\<close>

theorem catalog_read_verified:
  assumes "catalog_read os env cat g sid fs = (r, fs')"
  shows "fs' = fs \<and>
    (\<forall>d. r = Ok (Some d) \<longrightarrow>
       (\<exists>n b m. node_at fs (group_dir cat g @ [n, ''meta.json'']) = Some (File b) \<and>
          from_slice (cat_meta env) b = Ok m \<and> (mf_snapshot_id m = sid \<or> n = sid) \<and>
          node_at fs (group_dir cat g @ [n, ''data.bin'']) = Some (File d) \<and>
          mf_sha256_hex m = hex_sha256 env d))"
proof -
  obtain l fs1 where l: "catalog_list os env cat g fs = (l, fs1)" by (cases "catalog_list os env cat g fs")
  have fs1: "fs1 = fs" by (rule catalog_list_sound(1) [OF l])
  have "fs' = fs" by (rule catalog_read_unchanged [OF assms])
  moreover have "\<exists>n b m. node_at fs (group_dir cat g @ [n, ''meta.json'']) = Some (File b) \<and>
          from_slice (cat_meta env) b = Ok m \<and> (mf_snapshot_id m = sid \<or> n = sid) \<and>
          node_at fs (group_dir cat g @ [n, ''data.bin'']) = Some (File d) \<and>
          mf_sha256_hex m = hex_sha256 env d" if r: "r = Ok (Some d)" for d
  proof -
    from assms l fs1 r obtain es e where es: "l = Ok es"
      "find (\<lambda>e. ce_snapshot_id e = sid \<or> (ce_dir e \<noteq> [] \<and> last (ce_dir e) = sid)) es = Some e"
      "node_at fs (ce_dir e @ [''data.bin'']) = Some (File d)" "ce_sha256_hex e = hex_sha256 env d"
      by (auto simp: catalog_read_def catalog_find_def io_bind_def fs_read_def Let_def
          split: outcome.splits option.splits fnode.splits if_splits)
    from es(2) have e: "e \<in> set es" "ce_snapshot_id e = sid \<or> (ce_dir e \<noteq> [] \<and> last (ce_dir e) = sid)"
      by (auto dest: find_SomeD)
    obtain n b m where "e = entry_of_meta (group_dir cat g @ [n]) m"
      "node_at fs (group_dir cat g @ [n, ''meta.json'']) = Some (File b)" "from_slice (cat_meta env) b = Ok m"
      using catalog_list_sound(2) [OF l es(1) e(1)] by blast
    with es(3,4) e(2) show ?thesis
      by (intro exI [of _ n] exI [of _ b] exI [of _ m]) (auto simp: entry_of_meta_def)
  qed
  ultimately show ?thesis by blast
qed

theorem catalog_read_verified_witness:
  "\<exists>fs n. catalog_read calm_os sample_catalog_env sample_catalog 7 ''10-1'' fs = (Ok (Some [1, 2, 3]), fs) \<and>
     node_at fs (group_dir sample_catalog 7 @ [n, ''data.bin'']) = Some (File [1, 2, 3])"
proof -
  obtain fs where r: "catalog_read calm_os sample_catalog_env sample_catalog 7 ''10-1'' fs = (Ok (Some [1, 2, 3]), fs)"
    using sample_read by blast
  with catalog_read_verified [OF r] show ?thesis by blast
qed

subsection \<open>Failing writes\<close>

text \<open>The part of a write before the pruning.\<close>

definition write_entry_files ::
  "os \<Rightarrow> catalog_env \<Rightarrow> snapshot_catalog \<Rightarrow> group_id \<Rightarrow> u64 \<times> u64 \<Rightarrow> string \<Rightarrow> bytes \<Rightarrow> unit io" where
  "write_entry_files os env cat g key sid data =
     (let dir = entry_dir cat g key in
      io_bind (fs_create_dir_all os dir) (\<lambda>_.
      io_bind (write_fsync os (dir @ [''data.bin'']) data) (\<lambda>_.
        case to_vec (cat_meta env) (new_meta env g key sid data) of
          Err e \<Rightarrow> io_throw (IoError OtherKind e)
        | Panicked \<Rightarrow> (\<lambda>fs. (Panicked, fs))
        | Ok b \<Rightarrow>
            io_bind (write_fsync os (dir @ [''meta.json'']) b) (\<lambda>_.
            io_bind (write_fsync os (dir @ [''sha256'']) (str_bytes (hex_sha256 env data @ ''\<newline>''))) (\<lambda>_.
              fsync_dir os dir)))))"

lemma catalog_write_split:
  "catalog_write os env cat g i t sid data =
     io_bind (write_entry_files os env cat g (i, t) sid data) (\<lambda>_.
     io_bind (catalog_prune os env cat g) (\<lambda>_.
       io_return (entry_of_meta (entry_dir cat g (i, t)) (new_meta env g (i, t) sid data))))"
  by (rule ext)
    (auto simp: catalog_write_def write_entry_files_def Let_def entry_dir_def new_meta_def io_bind_def
      split: prod.splits outcome.splits)

lemma within_write_fsync: "P p \<Longrightarrow> within P (write_fsync os p d)"
  unfolding write_fsync_def by (intro within_bind within_write within_sync)

lemma within_panic: "within P (\<lambda>fs. (Panicked, fs))"
  by (simp add: within_def)

lemma within_entry_files:
  "within (\<lambda>q. prefix q (entry_dir cat g key) \<or> prefix (entry_dir cat g key) q)
     (write_entry_files os env cat g key sid data)"
  unfolding write_entry_files_def Let_def fsync_dir_def
  by (intro within_bind within_create_dir) 
    (auto intro!: within_write_fsync within_bind within_create_dir within_panic split: outcome.split)

lemma within_catalog_list: "within P (catalog_list os env cat g)"
  unfolding within_def using catalog_list_sound(1) by (metis prod.collapse)

lemma within_prune_loop:
  "(\<And>e. e \<in> set es \<Longrightarrow> prefix G (ce_dir e)) \<Longrightarrow> within (prefix G) (prune_loop os es)"
proof (induction es)
  case Nil
  then show ?case by (simp add: within_def)
next
  case (Cons e es)
  have "prefix G (ce_dir e)" using Cons.prems by simp
  then have 1: "within (prefix G) (fs_remove_dir_all os (ce_dir e))"
    by (intro within_remove) (metis prefix_order.trans)
  have 2: "within (prefix G) (prune_loop os es)" using Cons by simp
  from 1 2 show ?case unfolding within_def by simp
qed

lemma catalog_prune_cases:
  assumes "catalog_prune os env cat g fs = (r, fs')"
  shows "r \<noteq> Ok () \<Longrightarrow> fs' = fs"
    and "\<not> prefix (group_dir cat g) q \<Longrightarrow> node_at fs' q = node_at fs q"
proof -
  obtain l fs1 where l: "catalog_list os env cat g fs = (l, fs1)" by (cases "catalog_list os env cat g fs")
  have fs1: "fs1 = fs" by (rule catalog_list_sound(1) [OF l])
  have loop: "fst (prune_loop os es fs) = Ok ()" for es fs by (induction es arbitrary: fs) auto
  then have "prune_loop os es fs = (x, y) \<Longrightarrow> x = Ok ()" for es x y by (metis fst_conv)
  then show "r \<noteq> Ok () \<Longrightarrow> fs' = fs"
    using assms l fs1 by (auto simp: catalog_prune_def io_bind_def split: outcome.splits if_splits)
  have "within (prefix (group_dir cat g)) (prune_loop os (take k (sort_key entry_key es)))" if "l = Ok es" for k es
  proof (rule within_prune_loop)
    fix e assume "e \<in> set (take k (sort_key entry_key es))"
    then have "e \<in> set es" by (auto dest: in_set_takeD)
    from catalog_list_sound(2) [OF l that this] show "prefix (group_dir cat g) (ce_dir e)"
      by (auto simp: entry_of_meta_def)
  qed
  with assms l fs1 show "\<not> prefix (group_dir cat g) q \<Longrightarrow> node_at fs' q = node_at fs q"
    by (auto simp: catalog_prune_def io_bind_def split: outcome.splits if_splits dest: withinD [where q = q])
      (metis snd_conv withinD)
qed

lemma catalog_write_steps:
  assumes "catalog_write os env cat g i t sid data fs = (r, fs')"
  obtains r1 fs1 where "write_entry_files os env cat g (i, t) sid data fs = (r1, fs1)"
    and "r1 \<noteq> Ok () \<and> fs' = fs1 \<and> \<not> is_ok r \<or>
      r1 = Ok () \<and> (\<exists>r2. catalog_prune os env cat g fs1 = (r2, fs') \<and> (is_ok r \<longleftrightarrow> r2 = Ok ()))"
proof -
  obtain r1 fs1 where w: "write_entry_files os env cat g (i, t) sid data fs = (r1, fs1)"
    by (cases "write_entry_files os env cat g (i, t) sid data fs")
  moreover have "r1 \<noteq> Ok () \<and> fs' = fs1 \<and> \<not> is_ok r \<or>
      r1 = Ok () \<and> (\<exists>r2. catalog_prune os env cat g fs1 = (r2, fs') \<and> (is_ok r \<longleftrightarrow> r2 = Ok ()))"
    using assms w unfolding catalog_write_split
    by (cases r1; cases "catalog_prune os env cat g fs1"; cases "fst (catalog_prune os env cat g fs1)")
      (auto simp: io_bind_def)
  ultimately show ?thesis by (rule that)
qed

text \<open>
  C26. A failing write is confined. Whatever goes wrong during a write, if it does not
  report success then every other entry of the group is exactly as it was (nothing has
  been pruned); and whether it succeeds or not, the directories of all other groups are
  untouched.
\<close>

theorem catalog_write_confined:
  assumes "catalog_write os env cat g i t sid data fs = (r, fs')"
  shows "(\<not> is_ok r \<longrightarrow> (\<forall>key. key \<noteq> (i, t) \<longrightarrow> entry_at env cat g fs' key = entry_at env cat g fs key)) \<and>
    (\<forall>h q. h \<noteq> g \<and> prefix (group_dir cat h) q \<longrightarrow> node_at fs' q = node_at fs q)"
proof -
  from assms obtain r1 fs1 where w: "write_entry_files os env cat g (i, t) sid data fs = (r1, fs1)"
    and nxt: "r1 \<noteq> Ok () \<and> fs' = fs1 \<and> \<not> is_ok r \<or>
      r1 = Ok () \<and> (\<exists>r2. catalog_prune os env cat g fs1 = (r2, fs') \<and> (is_ok r \<longleftrightarrow> r2 = Ok ()))"
    by (rule catalog_write_steps)
  have files: "node_at fs1 q = node_at fs q"
    if "\<not> prefix q (entry_dir cat g (i, t))" "\<not> prefix (entry_dir cat g (i, t)) q" for q
    using withinD [OF within_entry_files, of q cat g "(i, t)" os env sid data fs] w that by simp
  have "entry_at env cat g fs' key = entry_at env cat g fs key" if "\<not> is_ok r" "key \<noteq> (i, t)" for key
  proof -
    have "fs' = fs1" using nxt that(1) catalog_prune_cases(1) by blast
    moreover have "entry_at env cat g fs1 key = entry_at env cat g fs key"
    proof (rule entry_at_cong, rule files)
      fix x assume x: "prefix (group_dir cat g @ [entry_name (fst key) (snd key)]) x"
      from that(2) have "entry_name (fst key) (snd key) \<noteq> entry_name i t" by (auto simp: prod_eq_iff)
      with x show "\<not> prefix (entry_dir cat g (i, t)) x" by (auto simp: entry_dir_def prefix_def)
      show "\<not> prefix x (entry_dir cat g (i, t))"
      proof
        assume "prefix x (entry_dir cat g (i, t))"
        from prefix_order.trans [OF x this]
        have "prefix (group_dir cat g @ [entry_name (fst key) (snd key)]) (group_dir cat g @ [entry_name i t])"
          by (simp add: entry_dir_def)
        with \<open>entry_name (fst key) (snd key) \<noteq> entry_name i t\<close> show False by simp
      qed
    qed
    ultimately show ?thesis by simp
  qed
  moreover have "node_at fs' q = node_at fs q" if h: "h \<noteq> g" and q: "prefix (group_dir cat h) q" for h q
  proof -
    from h q have G: "\<not> prefix (group_dir cat g) q" by (auto simp: group_dir_def prefix_def)
    then have "\<not> prefix (entry_dir cat g (i, t)) q" by (auto simp: entry_dir_def prefix_def)
    moreover have "\<not> prefix q (entry_dir cat g (i, t))"
    proof
      assume "prefix q (entry_dir cat g (i, t))"
      from prefix_order.trans [OF q this]
      have "prefix (sc_root cat @ [show_u64 h]) (sc_root cat @ [show_u64 g] @ [entry_name i t])"
        by (simp add: entry_dir_def group_dir_def)
      with h show False by simp
    qed
    ultimately have "node_at fs1 q = node_at fs q" using files by blast
    with nxt G catalog_prune_cases(2) show ?thesis by metis
  qed
  ultimately show ?thesis by blast
qed

text \<open>The disk fills up while \<^verbatim>\<open>meta.json\<close> of the new entry is being written.\<close>

definition meta_write_fails :: "path \<Rightarrow> os" where
  "meta_write_fails dir = calm_os\<lparr>os_fault := (\<lambda>q.
     if q = OpWrite (dir @ [''meta.json'']) then Some (IoError OtherKind ''no space'') else None)\<rparr>"

lemma sample_torn_write:
  "\<exists>e fs'. catalog_write (meta_write_fails (entry_dir sample_catalog 7 (20, 2))) sample_catalog_env sample_catalog
       7 20 2 ''20-2'' [4] [] = (Err e, fs') \<and>
     node_at fs' (group_dir sample_catalog 7) = Some Dir \<and>
     node_at fs' (entry_dir sample_catalog 7 (20, 2)) = Some Dir \<and>
     node_at fs' (entry_dir sample_catalog 7 (20, 2) @ [''meta.json'']) = Some (File [])"
proof -
  let ?D = "entry_dir sample_catalog 7 (20, 2)" and ?m = "new_meta sample_catalog_env 7 (20, 2) ''20-2'' [4]"
  let ?os = "meta_write_fails ?D"
  obtain fs1 where c: "mk_dirs (tl (prefixes ?D)) [] = Some fs1"
    using mk_dirs_Some [of _ "[]"] by (auto simp: node_at_def)
  then have n: "node_at fs1 q = (if prefix q ?D \<and> q \<noteq> [] then Some Dir else None)" for q
    by (simp add: node_at_mk_dirs) (simp add: node_at_def)
  obtain b where b: "to_vec (cat_meta sample_catalog_env) ?m = Ok b"
    using sample_catalog_env_ok by (rule codec_okE)
  have "?D \<noteq> []" "prefix (group_dir sample_catalog 7) ?D" "group_dir sample_catalog 7 \<noteq> []"
    by (simp_all add: entry_dir_def group_dir_def)
  moreover have "\<not> prefix (?D @ [x]) ?D" "group_dir sample_catalog 7 \<noteq> ?D @ [x]" for x
    by (auto simp: entry_dir_def dest: prefix_length_le)
  ultimately show ?thesis
    unfolding catalog_write_split write_entry_files_def
    using c b n
    by (simp add: Let_def io_bind_def fs_create_dir_all_def write_fsync_def fs_write_def fs_sync_def
        meta_write_fails_def calm_os_def is_dir_def)
qed

theorem catalog_write_confined_witness:
  "\<exists>e fs'. catalog_write (meta_write_fails (entry_dir sample_catalog 7 (20, 2))) sample_catalog_env sample_catalog
       7 20 2 ''20-2'' [4] [] = (Err e, fs') \<and>
     entry_at sample_catalog_env sample_catalog 7 fs' (10, 1) = entry_at sample_catalog_env sample_catalog 7 [] (10, 1)"
proof -
  obtain e fs' where w: "catalog_write (meta_write_fails (entry_dir sample_catalog 7 (20, 2))) sample_catalog_env
      sample_catalog 7 20 2 ''20-2'' [4] [] = (Err e, fs')" using sample_torn_write by blast
  from catalog_write_confined [OF w] have
    "entry_at sample_catalog_env sample_catalog 7 fs' (10, 1) = entry_at sample_catalog_env sample_catalog 7 [] (10, 1)"
    by simp
  with w show ?thesis by blast
qed

text \<open>One description that does not decode stops every listing of its group.\<close>

lemma list_loop_bad:
  assumes "os_healthy os" "n \<in> set ns" "node_at fs (gd @ [n]) = Some Dir"
    "node_at fs (gd @ [n, ''meta.json'']) = Some (File b)" "\<not> is_ok (from_slice (cat_meta env) b)"
  shows "\<not> is_ok (fst (list_loop os env gd ns out fs))"
  using assms(2)
proof (induction ns arbitrary: out)
  case Nil
  then show ?case by simp
next
  case (Cons x ns)
  show ?case
  proof (cases "x = n")
    case True
    with assms(1,3-5) show ?thesis
      by (cases "from_slice (cat_meta env) b") (simp_all add: path_exists_def fs_read_def)
  next
    case False
    with Cons have "\<not> is_ok (fst (list_loop os env gd ns out fs))" for out by simp
    with assms(1) show ?thesis
      by (auto simp: Let_def fs_read_def split: option.splits fnode.splits outcome.splits)
  qed
qed

lemma catalog_list_bad:
  assumes "os_healthy os" "node_at fs (group_dir cat g) = Some Dir" "node_at fs (group_dir cat g @ [n]) = Some Dir"
    "node_at fs (group_dir cat g @ [n, ''meta.json'']) = Some (File b)" "\<not> is_ok (from_slice (cat_meta env) b)"
  shows "\<not> is_ok (fst (catalog_list os env cat g fs))"
proof -
  let ?G = "group_dir cat g"
  have "mset (os_order os ?G (children fs ?G)) = mset (children fs ?G)"
    using assms(1) by (simp add: os_healthy_def os_ok_def)
  then have "n \<in> set (os_order os ?G (children fs ?G))"
    using set_children [of fs ?G] assms(3) by (auto dest!: mset_eq_setD)
  from list_loop_bad [OF assms(1) this assms(3-5), of "[]"] assms(1,2) show ?thesis
    by (simp add: catalog_list_def Let_def path_exists_def io_bind_def fs_read_dir_def is_dir_def)
qed

definition keeps_dirs :: "'a io \<Rightarrow> bool" where
  "keeps_dirs m \<longleftrightarrow> (\<forall>fs q. node_at fs q = Some Dir \<longrightarrow> node_at (snd (m fs)) q = Some Dir)"

lemma keeps_dirs_bind:
  "keeps_dirs m \<Longrightarrow> (\<And>a. keeps_dirs (f a)) \<Longrightarrow> keeps_dirs (io_bind m f)"
  by (auto simp: keeps_dirs_def io_bind_def split: prod.split outcome.split) (metis snd_conv)+

lemma keeps_dirs_ops:
  "keeps_dirs (fs_create_dir_all os p)" "keeps_dirs (fs_write os p d)" "keeps_dirs (fs_sync os p)"
  "keeps_dirs (fs_open os p)" "keeps_dirs (io_throw e)" "keeps_dirs (\<lambda>fs. (Panicked, fs))"
  by (auto simp: keeps_dirs_def fs_create_dir_all_def fs_write_def fs_sync_def fs_open_def node_at_mk_dirs
      split: option.splits)

lemma keeps_dirs_entry_files: "keeps_dirs (write_entry_files os env cat g key sid data)"
  unfolding write_entry_files_def Let_def fsync_dir_def write_fsync_def
  by (auto intro!: keeps_dirs_bind keeps_dirs_ops split: outcome.split)

text \<open>
  C27. One torn description blocks its group. If the \<^verbatim>\<open>meta.json\<close> of some entry
  does not decode, as after a crash while it was being written, then on a healthy file
  system no \<^verbatim>\<open>latest\<close> and no \<^verbatim>\<open>read\<close> of the group succeeds, for any
  id, and no write of another entry of the group reports success.
\<close>

theorem catalog_torn_meta_blocks:
  assumes "os_healthy os" and "node_at fs (group_dir cat g) = Some Dir"
    and "node_at fs (group_dir cat g @ [n]) = Some Dir"
    and "node_at fs (group_dir cat g @ [n, ''meta.json'']) = Some (File b)"
    and "\<not> is_ok (from_slice (cat_meta env) b)"
  shows "\<not> is_ok (fst (catalog_latest os env cat g fs)) \<and>
    \<not> is_ok (fst (catalog_read os env cat g sid fs)) \<and>
    (entry_name i t \<noteq> n \<longrightarrow> \<not> is_ok (fst (catalog_write os env cat g i t sid data fs)))"
proof -
  have l: "\<not> is_ok (fst (catalog_list os env cat g fs))" by (rule catalog_list_bad [OF assms])
  then have "\<not> is_ok (fst (catalog_latest os env cat g fs))" "\<not> is_ok (fst (catalog_read os env cat g sid fs))"
    by (auto simp: catalog_latest_def catalog_read_def catalog_find_def io_bind_def split: prod.splits outcome.splits)
  moreover have "\<not> is_ok (fst (catalog_write os env cat g i t sid data fs))" if n: "entry_name i t \<noteq> n"
  proof -
    obtain r fs' where w: "catalog_write os env cat g i t sid data fs = (r, fs')"
      by (cases "catalog_write os env cat g i t sid data fs")
    then obtain r1 fs1 where f: "write_entry_files os env cat g (i, t) sid data fs = (r1, fs1)"
      and nxt: "r1 \<noteq> Ok () \<and> fs' = fs1 \<and> \<not> is_ok r \<or>
        r1 = Ok () \<and> (\<exists>r2. catalog_prune os env cat g fs1 = (r2, fs') \<and> (is_ok r \<longleftrightarrow> r2 = Ok ()))"
      by (rule catalog_write_steps)
    have dirs: "node_at fs1 q = Some Dir" if "node_at fs q = Some Dir" for q
      using keeps_dirs_entry_files [of os env cat g "(i, t)" sid data] that f unfolding keeps_dirs_def by (metis snd_conv)
    have "node_at fs1 (group_dir cat g @ [n, ''meta.json'']) = Some (File b)"
      using withinD [OF within_entry_files, of "group_dir cat g @ [n, ''meta.json'']" cat g "(i, t)" os env sid data fs]
        f n assms(4) by (simp add: entry_dir_def)
    with catalog_list_bad [OF assms(1) dirs [OF assms(2)] dirs [OF assms(3)] _ assms(5)]
    have "\<not> is_ok (fst (catalog_prune os env cat g fs1))"
      by (auto simp: catalog_prune_def io_bind_def split: prod.splits outcome.splits)
    with nxt w show ?thesis by auto
  qed
  ultimately show ?thesis by blast
qed

theorem catalog_torn_meta_blocks_witness:
  "\<exists>e fs'. catalog_write (meta_write_fails (entry_dir sample_catalog 7 (20, 2))) sample_catalog_env sample_catalog
       7 20 2 ''20-2'' [4] [] = (Err e, fs') \<and>
     \<not> is_ok (fst (catalog_latest calm_os sample_catalog_env sample_catalog 7 fs')) \<and>
     \<not> is_ok (fst (catalog_write calm_os sample_catalog_env sample_catalog 7 30 2 ''30-2'' [5] fs'))"
proof -
  obtain e fs' where w: "catalog_write (meta_write_fails (entry_dir sample_catalog 7 (20, 2))) sample_catalog_env
      sample_catalog 7 20 2 ''20-2'' [4] [] = (Err e, fs')"
    and d: "node_at fs' (group_dir sample_catalog 7) = Some Dir"
      "node_at fs' (group_dir sample_catalog 7 @ [entry_name 20 2]) = Some Dir"
      "node_at fs' (group_dir sample_catalog 7 @ [entry_name 20 2, ''meta.json'']) = Some (File [])"
    using sample_torn_write by (auto simp: entry_dir_def)
  have "\<not> is_ok (from_slice (cat_meta sample_catalog_env) [])"
    by (simp add: sample_catalog_env_def codec_of_def meta_pickler_def iso_pickler_def pair_pickler_def
        word_pickler_def string_pickler_def list_pickler_def)
  from catalog_torn_meta_blocks [OF calm_os_healthy d this, of "''30-2''" 30 2 "[5]"] w show ?thesis by auto
qed

text \<open>
  A snapshot can be lost at once. If at least \<^verbatim>\<open>keep\<close> newer entries exist, a
  write reports success and returns an entry that its own pruning has already removed.
\<close>

theorem catalog_stale_write_lost:
  assumes "os_healthy os" and "codec_ok (cat_meta env)" and "catalog_ok env cat g fs"
    and "unat (sc_keep cat) \<le> card {k \<in> dom (catalog_map env cat g fs). (i, t) < k}"
  shows "\<exists>entry fs'. catalog_write os env cat g i t sid data fs = (Ok entry, fs') \<and>
    catalog_map env cat g fs' (i, t) = None"
proof -
  let ?K = "dom (catalog_map env cat g fs)"
  have "{k \<in> insert (i, t) ?K. (i, t) < k} = {k \<in> ?K. (i, t) < k}" by auto
  then have "(i, t) \<notin> top_keys (unat (sc_keep cat)) (insert (i, t) ?K)"
    using assms(4) by (simp add: top_keys_def del: split_paired_All)
  then have "spec_write (unat (sc_keep cat)) (i, t) (sid, data) (catalog_map env cat g fs) (i, t) = None"
    by (simp add: spec_write_def Let_def restrict_map_def)
  with catalog_write_ok [OF assms(1-3), of i t sid data] show ?thesis by auto
qed

theorem catalog_stale_write_lost_witness:
  "\<exists>fs entry fs'. catalog_write calm_os sample_catalog_env (catalog_new [''snap''] 1) 7 5 1 ''5-1'' [9] fs
      = (Ok entry, fs') \<and>
     catalog_map sample_catalog_env (catalog_new [''snap''] 1) 7 fs' (5, 1) = None"
proof -
  let ?cat = "catalog_new [''snap''] 1"
  have keep: "unat (sc_keep ?cat) = 1" by (simp add: catalog_new_def)
  obtain fs where ok: "catalog_ok sample_catalog_env ?cat 7 fs"
    and m: "catalog_map sample_catalog_env ?cat 7 fs = [(10, 1) \<mapsto> (''10-1'', [1, 2, 3])]"
    using first_write [of ?cat 7 10 1 "''10-1''" "[1, 2, 3]"] keep by auto
  have "{k \<in> dom (catalog_map sample_catalog_env ?cat 7 fs). (5, 1) < k} = {(10, 1)}"
    by (auto simp: m word_less_nat_alt)
  then have "unat (sc_keep ?cat) \<le> card {k \<in> dom (catalog_map sample_catalog_env ?cat 7 fs). (5, 1) < k}"
    unfolding keep by simp
  from catalog_stale_write_lost [OF calm_os_healthy sample_catalog_env_ok ok this] show ?thesis by blast
qed

end
