(* ===== verification/Catalog_Runs.thy ===== *)
theory Catalog_Runs
  imports Catalog_Props
begin

section \<open>The snapshot catalog over time\<close>

text \<open>
  The operations of the catalog of a group as calls, and the same calls on the abstract
  catalog, a map from (index, term) to snapshot id and data. A run of any calls on the
  directory is simulated by the run on the map.
\<close>

datatype catalog_call = WriteSnapshot u64 u64 string bytes | Latest | ReadSnapshot string

datatype catalog_answer =
    Written "(io_error, catalog_entry) outcome" | LatestIs "(io_error, catalog_entry option) outcome"
  | DataIs "(io_error, bytes option) outcome"

fun catalog_do ::
  "os \<times> catalog_env \<times> snapshot_catalog \<times> group_id \<Rightarrow> catalog_call \<Rightarrow> fs \<Rightarrow> catalog_answer \<times> fs" where
  "catalog_do (os, env, cat, g) (WriteSnapshot i t sid data) fs =
     (case catalog_write os env cat g i t sid data fs of (r, fs') \<Rightarrow> (Written r, fs'))"
| "catalog_do (os, env, cat, g) Latest fs = (case catalog_latest os env cat g fs of (r, fs') \<Rightarrow> (LatestIs r, fs'))"
| "catalog_do (os, env, cat, g) (ReadSnapshot sid) fs =
     (case catalog_read os env cat g sid fs of (r, fs') \<Rightarrow> (DataIs r, fs'))"

type_synonym spec_catalog = "u64 \<times> u64 \<rightharpoonup> string \<times> bytes"

datatype spec_answer =
    SpecWritten "u64 \<times> u64" string bytes | SpecLatest "((u64 \<times> u64) \<times> string \<times> bytes) option" | SpecData "bytes set"

fun spec_do ::
  "os \<times> catalog_env \<times> snapshot_catalog \<times> group_id \<Rightarrow> catalog_call \<Rightarrow> spec_catalog \<Rightarrow> spec_answer \<times> spec_catalog" where
  "spec_do (os, env, cat, g) (WriteSnapshot i t sid data) m =
     (SpecWritten (i, t) sid data, spec_write (unat (sc_keep cat)) (i, t) (sid, data) m)"
| "spec_do (os, env, cat, g) Latest m =
     (SpecLatest (if dom m = {} then None else Some (Max (dom m), the (m (Max (dom m))))), m)"
| "spec_do (os, env, cat, g) (ReadSnapshot sid) m =
     (SpecData {d. \<exists>key sid'. m key = Some (sid', d) \<and> (sid' = sid \<or> entry_name (fst key) (snd key) = sid)}, m)"

definition entry_is :: "catalog_env \<Rightarrow> u64 \<times> u64 \<Rightarrow> string \<Rightarrow> bytes \<Rightarrow> catalog_entry \<Rightarrow> bool" where
  "entry_is env key sid data e \<longleftrightarrow>
     entry_key e = key \<and> ce_snapshot_id e = sid \<and> ce_sha256_hex e = hex_sha256 env data \<and> ce_size e = of_nat (length data)"

text \<open>A read by id finds one of the entries with that id or directory name, whenever there is one.\<close>

fun catalog_agrees :: "os \<times> catalog_env \<times> snapshot_catalog \<times> group_id \<Rightarrow> catalog_answer \<Rightarrow> spec_answer \<Rightarrow> bool" where
  "catalog_agrees (_, env, _, _) (Written (Ok e)) (SpecWritten key sid data) \<longleftrightarrow> entry_is env key sid data e"
| "catalog_agrees (_, env, _, _) (LatestIs (Ok None)) (SpecLatest None) \<longleftrightarrow> True"
| "catalog_agrees (_, env, _, _) (LatestIs (Ok (Some e))) (SpecLatest (Some (key, sid, data))) \<longleftrightarrow> entry_is env key sid data e"
| "catalog_agrees (_, env, _, _) (DataIs (Ok None)) (SpecData ds) \<longleftrightarrow> ds = {}"
| "catalog_agrees (_, env, _, _) (DataIs (Ok (Some d))) (SpecData ds) \<longleftrightarrow> d \<in> ds"
| "catalog_agrees _ _ _ \<longleftrightarrow> False"

lemma entry_is_listed:
  assumes "catalog_ok env cat g fs" "catalog_map env cat g fs key = Some (sid, data)"
  shows "entry_is env key sid data (listed env cat g fs key)"
proof -
  have good: "good_entry env cat g fs key" using catalog_ok_good [OF assms(1)] assms(2) by blast
  then obtain m d where m: "entry_at env cat g fs key = Some (m, d)" "mf_sha256_hex m = hex_sha256 env d"
    "mf_size m = of_nat (length d)" by (auto simp: good_entry_def)
  with assms(2) have "d = data" "mf_snapshot_id m = sid" by (simp_all add: catalog_map_def)
  with m listed_sel(1) [OF good] show ?thesis by (simp add: entry_is_def listed_def entry_of_meta_def)
qed

lemma catalog_write_simulates:
  assumes "os_healthy os" "codec_ok (cat_meta env)" "catalog_ok env cat g fs"
    and "catalog_do (os, env, cat, g) (WriteSnapshot i t sid data) fs = (a, fs')"
  shows "catalog_ok env cat g fs' \<and>
    (\<exists>b. spec_do (os, env, cat, g) (WriteSnapshot i t sid data) (catalog_map env cat g fs) = (b, catalog_map env cat g fs') \<and>
         catalog_agrees (os, env, cat, g) a b)"
  using catalog_write_ok [OF assms(1-3), of i t sid data] assms(4)
  by (auto simp: entry_is_def entry_of_meta_def new_meta_def entry_key_def)

lemma catalog_latest_simulates:
  assumes "os_healthy os" "catalog_ok env cat g fs" "catalog_do (os, env, cat, g) Latest fs = (a, fs')"
  shows "fs' = fs \<and> (\<exists>b. spec_do (os, env, cat, g) Latest (catalog_map env cat g fs) = (b, catalog_map env cat g fs) \<and>
    catalog_agrees (os, env, cat, g) a b)"
proof (cases "dom (catalog_map env cat g fs) = {}")
  case False
  let ?K = "dom (catalog_map env cat g fs)"
  have "Max ?K \<in> ?K" by (rule Max_in [OF finite_catalog_map [OF assms(2)] False])
  then obtain sid data where v: "catalog_map env cat g fs (Max ?K) = Some (sid, data)" by auto
  with entry_is_listed [OF assms(2) v] catalog_latest_ok [OF assms(1,2)] assms(3) False show ?thesis by auto
qed (use catalog_latest_ok [OF assms(1,2)] assms(3) in auto)

lemma catalog_read_simulates:
  assumes "os_healthy os" "catalog_ok env cat g fs" "catalog_do (os, env, cat, g) (ReadSnapshot sid) fs = (a, fs')"
  shows "fs' = fs \<and> (\<exists>b. spec_do (os, env, cat, g) (ReadSnapshot sid) (catalog_map env cat g fs) = (b, catalog_map env cat g fs) \<and>
    catalog_agrees (os, env, cat, g) a b)"
proof -
  obtain r fs1 where r: "catalog_read os env cat g sid fs = (r, fs1)" by (metis surj_pair)
  note ok = catalog_read_ok [OF assms(1,2), of sid, unfolded r prod.case]
  then obtain found where f: "r = Ok found" by (cases r) simp_all
  show ?thesis
  proof (cases found)
    case None
    from ok [unfolded f None outcome.case option.case] have "fs1 = fs"
      "{d. \<exists>key sid'. catalog_map env cat g fs key = Some (sid', d) \<and> (sid' = sid \<or> entry_name (fst key) (snd key) = sid)} = {}"
      by blast+
    moreover from this(1) have "a = DataIs (Ok None)" "fs' = fs" using assms(3) r f None by simp_all
    ultimately show ?thesis by (simp only: spec_do.simps catalog_agrees.simps prod.inject simp_thms ex_simps)
  next
    case (Some d)
    from ok [unfolded f Some outcome.case option.case] have "fs1 = fs"
      "d \<in> {d. \<exists>key sid'. catalog_map env cat g fs key = Some (sid', d) \<and> (sid' = sid \<or> entry_name (fst key) (snd key) = sid)}"
      by blast+
    moreover from this(1) have "a = DataIs (Ok (Some d))" "fs' = fs" using assms(3) r f Some by simp_all
    ultimately show ?thesis by (simp only: spec_do.simps catalog_agrees.simps prod.inject simp_thms ex_simps)
  qed
qed

interpretation catalog: call_simulation "\<lambda>(os, env, cat, g). os_healthy os \<and> codec_ok (cat_meta env)"
  catalog_do spec_do "\<lambda>c. c" "\<lambda>(os, env, cat, g). catalog_map env cat g" catalog_agrees
  "\<lambda>(os, env, cat, g). catalog_ok env cat g"
proof
  fix ctx i fs a fs'
  assume h: "case ctx of (os, env, cat, g) \<Rightarrow> os_healthy os \<and> codec_ok (cat_meta env)"
    "(case ctx of (os, env, cat, g) \<Rightarrow> catalog_ok env cat g) fs" "catalog_do ctx i fs = (a, fs')"
  obtain os env cat g where ctx: "ctx = (os, env, cat, g)" by (metis prod_cases4)
  with h have o: "os_healthy os" "codec_ok (cat_meta env)" "catalog_ok env cat g fs" "catalog_do (os, env, cat, g) i fs = (a, fs')"
    by simp_all
  have "catalog_ok env cat g fs' \<and> (\<exists>b. spec_do (os, env, cat, g) i (catalog_map env cat g fs) = (b, catalog_map env cat g fs') \<and>
      catalog_agrees (os, env, cat, g) a b)"
  proof (cases i)
    case (WriteSnapshot i t sid data)
    then show ?thesis using catalog_write_simulates [OF o(1-3)] o(4) by blast
  next
    case Latest
    then show ?thesis using catalog_latest_simulates [OF o(1,3)] o(3,4) by blast
  next
    case (ReadSnapshot sid)
    then show ?thesis using catalog_read_simulates [OF o(1,3)] o(3,4) by blast
  qed
  then show "(case ctx of (os, env, cat, g) \<Rightarrow> catalog_ok env cat g) fs' \<and>
      (\<exists>b. spec_do ctx i ((case ctx of (os, env, cat, g) \<Rightarrow> catalog_map env cat g) fs) =
          (b, (case ctx of (os, env, cat, g) \<Rightarrow> catalog_map env cat g) fs') \<and> catalog_agrees ctx a b)"
    by (simp add: ctx)
qed

text \<open>
  C8. The catalog over time. Starting from a well-formed group directory on a healthy file
  system, any sequence of writes, reads by id and requests for the latest snapshot gets the
  answers the abstract catalog gives: a write returns the entry it stored and then only the
  newest \<^verbatim>\<open>keep\<close> entries by (index, term) are retained; the latest is the greatest one,
  with the checksum and size of its data; a read returns the data of an entry with that id
  or directory name, and nothing only if there is none. The directory stays well formed.
\<close>

theorem catalog_runs_refine:
  assumes "os_healthy os" "codec_ok (cat_meta env)" "catalog_ok env cat g fs"
    and "run_calls (catalog_do (os, env, cat, g)) calls fs = (as, fs')"
  shows "catalog_ok env cat g fs' \<and>
    (\<exists>bs. run_calls (spec_do (os, env, cat, g)) calls (catalog_map env cat g fs) = (bs, catalog_map env cat g fs') \<and>
          list_all2 (catalog_agrees (os, env, cat, g)) as bs)"
  using catalog.runs_agree [of "(os, env, cat, g)" fs calls as fs'] assms by simp

theorem catalog_runs_refine_witness:
  "\<exists>as fs'. run_calls (catalog_do (calm_os, sample_catalog_env, sample_catalog, 7))
       [WriteSnapshot 10 1 ''a'' [1, 2, 3], Latest] [] = (as, fs') \<and> catalog_ok sample_catalog_env sample_catalog 7 fs' \<and>
     (\<exists>e. as ! 1 = LatestIs (Ok (Some e)) \<and> entry_key e = (10, 1) \<and> ce_snapshot_id e = ''a'')"
proof -
  let ?ctx = "(calm_os, sample_catalog_env, sample_catalog, 7 :: group_id)" and ?calls = "[WriteSnapshot 10 1 ''a'' [1, 2, 3], Latest]"
  obtain as fs' where r: "run_calls (catalog_do ?ctx) ?calls [] = (as, fs')" by (metis surj_pair)
  note ref = catalog_runs_refine [OF calm_os_healthy sample_catalog_env_ok catalog_ok_empty r]
  have "top_keys 2 {(10, 1)} = {(10 :: u64, 1 :: u64)}" by (rule top_keys_all) simp_all
  then have m: "spec_write 2 (10, 1) (''a'', [1, 2, 3]) Map.empty = [(10 :: u64, 1 :: u64) \<mapsto> (''a'', [1, 2, 3 :: u8])]"
    by (auto simp: spec_write_def Let_def restrict_map_def)
  from ref obtain bs where bs: "run_calls (spec_do ?ctx) ?calls Map.empty = (bs, catalog_map sample_catalog_env sample_catalog 7 fs')"
    "list_all2 (catalog_agrees ?ctx) as bs" by (auto simp: catalog_map_empty)
  from bs(1) have "bs = [SpecWritten (10, 1) ''a'' [1, 2, 3], SpecLatest (Some ((10, 1), ''a'', [1, 2, 3]))]" by (simp add: m)
  with bs(2) obtain a0 a1 where as: "as = [a0, a1]" "catalog_agrees ?ctx a1 (SpecLatest (Some ((10, 1), ''a'', [1, 2, 3])))"
    by (auto simp: list_all2_Cons2)
  from as(2) obtain e where "a1 = LatestIs (Ok (Some e))" "entry_is sample_catalog_env (10, 1) ''a'' [1, 2, 3] e"
    by (cases "(?ctx, a1, SpecLatest (Some ((10 :: u64, 1 :: u64), ''a'', [1 :: u8, 2, 3])))" rule: catalog_agrees.cases) auto
  with r ref as(1) show ?thesis by (auto simp: entry_is_def)
qed

end
