(* ===== verification/Snapshot_Ads.thy ===== *)
theory Snapshot_Ads
  imports Core_Types Snapshot_Catalog
begin

section \<open>multiraft-net: the snapshot runtime of a node\<close>

text \<open>
  \<open>SnapshotRuntime\<close> of \<^verbatim>\<open>multiraft.rs\<close>: the durable catalog of a node and
  the advertisements it knows, which are kept in \<^verbatim>\<open>snapshot_ads.json\<close>. Every
  failure of the file is ignored by the code. \<open>sr_on_snapshot_ready\<close> says whether a
  callback is installed; \<open>record_ad\<close> returns the advertisements it was called with.
\<close>

record snapshot_runtime =
  sr_catalog :: "snapshot_catalog option"
  sr_ads :: "snapshot_advertisement list"
  sr_serialize_delay :: "nat option"
  sr_data_dir :: path
  sr_admin_advertise_addr :: "socket_addr option"
  sr_on_snapshot_ready :: bool

definition ads_file :: "path \<Rightarrow> path" where
  "ads_file data_dir = data_dir @ [''snapshot_ads.json'']"

definition load_ads ::
  "os \<Rightarrow> snapshot_advertisement list codec \<Rightarrow> path \<Rightarrow> fs \<Rightarrow> snapshot_advertisement list" where
  "load_ads os ac data_dir fs =
     (if data_dir = [] then []
      else case fst (fs_read os (ads_file data_dir) fs) of
             Ok b \<Rightarrow> (case from_slice ac b of Ok ads \<Rightarrow> ads | _ \<Rightarrow> [])
           | _ \<Rightarrow> [])"

definition snapshot_runtime_new ::
  "os \<Rightarrow> snapshot_advertisement list codec \<Rightarrow> cluster_config \<Rightarrow> fs \<Rightarrow> snapshot_runtime \<times> fs" where
  "snapshot_runtime_new os ac cfg fs =
     (let root = cfg_data_dir cfg @ [''snapshots''];
          offload = cfg_snapshot_mode cfg = StandbyOffload \<and> cfg_data_dir cfg \<noteq> [];
          fs' = (if offload then snd (fs_create_dir_all os root fs) else fs)
      in (\<lparr>sr_catalog = (if offload then Some (catalog_new root (cfg_snapshot_keep cfg)) else None),
           sr_ads = load_ads os ac (cfg_data_dir cfg) fs',
           sr_serialize_delay = None, sr_data_dir = cfg_data_dir cfg,
           sr_admin_advertise_addr = cfg_admin_advertise_addr cfg, sr_on_snapshot_ready = False\<rparr>, fs'))"

definition persist_ads ::
  "os \<Rightarrow> snapshot_advertisement list codec \<Rightarrow> path \<Rightarrow> snapshot_advertisement list \<Rightarrow> fs \<Rightarrow> fs" where
  "persist_ads os ac data_dir ads fs =
     (if data_dir = [] then fs
      else case to_vec ac ads of
             Ok b \<Rightarrow> snd (fs_write os (ads_file data_dir) b fs)
           | _ \<Rightarrow> fs)"

definition same_ad :: "snapshot_advertisement \<Rightarrow> snapshot_advertisement \<Rightarrow> bool" where
  "same_ad a b \<longleftrightarrow> ad_group a = ad_group b \<and> ad_snapshot_id a = ad_snapshot_id b"

definition push_ad :: "snapshot_advertisement \<Rightarrow> snapshot_advertisement list \<Rightarrow> snapshot_advertisement list" where
  "push_ad ad ads = filter (\<lambda>a. \<not> same_ad a ad) ads @ [ad]"

definition record_ad ::
  "os \<Rightarrow> snapshot_advertisement list codec \<Rightarrow> snapshot_advertisement \<Rightarrow> snapshot_runtime \<Rightarrow> fs \<Rightarrow>
   snapshot_runtime \<times> fs \<times> snapshot_advertisement list" where
  "record_ad os ac ad rt fs =
     (let rt1 = rt\<lparr>sr_ads := push_ad ad (sr_ads rt)\<rparr>;
          fs1 = persist_ads os ac (sr_data_dir rt1) (sr_ads rt1) fs
      in (rt1, fs1, if sr_on_snapshot_ready rt1 then [ad] else []))"

subsection \<open>What is kept\<close>

text \<open>At most one advertisement per group and snapshot id; the last one recorded wins.\<close>

definition ads_unique :: "snapshot_advertisement list \<Rightarrow> bool" where
  "ads_unique ads \<longleftrightarrow> distinct (map (\<lambda>a. (ad_group a, ad_snapshot_id a)) ads)"

lemma ads_unique_push: "ads_unique ads \<Longrightarrow> ads_unique (push_ad ad ads)"
  by (auto simp: ads_unique_def push_ad_def distinct_map inj_on_def same_ad_def)

lemma set_push_ad: "set (push_ad ad ads) = insert ad {a \<in> set ads. \<not> same_ad a ad}"
  by (auto simp: push_ad_def)

definition latest_ad :: "snapshot_advertisement list \<Rightarrow> group_id \<Rightarrow> string \<Rightarrow> snapshot_advertisement option" where
  "latest_ad ads g sid = find (\<lambda>a. ad_group a = g \<and> ad_snapshot_id a = sid) (rev ads)"

lemma latest_ad_push:
  "latest_ad (push_ad ad ads) g sid =
     (if ad_group ad = g \<and> ad_snapshot_id ad = sid then Some ad else latest_ad ads g sid)"
proof -
  have "find P (filter Q xs) = find P xs" if "\<And>x. P x \<Longrightarrow> Q x"
    for P Q and xs :: "snapshot_advertisement list"
    using that by (induction xs) auto
  from this [of "\<lambda>a. ad_group a = g \<and> ad_snapshot_id a = sid" "\<lambda>a. \<not> same_ad a ad" "rev ads"]
  show ?thesis by (auto simp: latest_ad_def push_ad_def same_ad_def rev_filter)
qed

fun record_all ::
  "os \<Rightarrow> snapshot_advertisement list codec \<Rightarrow> snapshot_advertisement list \<Rightarrow> snapshot_runtime \<Rightarrow> fs \<Rightarrow>
   snapshot_runtime \<times> fs" where
  "record_all os ac [] rt fs = (rt, fs)"
| "record_all os ac (ad # ads) rt fs =
     (case record_ad os ac ad rt fs of (rt', fs', _) \<Rightarrow> record_all os ac ads rt' fs')"

end
