(* ===== verification/State_Machine.thy ===== *)
theory State_Machine
  imports Prelude
begin

section \<open>multiraft-fsm: the StateMachine trait\<close>

text \<open>
  \<^verbatim>\<open>crates/multiraft-fsm/src/lib.rs\<close>. An implementation of the trait is a
  record of its four methods over a state type \<open>'s\<close>. The contract a pluggable
  machine has to meet for replication to be correct is the locale
  \<open>state_machine\<close>: applying depends on, and changes, only the part of the state
  that belongs to the group (\<open>view\<close>), and restoring a snapshot reproduces that
  part. Replay with a snapshot in the middle is proved correct inside it. The methods
  take the context \<open>'c\<close> of the implementation (its encoders) as an argument, so
  that one interpretation covers every context that satisfies \<open>ok\<close>.
\<close>

record apply_out =
  out_effects :: bytes

definition apply_out_default :: apply_out where
  "apply_out_default = \<lparr>out_effects = []\<rparr>"

record ('s, 'e) fsm_ops =
  fsm_apply :: "group_id \<Rightarrow> u64 \<Rightarrow> bytes \<Rightarrow> 's \<Rightarrow> ('e, apply_out) outcome \<times> 's"
  fsm_snapshot :: "group_id \<Rightarrow> 's \<Rightarrow> ('e, bytes) outcome"
  fsm_restore :: "group_id \<Rightarrow> bytes \<Rightarrow> 's \<Rightarrow> ('e, unit) outcome \<times> 's"
  fsm_freeze_for_snapshot :: "group_id \<Rightarrow> 's \<Rightarrow> ('e, bytes) outcome"

text \<open>The trait's default \<^verbatim>\<open>freeze_for_snapshot\<close> is \<^verbatim>\<open>snapshot\<close>.\<close>

definition default_freeze ::
  "(group_id \<Rightarrow> 's \<Rightarrow> ('e, bytes) outcome) \<Rightarrow> group_id \<Rightarrow> 's \<Rightarrow> ('e, bytes) outcome" where
  "default_freeze snap g s = snap g s"

text \<open>Applying a sequence of indexed commands, stopping at the first failure.\<close>

fun fsm_run :: "('s, 'e) fsm_ops \<Rightarrow> group_id \<Rightarrow> (u64 \<times> bytes) list \<Rightarrow> 's \<Rightarrow> ('e, unit) outcome \<times> 's" where
  "fsm_run ops g [] s = (Ok (), s)"
| "fsm_run ops g ((i, d) # xs) s =
     (case fsm_apply ops g i d s of
        (Ok _, s') \<Rightarrow> fsm_run ops g xs s'
      | (Err e, s') \<Rightarrow> (Err e, s')
      | (Panicked, s') \<Rightarrow> (Panicked, s'))"

lemma fsm_run_append:
  "fsm_run ops g (xs @ ys) s =
     (case fsm_run ops g xs s of
        (Ok _, s') \<Rightarrow> fsm_run ops g ys s'
      | (Err e, s') \<Rightarrow> (Err e, s')
      | (Panicked, s') \<Rightarrow> (Panicked, s'))"
proof (induction xs arbitrary: s)
  case Nil
  then show ?case by simp
next
  case (Cons x xs)
  then show ?case by (cases x) (simp split: prod.split outcome.split)
qed

locale state_machine =
  fixes ok :: "'c \<Rightarrow> bool"
    and ops :: "'c \<Rightarrow> ('s, 'e) fsm_ops"
    and view :: "'s \<Rightarrow> group_id \<Rightarrow> 'v"
  assumes apply_cong: "ok c \<Longrightarrow> view s g = view t g \<Longrightarrow>
        fst (fsm_apply (ops c) g i d s) = fst (fsm_apply (ops c) g i d t) \<and>
        view (snd (fsm_apply (ops c) g i d s)) g = view (snd (fsm_apply (ops c) g i d t)) g"
    and apply_frame: "ok c \<Longrightarrow> h \<noteq> g \<Longrightarrow> view (snd (fsm_apply (ops c) g i d s)) h = view s h"
    and snapshot_total: "ok c \<Longrightarrow> \<exists>b. fsm_snapshot (ops c) g s = Ok b"
    and restore_snapshot: "ok c \<Longrightarrow> fsm_snapshot (ops c) g s = Ok b \<Longrightarrow>
        fst (fsm_restore (ops c) g b t) = Ok () \<and>
        view (snd (fsm_restore (ops c) g b t)) g = view s g"
    and restore_frame: "ok c \<Longrightarrow> h \<noteq> g \<Longrightarrow> view (snd (fsm_restore (ops c) g b s)) h = view s h"
    and freeze_snapshot: "ok c \<Longrightarrow> fsm_freeze_for_snapshot (ops c) g s = fsm_snapshot (ops c) g s"
begin

lemma run_cong:
  "ok c \<Longrightarrow> view s g = view t g \<Longrightarrow>
     fst (fsm_run (ops c) g xs s) = fst (fsm_run (ops c) g xs t) \<and>
     view (snd (fsm_run (ops c) g xs s)) g = view (snd (fsm_run (ops c) g xs t)) g"
proof (induction xs arbitrary: s t)
  case Nil
  then show ?case by simp
next
  case (Cons x xs)
  obtain i d where x: "x = (i, d)" by (cases x)
  obtain r s' where s': "fsm_apply (ops c) g i d s = (r, s')" by (cases "fsm_apply (ops c) g i d s")
  obtain q t' where t': "fsm_apply (ops c) g i d t = (q, t')" by (cases "fsm_apply (ops c) g i d t")
  have "r = q" "view s' g = view t' g"
    using apply_cong [OF Cons.prems, of i d] s' t' by simp_all
  with Cons.IH [OF Cons.prems(1), of s' t'] x s' t' show ?case
    by (cases r) auto
qed

lemma run_frame: "ok c \<Longrightarrow> h \<noteq> g \<Longrightarrow> view (snd (fsm_run (ops c) g xs s)) h = view s h"
proof (induction xs arbitrary: s)
  case Nil
  then show ?case by simp
next
  case (Cons x xs)
  obtain i d where x: "x = (i, d)" by (cases x)
  obtain r s' where s': "fsm_apply (ops c) g i d s = (r, s')" by (cases "fsm_apply (ops c) g i d s")
  with apply_frame [OF Cons.prems, of i d s] Cons x show ?case by (cases r) auto
qed

text \<open>A snapshot taken after a prefix stands for the prefix, on any other copy of the machine.\<close>

lemma snapshot_replaces_prefix:
  assumes "ok c"
    and "fsm_run (ops c) g xs s = (Ok (), s1)"
    and "fsm_snapshot (ops c) g s1 = Ok b"
    and "fsm_restore (ops c) g b t = (r, t1)"
  shows "r = Ok ()"
    and "fst (fsm_run (ops c) g ys t1) = fst (fsm_run (ops c) g (xs @ ys) s)"
    and "view (snd (fsm_run (ops c) g ys t1)) g = view (snd (fsm_run (ops c) g (xs @ ys) s)) g"
proof -
  have r: "r = Ok ()" and v: "view t1 g = view s1 g"
    using restore_snapshot [OF assms(1,3), of t] assms(4) by simp_all
  show "r = Ok ()" by (fact r)
  show "fst (fsm_run (ops c) g ys t1) = fst (fsm_run (ops c) g (xs @ ys) s)"
    and "view (snd (fsm_run (ops c) g ys t1)) g = view (snd (fsm_run (ops c) g (xs @ ys) s)) g"
    using run_cong [OF assms(1) v, of ys] assms(2) by (simp_all add: fsm_run_append)
qed

end

end
