(* ===== verification/Sm_Bridge.thy ===== *)
theory Sm_Bridge
  imports Snapshot_Catalog State_Machine
begin

section \<open>multiraft-store: the state-machine bridge\<close>

text \<open>
  \<^verbatim>\<open>crates/multiraft-store/src/sm_bridge.rs\<close>: the openraft
  \<open>RaftStateMachine\<close> over a pluggable machine. \<open>sm_inner\<close> is what the
  source keeps behind its mutex; each definition below is one critical section or a
  method built of them. The context holds the machine's methods, the openraft types, the
  catalog's parameters and how an error of the machine prints.
\<close>

record sm_options =
  opt_allow_hot_build :: bool
  opt_catalog :: "snapshot_catalog option"
  opt_on_standby_trigger :: bool

record ('l, 'm) stored_snapshot =
  ss_meta :: "('l, 'm) snapshot_meta"
  ss_data :: bytes

record ('s, 'l, 'm) sm_inner =
  sm_group_id :: group_id
  sm_last_applied_log :: "'l log_id option"
  sm_last_membership :: "('l, 'm) stored_membership"
  sm_fsm :: 's
  sm_snapshot_idx :: u64
  sm_current_snapshot :: "('l, 'm) stored_snapshot option"

record ('s, 'e, 'l, 'm) sm_ctx =
  sx_profile :: profile
  sx_ops :: "('s, 'e) fsm_ops"
  sx_types :: "('l, 'm) raft_types"
  sx_catalog :: catalog_env
  sx_show_err :: "'e \<Rightarrow> string"
  sx_join_error :: string

definition sm_inner_new :: "('l, 'm) raft_types \<Rightarrow> group_id \<Rightarrow> 's \<Rightarrow> ('s, 'l, 'm) sm_inner" where
  "sm_inner_new rt g fsm =
     \<lparr>sm_group_id = g, sm_last_applied_log = None, sm_last_membership = default_stored_membership rt,
      sm_fsm = fsm, sm_snapshot_idx = 0, sm_current_snapshot = None\<rparr>"

text \<open>\<^verbatim>\<open>StateMachineStore::new\<close>: the options of a plain store.\<close>

definition sm_default_options :: sm_options where
  "sm_default_options =
     \<lparr>opt_allow_hot_build = True, opt_catalog = None, opt_on_standby_trigger = False\<rparr>"

text \<open>\<^verbatim>\<open>map_err(|e| io::Error::new(kind, e))\<close> on an error of the machine.\<close>

definition fsm_io :: "('s, 'e, 'l, 'm) sm_ctx \<Rightarrow> io_kind \<Rightarrow> ('e, 'a) outcome \<Rightarrow> (io_error, 'a) outcome" where
  "fsm_io cx kind r = map_err (\<lambda>e. IoError kind (sx_show_err cx e)) r"

definition snapshot_of :: "('l, 'm) stored_snapshot \<Rightarrow> ('l, 'm) raft_snapshot" where
  "snapshot_of s = \<lparr>snap_meta = ss_meta s, snap_data = ss_data s\<rparr>"

text \<open>The log id \<^verbatim>\<open>LogId::new(LeaderId::new_committed(term, 0), index)\<close>.\<close>

definition durable_log_id :: "('l, 'm) raft_types \<Rightarrow> u64 \<Rightarrow> u64 \<Rightarrow> 'l log_id" where
  "durable_log_id rt last_index last_term = LogId (rt_new_committed rt last_term 0) last_index"

subsection \<open>Applying\<close>

text \<open>
  The stream of openraft: entries with an optional responder, or an error. The loop
  returns what was sent to the responders and the triggers collected so far; the
  callbacks run only after the whole batch was applied.
\<close>

type_synonym ('l, 'm, 'r) stream_item = "(io_error, ('l, 'm) entry \<times> 'r option) outcome"

record ('s, 'l, 'm, 'r) apply_state =
  ap_inner :: "('s, 'l, 'm) sm_inner"
  ap_sent :: "('r \<times> response) list"
  ap_pending :: "(group_id \<times> u64 \<times> u64) list"

definition apply_payload ::
  "('s, 'e, 'l, 'm) sm_ctx \<Rightarrow> sm_options \<Rightarrow> ('l, 'm) entry \<Rightarrow> ('s, 'l, 'm, 'r) apply_state \<Rightarrow>
   (io_error, response) outcome \<times> ('s, 'l, 'm, 'r) apply_state" where
  "apply_payload cx opts ent st =
     (let inner = (ap_inner st)\<lparr>sm_last_applied_log := Some (ent_log_id ent)\<rparr>;
          st1 = st\<lparr>ap_inner := inner\<rparr>;
          group_id = sm_group_id inner;
          index = lid_index (ent_log_id ent) in
      case ent_payload ent of
        Blank \<Rightarrow> (Ok response_none, st1)
      | Normal req \<Rightarrow>
          if is_standby_snapshot_trigger (req_data req) then
            let tm = rt_term (sx_types cx) (lid_leader (ent_log_id ent)) in
            (Ok response_none,
             if opt_on_standby_trigger opts then st1\<lparr>ap_pending := ap_pending st1 @ [(group_id, index, tm)]\<rparr>
             else st1)
          else
            (case fsm_apply (sx_ops cx) group_id index (req_data req) (sm_fsm inner) of
               (r, fsm') \<Rightarrow>
                 let st2 = st1\<lparr>ap_inner := inner\<lparr>sm_fsm := fsm'\<rparr>\<rparr> in
                 (case fsm_io cx OtherKind r of
                    Ok out \<Rightarrow> (Ok (response_new (out_effects out)), st2)
                  | Err e \<Rightarrow> (Err e, st2)
                  | Panicked \<Rightarrow> (Panicked, st2)))
      | Membership mem \<Rightarrow>
          (Ok response_none,
           st1\<lparr>ap_inner := inner\<lparr>sm_last_membership :=
             \<lparr>stm_log_id = Some (ent_log_id ent), stm_membership = mem\<rparr>\<rparr>\<rparr>))"

definition send_response ::
  "'r option \<Rightarrow> response \<Rightarrow> ('s, 'l, 'm, 'r) apply_state \<Rightarrow> ('s, 'l, 'm, 'r) apply_state" where
  "send_response responder response st =
     (case responder of
        Some r \<Rightarrow> st\<lparr>ap_sent := ap_sent st @ [(r, response)]\<rparr>
      | None \<Rightarrow> st)"

fun apply_loop ::
  "('s, 'e, 'l, 'm) sm_ctx \<Rightarrow> sm_options \<Rightarrow> ('l, 'm, 'r) stream_item list \<Rightarrow>
   ('s, 'l, 'm, 'r) apply_state \<Rightarrow> (io_error, unit) outcome \<times> ('s, 'l, 'm, 'r) apply_state" where
  "apply_loop cx opts [] st = (Ok (), st)"
| "apply_loop cx opts (Err e # items) st = (Err e, st)"
| "apply_loop cx opts (Panicked # items) st = (Panicked, st)"
| "apply_loop cx opts (Ok (ent, responder) # items) st =
     (case apply_payload cx opts ent st of
        (Ok response, st') \<Rightarrow>
          apply_loop cx opts items (send_response responder response st')
      | (Err e, st') \<Rightarrow> (Err e, st')
      | (Panicked, st') \<Rightarrow> (Panicked, st'))"

text \<open>The result, the new state, the responses sent and the trigger callbacks made.\<close>

definition sm_apply ::
  "('s, 'e, 'l, 'm) sm_ctx \<Rightarrow> sm_options \<Rightarrow> ('l, 'm, 'r) stream_item list \<Rightarrow> ('s, 'l, 'm) sm_inner \<Rightarrow>
   (io_error, unit) outcome \<times> ('s, 'l, 'm) sm_inner \<times> ('r \<times> response) list \<times> (group_id \<times> u64 \<times> u64) list" where
  "sm_apply cx opts items inner =
     (case apply_loop cx opts items \<lparr>ap_inner = inner, ap_sent = [], ap_pending = []\<rparr> of
        (Ok _, st) \<Rightarrow> (Ok (), ap_inner st, ap_sent st, if opt_on_standby_trigger opts then ap_pending st else [])
      | (Err e, st) \<Rightarrow> (Err e, ap_inner st, ap_sent st, [])
      | (Panicked, st) \<Rightarrow> (Panicked, ap_inner st, ap_sent st, []))"

definition sm_applied_state ::
  "('s, 'l, 'm) sm_inner \<Rightarrow> 'l log_id option \<times> ('l, 'm) stored_membership" where
  "sm_applied_state inner = (sm_last_applied_log inner, sm_last_membership inner)"

subsection \<open>Snapshots out\<close>

definition snapshot_from_catalog ::
  "os \<Rightarrow> ('s, 'e, 'l, 'm) sm_ctx \<Rightarrow> sm_options \<Rightarrow> group_id \<Rightarrow> ('l, 'm) raft_snapshot option io" where
  "snapshot_from_catalog os cx opts g =
     (case opt_catalog opts of
        None \<Rightarrow> io_return None
      | Some catalog \<Rightarrow>
          io_bind (catalog_latest os (sx_catalog cx) catalog g) (\<lambda>found.
          case found of
            None \<Rightarrow> io_return None
          | Some entry \<Rightarrow>
              io_bind (catalog_read os (sx_catalog cx) catalog g (ce_snapshot_id entry)) (\<lambda>data.
              case data of
                None \<Rightarrow> io_return None
              | Some data \<Rightarrow>
                  io_return (Some
                    \<lparr>snap_meta =
                       \<lparr>meta_last_log_id = Some (durable_log_id (sx_types cx) (ce_last_index entry) (ce_last_term entry)),
                        meta_last_membership = default_stored_membership (sx_types cx),
                        meta_snapshot_id = ce_snapshot_id entry\<rparr>,
                     snap_data = data\<rparr>))))"

definition next_snapshot_idx :: "profile \<Rightarrow> ('s, 'l, 'm) sm_inner \<Rightarrow> u64 option \<times> ('s, 'l, 'm) sm_inner" where
  "next_snapshot_idx prof inner =
     (add_u64 prof (sm_snapshot_idx inner) 1, inner\<lparr>sm_snapshot_idx := sm_snapshot_idx inner + 1\<rparr>)"

definition hot_snapshot_id :: "('l, 'm) raft_types \<Rightarrow> 'l log_id option \<Rightarrow> u64 \<Rightarrow> string" where
  "hot_snapshot_id rt last_applied snapshot_idx =
     (case last_applied of
        Some l \<Rightarrow> rt_show_leader rt (lid_leader l) @ ''-'' @ show_u64 (lid_index l) @ ''-'' @ show_u64 snapshot_idx
      | None \<Rightarrow> ''--'' @ show_u64 snapshot_idx)"

definition no_snapshot_error :: io_error where
  "no_snapshot_error = IoError NotFound
     ''no catalog/installed snapshot available (StandbyOffload; hot build disabled)''"

definition build_snapshot ::
  "os \<Rightarrow> ('s, 'e, 'l, 'm) sm_ctx \<Rightarrow> sm_options \<Rightarrow> ('s, 'l, 'm) sm_inner \<Rightarrow> fs \<Rightarrow>
   (io_error, ('l, 'm) raft_snapshot) outcome \<times> ('s, 'l, 'm) sm_inner \<times> fs" where
  "build_snapshot os cx opts inner fs =
     (if \<not> opt_allow_hot_build opts then
        (case sm_current_snapshot inner of
           Some snapshot \<Rightarrow> (Ok (snapshot_of snapshot), inner, fs)
         | None \<Rightarrow>
             (case snapshot_from_catalog os cx opts (sm_group_id inner) fs of
                (Ok (Some snap), fs') \<Rightarrow> (Ok snap, inner, fs')
              | (Ok None, fs') \<Rightarrow> (Err no_snapshot_error, inner, fs')
              | (Err e, fs') \<Rightarrow> (Err e, inner, fs')
              | (Panicked, fs') \<Rightarrow> (Panicked, inner, fs')))
      else
        (case fsm_io cx OtherKind (fsm_freeze_for_snapshot (sx_ops cx) (sm_group_id inner) (sm_fsm inner)) of
           Err e \<Rightarrow> (Err e, inner, fs)
         | Panicked \<Rightarrow> (Panicked, inner, fs)
         | Ok data \<Rightarrow>
             (case next_snapshot_idx (sx_profile cx) inner of
                (None, inner1) \<Rightarrow> (Panicked, inner1, fs)
              | (Some snapshot_idx, inner1) \<Rightarrow>
                  let meta = \<lparr>meta_last_log_id = sm_last_applied_log inner1,
                              meta_last_membership = sm_last_membership inner1,
                              meta_snapshot_id = hot_snapshot_id (sx_types cx) (sm_last_applied_log inner1) snapshot_idx\<rparr>
                  in (Ok \<lparr>snap_meta = meta, snap_data = data\<rparr>,
                      inner1\<lparr>sm_current_snapshot := Some \<lparr>ss_meta = meta, ss_data = data\<rparr>\<rparr>, fs))))"

definition get_current_snapshot ::
  "os \<Rightarrow> ('s, 'e, 'l, 'm) sm_ctx \<Rightarrow> sm_options \<Rightarrow> ('s, 'l, 'm) sm_inner \<Rightarrow> ('l, 'm) raft_snapshot option io" where
  "get_current_snapshot os cx opts inner =
     (case sm_current_snapshot inner of
        Some snapshot \<Rightarrow> io_return (Some (snapshot_of snapshot))
      | None \<Rightarrow> snapshot_from_catalog os cx opts (sm_group_id inner))"

text \<open>
  The steps of \<^verbatim>\<open>build_standby_snapshot_async\<close>: freezing under the lock,
  writing the catalog on a blocking thread, reading the membership under the lock, and
  publishing under the lock, which is taken anew.
\<close>

definition standby_freeze ::
  "('s, 'e, 'l, 'm) sm_ctx \<Rightarrow> group_id \<Rightarrow> ('s, 'l, 'm) sm_inner \<Rightarrow> (io_error, bytes) outcome" where
  "standby_freeze cx g inner = fsm_io cx OtherKind (fsm_freeze_for_snapshot (sx_ops cx) g (sm_fsm inner))"

definition standby_write ::
  "os \<Rightarrow> ('s, 'e, 'l, 'm) sm_ctx \<Rightarrow> snapshot_catalog \<Rightarrow> group_id \<Rightarrow> u64 \<Rightarrow> u64 \<Rightarrow> bytes \<Rightarrow> catalog_entry io" where
  "standby_write os cx catalog g index tm data fs =
     (case catalog_write os (sx_catalog cx) catalog g index tm (entry_name index tm) data fs of
        (Panicked, fs') \<Rightarrow> (Err (IoError OtherKind (''spawn_blocking: '' @ sx_join_error cx)), fs')
      | res \<Rightarrow> res)"

definition standby_meta ::
  "('s, 'e, 'l, 'm) sm_ctx \<Rightarrow> u64 \<Rightarrow> u64 \<Rightarrow> catalog_entry \<Rightarrow> ('s, 'l, 'm) sm_inner \<Rightarrow> ('l, 'm) snapshot_meta" where
  "standby_meta cx index tm entry inner =
     \<lparr>meta_last_log_id = Some (durable_log_id (sx_types cx) index tm),
      meta_last_membership = sm_last_membership inner,
      meta_snapshot_id = ce_snapshot_id entry\<rparr>"

definition standby_publish ::
  "('l, 'm) snapshot_meta \<Rightarrow> bytes \<Rightarrow> ('s, 'l, 'm) sm_inner \<Rightarrow> ('s, 'l, 'm) sm_inner" where
  "standby_publish meta data inner = inner\<lparr>sm_current_snapshot := Some \<lparr>ss_meta = meta, ss_data = data\<rparr>\<rparr>"

text \<open>
  Between two of these steps other calls may take the lock and change the store, and other
  tasks may change the files, the catalog among them. \<open>task_gaps\<close> is what they do after
  the freeze, after the write, and after the membership was read.
\<close>

type_synonym ('s, 'l, 'm) interference = "('s, 'l, 'm) sm_inner \<times> fs \<Rightarrow> ('s, 'l, 'm) sm_inner \<times> fs"

record ('s, 'l, 'm) task_gaps =
  gap_frozen :: "('s, 'l, 'm) interference"
  gap_written :: "('s, 'l, 'm) interference"
  gap_membership :: "('s, 'l, 'm) interference"

definition no_gaps :: "('s, 'l, 'm) task_gaps" where
  "no_gaps = \<lparr>gap_frozen = (\<lambda>x. x), gap_written = (\<lambda>x. x), gap_membership = (\<lambda>x. x)\<rparr>"

definition build_standby_snapshot_async ::
  "os \<Rightarrow> ('s, 'e, 'l, 'm) sm_ctx \<Rightarrow> ('s, 'l, 'm) task_gaps \<Rightarrow> snapshot_catalog \<Rightarrow>
   group_id \<Rightarrow> u64 \<Rightarrow> u64 \<Rightarrow> ('s, 'l, 'm) sm_inner \<Rightarrow> fs \<Rightarrow>
   (io_error, catalog_entry) outcome \<times> ('s, 'l, 'm) sm_inner \<times> fs" where
  "build_standby_snapshot_async os cx gaps catalog g index tm inner fs =
     (case standby_freeze cx g inner of
        Err e \<Rightarrow> (Err e, inner, fs)
      | Panicked \<Rightarrow> (Panicked, inner, fs)
      | Ok data \<Rightarrow>
          let (inner1, fs1) = gap_frozen gaps (inner, fs);
              (res, fs2) = standby_write os cx catalog g index tm data fs1;
              (inner2, fs3) = gap_written gaps (inner1, fs2)
          in (case res of
                Err e \<Rightarrow> (Err e, inner2, fs3)
              | Panicked \<Rightarrow> (Panicked, inner2, fs3)
              | Ok entry \<Rightarrow>
                  let meta = standby_meta cx index tm entry inner2;
                      (inner3, fs4) = gap_membership gaps (inner2, fs3)
                  in (Ok entry, standby_publish meta data inner3, fs4)))"

subsection \<open>Snapshots in\<close>

definition restore_and_set ::
  "('s, 'e, 'l, 'm) sm_ctx \<Rightarrow> ('l, 'm) snapshot_meta \<Rightarrow> bytes \<Rightarrow> ('s, 'l, 'm) sm_inner \<Rightarrow>
   (io_error, unit) outcome \<times> ('s, 'l, 'm) sm_inner" where
  "restore_and_set cx meta data inner =
     (case fsm_restore (sx_ops cx) (sm_group_id inner) data (sm_fsm inner) of
        (r, fsm') \<Rightarrow>
          (case fsm_io cx InvalidData r of
             Ok _ \<Rightarrow> (Ok (), inner\<lparr>sm_fsm := fsm', sm_last_applied_log := meta_last_log_id meta,
                       sm_last_membership := meta_last_membership meta,
                       sm_current_snapshot := Some \<lparr>ss_meta = meta, ss_data = data\<rparr>\<rparr>)
           | Err e \<Rightarrow> (Err e, inner\<lparr>sm_fsm := fsm'\<rparr>)
           | Panicked \<Rightarrow> (Panicked, inner\<lparr>sm_fsm := fsm'\<rparr>)))"

definition store_in_catalog ::
  "os \<Rightarrow> ('s, 'e, 'l, 'm) sm_ctx \<Rightarrow> sm_options \<Rightarrow> group_id \<Rightarrow> u64 \<Rightarrow> u64 \<Rightarrow> string \<Rightarrow> bytes \<Rightarrow> unit io" where
  "store_in_catalog os cx opts g last_index last_term sid data =
     (case opt_catalog opts of
        None \<Rightarrow> io_return ()
      | Some catalog \<Rightarrow>
          io_bind (catalog_write os (sx_catalog cx) catalog g last_index last_term sid data) (\<lambda>_. io_return ()))"

definition install_durable_snapshot ::
  "os \<Rightarrow> ('s, 'e, 'l, 'm) sm_ctx \<Rightarrow> sm_options \<Rightarrow> u64 \<Rightarrow> u64 \<Rightarrow> bytes \<Rightarrow> ('s, 'l, 'm) sm_inner \<Rightarrow> fs \<Rightarrow>
   (io_error, unit) outcome \<times> ('s, 'l, 'm) sm_inner \<times> fs" where
  "install_durable_snapshot os cx opts last_index last_term data inner fs =
     (let meta = \<lparr>meta_last_log_id = Some (durable_log_id (sx_types cx) last_index last_term),
                  meta_last_membership = default_stored_membership (sx_types cx),
                  meta_snapshot_id = entry_name last_index last_term\<rparr> in
      case restore_and_set cx meta data inner of
        (Ok _, inner') \<Rightarrow>
          (case store_in_catalog os cx opts (sm_group_id inner) last_index last_term
                  (entry_name last_index last_term) data fs of (r, fs') \<Rightarrow> (r, inner', fs'))
      | (Err e, inner') \<Rightarrow> (Err e, inner', fs)
      | (Panicked, inner') \<Rightarrow> (Panicked, inner', fs))"

definition begin_receiving_snapshot :: bytes where
  "begin_receiving_snapshot = []"

definition install_snapshot ::
  "os \<Rightarrow> ('s, 'e, 'l, 'm) sm_ctx \<Rightarrow> sm_options \<Rightarrow> ('l, 'm) snapshot_meta \<Rightarrow> bytes \<Rightarrow>
   ('s, 'l, 'm) sm_inner \<Rightarrow> fs \<Rightarrow> (io_error, unit) outcome \<times> ('s, 'l, 'm) sm_inner \<times> fs" where
  "install_snapshot os cx opts meta data inner fs =
     (case restore_and_set cx meta data inner of
        (Ok _, inner') \<Rightarrow>
          let (last_index, last_term) =
                (case meta_last_log_id meta of
                   Some i \<Rightarrow> (lid_index i, rt_term (sx_types cx) (lid_leader i))
                 | None \<Rightarrow> (0, 0)) in
          (case store_in_catalog os cx opts (sm_group_id inner) last_index last_term (meta_snapshot_id meta) data fs of
             (r, fs') \<Rightarrow> (r, inner', fs'))
      | (Err e, inner') \<Rightarrow> (Err e, inner', fs)
      | (Panicked, inner') \<Rightarrow> (Panicked, inner', fs))"

end
