(* ===== verification/Net_Wire.thy ===== *)
theory Net_Wire
  imports Core_Types BTree_Map Serde
begin

section \<open>multiraft-net: wire encoding, handlers and the node dispatcher\<close>

text \<open>
  \<^verbatim>\<open>lib.rs\<close> (\<^verbatim>\<open>encode\<close>, \<^verbatim>\<open>decode\<close>), \<^verbatim>\<open>api.rs\<close>,
  \<^verbatim>\<open>node.rs\<close> and \<^verbatim>\<open>grpc/server.rs\<close>. A raft handle is openraft's:
  its state is the type variable \<open>'h\<close> and the four protocol operations are the
  parameter \<open>raft_ops\<close>. All requests share the type \<open>'q\<close> and all responses
  \<open>'p\<close>; each path has its own encoder (\<open>wire\<close>), as each has its own type in
  the source. JSON text is kept as the bytes of its UTF-8 encoding.
\<close>

subsection \<open>UTF-8\<close>

definition byte_in :: "nat \<Rightarrow> nat \<Rightarrow> u8 \<Rightarrow> bool" where
  "byte_in lo hi b \<longleftrightarrow> lo \<le> unat b \<and> unat b \<le> hi"

abbreviation cont_byte :: "u8 \<Rightarrow> bool" where
  "cont_byte \<equiv> byte_in 128 191"

text \<open>\<^verbatim>\<open>String::from_utf8\<close> accepts exactly the well-formed sequences of the Unicode standard.\<close>

fun utf8_valid :: "bytes \<Rightarrow> bool" where
  "utf8_valid [] = True"
| "utf8_valid (a # r) =
     (if unat a < 128 then utf8_valid r
      else case r of
        [] \<Rightarrow> False
      | b # r2 \<Rightarrow>
          if byte_in 194 223 a \<and> cont_byte b then utf8_valid r2
          else case r2 of
            [] \<Rightarrow> False
          | c # r3 \<Rightarrow>
              if cont_byte c \<and>
                 (a = 224 \<and> byte_in 160 191 b \<or> byte_in 225 236 a \<and> cont_byte b \<or>
                  a = 237 \<and> byte_in 128 159 b \<or> byte_in 238 239 a \<and> cont_byte b) then utf8_valid r3
              else case r3 of
                [] \<Rightarrow> False
              | d # r4 \<Rightarrow>
                  if cont_byte c \<and> cont_byte d \<and>
                     (a = 240 \<and> byte_in 144 191 b \<or> byte_in 241 243 a \<and> cont_byte b \<or>
                      a = 244 \<and> byte_in 128 143 b) then utf8_valid r4
                  else False)"

lemma utf8_valid_ascii: "(\<And>b. b \<in> set s \<Longrightarrow> unat b < 128) \<Longrightarrow> utf8_valid s"
  by (induction s) auto

subsection \<open>encode and decode\<close>

text \<open>Both unwrap the serde result: a failure is a panic, \<open>None\<close>.\<close>

definition encode :: "'a codec \<Rightarrow> 'a \<Rightarrow> bytes option" where
  "encode c t = (case to_vec c t of Ok b \<Rightarrow> Some b | _ \<Rightarrow> None)"

definition decode :: "'a codec \<Rightarrow> bytes \<Rightarrow> 'a option" where
  "decode c s = (case from_slice c s of Ok v \<Rightarrow> Some v | _ \<Rightarrow> None)"

lemma decode_encode: "codec_ok c \<Longrightarrow> encode c t = Some b \<Longrightarrow> decode c b = Some t"
  by (auto simp: encode_def decode_def split: outcome.splits dest: codec_ok_decode)

lemma encode_total:
  assumes "codec_ok c"
  obtains b where "encode c t = Some b"
proof -
  obtain b where "to_vec c t = Ok b" using assms by (rule codec_okE)
  then show ?thesis by (intro that) (simp add: encode_def)
qed

subsection \<open>openraft errors and operations\<close>

datatype 'x fatal = Stopped | OtherFatal 'x

text \<open>\<^verbatim>\<open>RaftError<Infallible>\<close>: the API error is uninhabited.\<close>

datatype 'x raft_error = Fatal "'x fatal"

datatype ('e, 'a) result = RPCOk 'a | RPCErr 'e

fun map_rpc_err :: "('e \<Rightarrow> 'f) \<Rightarrow> ('e, 'a) result \<Rightarrow> ('f, 'a) result" where
  "map_rpc_err f (RPCOk v) = RPCOk v"
| "map_rpc_err f (RPCErr e) = RPCErr (f e)"

record ('h, 'q, 'p, 'x) raft_ops =
  ro_vote :: "'q \<Rightarrow> 'h \<Rightarrow> ('x raft_error, 'p) result \<times> 'h"
  ro_append_entries :: "'q \<Rightarrow> 'h \<Rightarrow> ('x raft_error, 'p) result \<times> 'h"
  ro_install_full_snapshot :: "'q \<Rightarrow> 'h \<Rightarrow> ('x fatal, 'p) result \<times> 'h"
  ro_handle_transfer_leader :: "'q \<Rightarrow> 'h \<Rightarrow> ('x fatal, 'p) result \<times> 'h"

record ('q, 'p, 'x) wire =
  w_vote_req :: "'q codec"
  w_append_req :: "'q codec"
  w_snapshot_req :: "'q codec"
  w_transfer_req :: "'q codec"
  w_vote_resp :: "('x raft_error, 'p) result codec"
  w_append_resp :: "('x raft_error, 'p) result codec"
  w_snapshot_resp :: "('x raft_error, 'p) result codec"
  w_transfer_resp :: "('x raft_error, 'p) result codec"
  w_unit_resp :: "('x raft_error, unit) result codec"

subsection \<open>api.rs\<close>

text \<open>A handler: decode the request, run the operation, encode its result.\<close>

definition api_call ::
  "'q codec \<Rightarrow> ('x raft_error, 'p) result codec \<Rightarrow> ('q \<Rightarrow> 'h \<Rightarrow> ('x raft_error, 'p) result \<times> 'h) \<Rightarrow>
   bytes \<Rightarrow> 'h \<Rightarrow> bytes option \<times> 'h" where
  "api_call cq cp f req h =
     (case decode cq req of
        Some q \<Rightarrow> (case f q h of (res, h') \<Rightarrow> (encode cp res, h'))
      | None \<Rightarrow> (None, h))"

definition api_vote ::
  "('q, 'p, 'x) wire \<Rightarrow> ('h, 'q, 'p, 'x) raft_ops \<Rightarrow> bytes \<Rightarrow> 'h \<Rightarrow> bytes option \<times> 'h" where
  "api_vote w ro = api_call (w_vote_req w) (w_vote_resp w) (ro_vote ro)"

definition api_append ::
  "('q, 'p, 'x) wire \<Rightarrow> ('h, 'q, 'p, 'x) raft_ops \<Rightarrow> bytes \<Rightarrow> 'h \<Rightarrow> bytes option \<times> 'h" where
  "api_append w ro = api_call (w_append_req w) (w_append_resp w) (ro_append_entries ro)"

definition api_snapshot ::
  "('q, 'p, 'x) wire \<Rightarrow> ('h, 'q, 'p, 'x) raft_ops \<Rightarrow> bytes \<Rightarrow> 'h \<Rightarrow> bytes option \<times> 'h" where
  "api_snapshot w ro =
     api_call (w_snapshot_req w) (w_snapshot_resp w)
       (\<lambda>q h. case ro_install_full_snapshot ro q h of (res, h') \<Rightarrow> (map_rpc_err Fatal res, h'))"

definition api_transfer_leader ::
  "('q, 'p, 'x) wire \<Rightarrow> ('h, 'q, 'p, 'x) raft_ops \<Rightarrow> bytes \<Rightarrow> 'h \<Rightarrow> bytes option \<times> 'h" where
  "api_transfer_leader w ro =
     api_call (w_transfer_req w) (w_transfer_resp w)
       (\<lambda>q h. case ro_handle_transfer_leader ro q h of (res, h') \<Rightarrow> (map_rpc_err Fatal res, h'))"

text \<open>What a node answers for a group it does not have and for a path it does not know.\<close>

definition stopped_reply :: "('q, 'p, 'x) wire \<Rightarrow> bytes option" where
  "stopped_reply w = encode (w_unit_resp w) (RPCErr (Fatal Stopped))"

text \<open>The \<^verbatim>\<open>match path\<close> that \<^verbatim>\<open>Node::run\<close> and \<^verbatim>\<open>demux_raft_call\<close> share.\<close>

definition dispatch ::
  "('q, 'p, 'x) wire \<Rightarrow> ('h, 'q, 'p, 'x) raft_ops \<Rightarrow> string \<Rightarrow> bytes \<Rightarrow> 'h \<Rightarrow> bytes option \<times> 'h" where
  "dispatch w ro path payload h =
     (if path = ''/raft/append'' then api_append w ro payload h
      else if path = ''/raft/snapshot'' then api_snapshot w ro payload h
      else if path = ''/raft/vote'' then api_vote w ro payload h
      else if path = ''/raft/transfer_leader'' then api_transfer_leader w ro payload h
      else (stopped_reply w, h))"

subsection \<open>node.rs\<close>

record 'h group_app =
  ga_node_id :: node_id
  ga_group_id :: group_id
  ga_raft :: 'h

type_synonym 'h group_map = "(group_id, 'h group_app) btree_map"

text \<open>\<open>nd_running\<close>: the receive loop is alive and with it the receiving end of the channel.\<close>

record 'h node =
  nd_node_id :: node_id
  nd_groups :: "'h group_map"
  nd_running :: bool

definition node_new :: "node_id \<Rightarrow> 'h group_map \<Rightarrow> 'h node" where
  "node_new nid groups = \<lparr>nd_node_id = nid, nd_groups = groups, nd_running = True\<rparr>"

definition node_add_group :: "group_id \<Rightarrow> 'h \<Rightarrow> 'h node \<Rightarrow> 'h node" where
  "node_add_group g raft nd =
     nd\<lparr>nd_groups := bt_insert g \<lparr>ga_node_id = nd_node_id nd, ga_group_id = g, ga_raft = raft\<rparr> (nd_groups nd)\<rparr>"

definition node_get_raft :: "group_id \<Rightarrow> 'h node \<Rightarrow> 'h option" where
  "node_get_raft g nd = map_option ga_raft (bt_get (nd_groups nd) g)"

record node_message =
  msg_group_id :: group_id
  msg_path :: string
  msg_payload :: bytes

definition set_raft :: "group_id \<Rightarrow> 'h \<Rightarrow> 'h group_map \<Rightarrow> 'h group_map" where
  "set_raft g h m = (case bt_get m g of None \<Rightarrow> m | Some ga \<Rightarrow> bt_insert g (ga\<lparr>ga_raft := h\<rparr>) m)"

text \<open>
  One iteration of \<^verbatim>\<open>Node::run\<close>: \<open>Some\<close> is what the sender's one-shot
  channel receives; \<open>None\<close> when the handler panics, which drops the one-shot
  sender and the receive loop with it.
\<close>

definition node_handle ::
  "('q, 'p, 'x) wire \<Rightarrow> ('h, 'q, 'p, 'x) raft_ops \<Rightarrow> node_message \<Rightarrow> 'h node \<Rightarrow> bytes option \<times> 'h node" where
  "node_handle w ro msg nd =
     (let (res, groups) =
        (case bt_get (nd_groups nd) (msg_group_id msg) of
           None \<Rightarrow> (stopped_reply w, nd_groups nd)
         | Some g \<Rightarrow>
             (case dispatch w ro (msg_path msg) (msg_payload msg) (ga_raft g) of
                (res, h') \<Rightarrow> (res, set_raft (msg_group_id msg) h' (nd_groups nd))))
      in case res of
           Some b \<Rightarrow> (Some b, nd\<lparr>nd_groups := groups\<rparr>)
         | None \<Rightarrow> (None, nd\<lparr>nd_groups := groups, nd_running := False\<rparr>))"

subsection \<open>grpc/server.rs\<close>

record raft_request =
  rq_group_id :: group_id
  rq_path :: string
  rq_payload :: bytes

datatype grpc_status = InvalidArgument

definition replied :: "bytes option \<Rightarrow> (grpc_status, bytes) outcome" where
  "replied res = (case res of Some b \<Rightarrow> Ok b | None \<Rightarrow> Panicked)"

definition demux_raft_call ::
  "('q, 'p, 'x) wire \<Rightarrow> ('h, 'q, 'p, 'x) raft_ops \<Rightarrow> raft_request \<Rightarrow> 'h group_map \<Rightarrow>
   (grpc_status, bytes) outcome \<times> 'h group_map" where
  "demux_raft_call w ro req groups =
     (case bt_get groups (rq_group_id req) of
        None \<Rightarrow> (replied (stopped_reply w), groups)
      | Some g \<Rightarrow>
          if \<not> utf8_valid (rq_payload req) then (Err InvalidArgument, groups)
          else (case dispatch w ro (rq_path req) (rq_payload req) (ga_raft g) of
                  (res, h') \<Rightarrow> (replied res, set_raft (rq_group_id req) h' groups)))"

end
