(* ===== verification/Net_Router.thy ===== *)
theory Net_Router
  imports Net_Wire
begin

section \<open>multiraft-net: the in-process router and the gRPC router\<close>

text \<open>
  \<^verbatim>\<open>conn_metrics.rs\<close>, \<^verbatim>\<open>router.rs\<close>, \<^verbatim>\<open>network.rs\<close> and
  \<^verbatim>\<open>grpc/router.rs\<close>. The in-process fabric is the router's table of channels
  together with the node at the receiving end of each channel; a send is the enqueueing of
  a message and the iteration of the node's receive loop that answers it. For gRPC the
  connection and the remote call are parameters, and concurrent \<^verbatim>\<open>channel_for\<close>
  calls are a step relation over their critical sections.
\<close>

subsection \<open>conn_metrics.rs\<close>

type_synonym conn_metrics = "node_id set"

definition conn_metrics_new :: conn_metrics where
  "conn_metrics_new = {}"

definition record_peer :: "node_id \<Rightarrow> conn_metrics \<Rightarrow> conn_metrics" where
  "record_peer peer m = insert peer m"

definition metrics_peer_links :: "conn_metrics \<Rightarrow> nat" where
  "metrics_peer_links m = card m"

subsection \<open>router.rs\<close>

type_synonym chan = nat

record router =
  rr_nodes :: "(node_id, chan) btree_map"
  rr_metrics :: conn_metrics

definition router_new :: router where
  "router_new = \<lparr>rr_nodes = [], rr_metrics = conn_metrics_new\<rparr>"

definition register_node :: "node_id \<Rightarrow> chan \<Rightarrow> router \<Rightarrow> router" where
  "register_node nid tx r =
     (let r1 = r\<lparr>rr_nodes := bt_insert nid tx (rr_nodes r)\<rparr>
      in r1\<lparr>rr_metrics := record_peer nid (rr_metrics r1)\<rparr>)"

definition unregister_node :: "node_id \<Rightarrow> router \<Rightarrow> chan option \<times> router" where
  "unregister_node nid r = (bt_get (rr_nodes r) nid, r\<lparr>rr_nodes := bt_remove nid (rr_nodes r)\<rparr>)"

definition unique_peer_links :: "router \<Rightarrow> nat" where
  "unique_peer_links r = metrics_peer_links (rr_metrics r)"

definition has_node :: "node_id \<Rightarrow> router \<Rightarrow> bool" where
  "has_node nid r = bt_contains_key (rr_nodes r) nid"

text \<open>The fabric: the router, the receiving end of every channel, and a supply of channels.\<close>

record 'h fabric =
  fb_router :: router
  fb_chans :: "chan \<rightharpoonup> 'h node"
  fb_next :: chan

definition fabric_new :: "'h fabric" where
  "fabric_new = \<lparr>fb_router = router_new, fb_chans = Map.empty, fb_next = 0\<rparr>"

text \<open>\<^verbatim>\<open>Node::new\<close> and \<^verbatim>\<open>Node::with_groups\<close>: a fresh channel, registered under the node id.\<close>

definition fabric_add_node :: "node_id \<Rightarrow> 'h group_map \<Rightarrow> 'h fabric \<Rightarrow> 'h fabric" where
  "fabric_add_node nid groups fb =
     \<lparr>fb_router = register_node nid (fb_next fb) (fb_router fb),
      fb_chans = (fb_chans fb)(fb_next fb \<mapsto> node_new nid groups),
      fb_next = Suc (fb_next fb)\<rparr>"

datatype unreachable = Unreachable string

record 'x net_env =
  ne_show_raft_error :: "'x raft_error \<Rightarrow> string"
  ne_send_error :: string
  ne_canceled :: string
  ne_utf8_error :: "bytes \<Rightarrow> string"

definition receive_result ::
  "('x raft_error \<Rightarrow> string) \<Rightarrow> ('x raft_error, 'p) result codec \<Rightarrow> bytes \<Rightarrow> (unreachable, 'p) outcome" where
  "receive_result show_err cp resp_str =
     (case decode cp resp_str of
        None \<Rightarrow> Panicked
      | Some (RPCOk resp) \<Rightarrow> Ok resp
      | Some (RPCErr e) \<Rightarrow> Err (Unreachable (show_err e)))"

definition router_send ::
  "'x net_env \<Rightarrow> ('q, 'p, 'x) wire \<Rightarrow> ('h, 'q, 'p, 'x) raft_ops \<Rightarrow> 'q codec \<Rightarrow> ('x raft_error, 'p) result codec \<Rightarrow>
   node_id \<Rightarrow> group_id \<Rightarrow> string \<Rightarrow> 'q \<Rightarrow> 'h fabric \<Rightarrow> (unreachable, 'p) outcome \<times> 'h fabric" where
  "router_send ne w ro cq cp to_node to_group path req fb =
     (case encode cq req of
        None \<Rightarrow> (Panicked, fb)
      | Some encoded_req \<Rightarrow>
          (case bt_get (rr_nodes (fb_router fb)) to_node of
             None \<Rightarrow> (Err (Unreachable (''node '' @ show_u64 to_node @ '' not connected'')), fb)
           | Some tx \<Rightarrow>
               let msg = \<lparr>msg_group_id = to_group, msg_path = path, msg_payload = encoded_req\<rparr> in
               (case fb_chans fb tx of
                  None \<Rightarrow> (Err (Unreachable (ne_send_error ne)), fb)
                | Some nd \<Rightarrow>
                    if \<not> nd_running nd then (Err (Unreachable (ne_send_error ne)), fb)
                    else
                      (case node_handle w ro msg nd of
                         (None, nd') \<Rightarrow>
                           (Err (Unreachable (ne_canceled ne)), fb\<lparr>fb_chans := (fb_chans fb)(tx \<mapsto> nd')\<rparr>)
                       | (Some resp_str, nd') \<Rightarrow>
                           (receive_result (ne_show_raft_error ne) cp resp_str,
                            fb\<lparr>fb_chans := (fb_chans fb)(tx \<mapsto> nd')\<rparr>)))))"

subsection \<open>network.rs\<close>

definition router_append_entries ::
  "'x net_env \<Rightarrow> ('q, 'p, 'x) wire \<Rightarrow> ('h, 'q, 'p, 'x) raft_ops \<Rightarrow> node_id \<Rightarrow> group_id \<Rightarrow> 'q \<Rightarrow> 'h fabric \<Rightarrow>
   (unreachable, 'p) outcome \<times> 'h fabric" where
  "router_append_entries ne w ro target g rpc =
     router_send ne w ro (w_append_req w) (w_append_resp w) target g ''/raft/append'' rpc"

definition router_vote ::
  "'x net_env \<Rightarrow> ('q, 'p, 'x) wire \<Rightarrow> ('h, 'q, 'p, 'x) raft_ops \<Rightarrow> node_id \<Rightarrow> group_id \<Rightarrow> 'q \<Rightarrow> 'h fabric \<Rightarrow>
   (unreachable, 'p) outcome \<times> 'h fabric" where
  "router_vote ne w ro target g rpc =
     router_send ne w ro (w_vote_req w) (w_vote_resp w) target g ''/raft/vote'' rpc"

definition router_full_snapshot ::
  "'x net_env \<Rightarrow> ('q, 'p, 'x) wire \<Rightarrow> ('h, 'q, 'p, 'x) raft_ops \<Rightarrow> node_id \<Rightarrow> group_id \<Rightarrow> 'q \<Rightarrow> 'h fabric \<Rightarrow>
   (unreachable, 'p) outcome \<times> 'h fabric" where
  "router_full_snapshot ne w ro target g rpc =
     router_send ne w ro (w_snapshot_req w) (w_snapshot_resp w) target g ''/raft/snapshot'' rpc"

definition router_transfer_leader ::
  "'x net_env \<Rightarrow> ('q, 'p, 'x) wire \<Rightarrow> ('h, 'q, 'p, 'x) raft_ops \<Rightarrow> node_id \<Rightarrow> group_id \<Rightarrow> 'q \<Rightarrow> 'h fabric \<Rightarrow>
   (unreachable, 'p) outcome \<times> 'h fabric" where
  "router_transfer_leader ne w ro target g req =
     router_send ne w ro (w_transfer_req w) (w_transfer_resp w) target g ''/raft/transfer_leader'' req"

text \<open>A constant retry delay in milliseconds, for both routers.\<close>

definition backoff_ms :: "nat \<Rightarrow> nat" where
  "backoff_ms attempt = 500"

record network_factory =
  nf_group_id :: group_id

record group_network_adapter =
  gna_target :: node_id
  gna_group :: group_id

text \<open>Binding a client opens nothing: the router is not touched.\<close>

definition new_client :: "node_id \<Rightarrow> network_factory \<Rightarrow> router \<Rightarrow> group_network_adapter \<times> router" where
  "new_client target f r = (\<lparr>gna_target = target, gna_group = nf_group_id f\<rparr>, r)"

subsection \<open>grpc/router.rs\<close>

record 'c grpc_router =
  gr_self_id :: node_id
  gr_peers :: "node_id \<rightharpoonup> socket_addr"
  gr_channels :: "node_id \<rightharpoonup> 'c"
  gr_metrics :: conn_metrics

definition grpc_router_new :: "(node_id \<times> socket_addr) list \<Rightarrow> node_id \<Rightarrow> 'c grpc_router" where
  "grpc_router_new peers self_id =
     \<lparr>gr_self_id = self_id, gr_peers = map_of (rev peers), gr_channels = Map.empty,
      gr_metrics = conn_metrics_new\<rparr>"

definition grpc_unique_peer_links :: "'c grpc_router \<Rightarrow> nat" where
  "grpc_unique_peer_links gr = metrics_peer_links (gr_metrics gr)"

text \<open>The two critical sections on the channel cache around the connection.\<close>

definition cached_channel :: "node_id \<Rightarrow> 'c grpc_router \<Rightarrow> 'c option" where
  "cached_channel peer gr = gr_channels gr peer"

definition insert_channel :: "node_id \<Rightarrow> 'c \<Rightarrow> 'c grpc_router \<Rightarrow> 'c \<times> bool \<times> 'c grpc_router" where
  "insert_channel peer channel gr =
     (case gr_channels gr peer of
        Some existing \<Rightarrow> (existing, False, gr)
      | None \<Rightarrow> (channel, True, gr\<lparr>gr_channels := (gr_channels gr)(peer \<mapsto> channel)\<rparr>))"

definition record_channel :: "node_id \<Rightarrow> 'c grpc_router \<Rightarrow> 'c grpc_router" where
  "record_channel peer gr = gr\<lparr>gr_metrics := record_peer peer (gr_metrics gr)\<rparr>"

text \<open>
  \<^verbatim>\<open>channel_for\<close> run on its own; \<open>connect\<close> stands for building the
  endpoint and connecting, with the error text of either.
\<close>

definition channel_for ::
  "(socket_addr \<Rightarrow> (string, 'c) outcome) \<Rightarrow> node_id \<Rightarrow> 'c grpc_router \<Rightarrow> (unreachable, 'c) outcome \<times> 'c grpc_router" where
  "channel_for connect peer gr =
     (case cached_channel peer gr of
        Some ch \<Rightarrow> (Ok ch, gr)
      | None \<Rightarrow>
          (case gr_peers gr peer of
             None \<Rightarrow> (Err (Unreachable (''peer '' @ show_u64 peer @ '' not in cluster config'')), gr)
           | Some addr \<Rightarrow>
               (case connect addr of
                  Err e \<Rightarrow> (Err (Unreachable e), gr)
                | Panicked \<Rightarrow> (Panicked, gr)
                | Ok channel \<Rightarrow>
                    (case insert_channel peer channel gr of
                       (ch, True, gr1) \<Rightarrow> (Ok ch, record_channel peer gr1)
                     | (ch, False, gr1) \<Rightarrow> (Ok ch, gr1)))))"

text \<open>\<open>call\<close> is the remote call over a channel, on the state of the remote end.\<close>

definition grpc_send ::
  "'x net_env \<Rightarrow> (socket_addr \<Rightarrow> (string, 'c) outcome) \<Rightarrow>
   ('c \<Rightarrow> raft_request \<Rightarrow> 's \<Rightarrow> (string, bytes) outcome \<times> 's) \<Rightarrow> 'q codec \<Rightarrow> ('x raft_error, 'p) result codec \<Rightarrow>
   node_id \<Rightarrow> group_id \<Rightarrow> string \<Rightarrow> 'q \<Rightarrow> 'c grpc_router \<Rightarrow> 's \<Rightarrow>
   (unreachable, 'p) outcome \<times> 'c grpc_router \<times> 's" where
  "grpc_send ne connect call cq cp to_node to_group path req gr remote =
     (case channel_for connect to_node gr of
        (Err e, gr') \<Rightarrow> (Err e, gr', remote)
      | (Panicked, gr') \<Rightarrow> (Panicked, gr', remote)
      | (Ok channel, gr') \<Rightarrow>
          (case encode cq req of
             None \<Rightarrow> (Panicked, gr', remote)
           | Some encoded_req \<Rightarrow>
               (case call channel \<lparr>rq_group_id = to_group, rq_path = path, rq_payload = encoded_req\<rparr> remote of
                  (Err e, remote') \<Rightarrow> (Err (Unreachable (''rpc to '' @ show_u64 to_node @ '': '' @ e)), gr', remote')
                | (Panicked, remote') \<Rightarrow> (Panicked, gr', remote')
                | (Ok payload, remote') \<Rightarrow>
                    if \<not> utf8_valid payload then (Err (Unreachable (ne_utf8_error ne payload)), gr', remote')
                    else (receive_result (ne_show_raft_error ne) cp payload, gr', remote'))))"

text \<open>The calls openraft makes, each on its path; the snapshot travels as one value.\<close>

definition grpc_append_entries ::
  "'x net_env \<Rightarrow> ('q, 'p, 'x) wire \<Rightarrow> (socket_addr \<Rightarrow> (string, 'c) outcome) \<Rightarrow>
   ('c \<Rightarrow> raft_request \<Rightarrow> 's \<Rightarrow> (string, bytes) outcome \<times> 's) \<Rightarrow> node_id \<Rightarrow> group_id \<Rightarrow> 'q \<Rightarrow> 'c grpc_router \<Rightarrow> 's \<Rightarrow>
   (unreachable, 'p) outcome \<times> 'c grpc_router \<times> 's" where
  "grpc_append_entries ne w connect call target g rpc =
     grpc_send ne connect call (w_append_req w) (w_append_resp w) target g ''/raft/append'' rpc"

definition grpc_vote ::
  "'x net_env \<Rightarrow> ('q, 'p, 'x) wire \<Rightarrow> (socket_addr \<Rightarrow> (string, 'c) outcome) \<Rightarrow>
   ('c \<Rightarrow> raft_request \<Rightarrow> 's \<Rightarrow> (string, bytes) outcome \<times> 's) \<Rightarrow> node_id \<Rightarrow> group_id \<Rightarrow> 'q \<Rightarrow> 'c grpc_router \<Rightarrow> 's \<Rightarrow>
   (unreachable, 'p) outcome \<times> 'c grpc_router \<times> 's" where
  "grpc_vote ne w connect call target g rpc =
     grpc_send ne connect call (w_vote_req w) (w_vote_resp w) target g ''/raft/vote'' rpc"

definition grpc_full_snapshot ::
  "'x net_env \<Rightarrow> ('q, 'p, 'x) wire \<Rightarrow> (socket_addr \<Rightarrow> (string, 'c) outcome) \<Rightarrow>
   ('c \<Rightarrow> raft_request \<Rightarrow> 's \<Rightarrow> (string, bytes) outcome \<times> 's) \<Rightarrow> node_id \<Rightarrow> group_id \<Rightarrow> 'q \<Rightarrow> 'c grpc_router \<Rightarrow> 's \<Rightarrow>
   (unreachable, 'p) outcome \<times> 'c grpc_router \<times> 's" where
  "grpc_full_snapshot ne w connect call target g rpc =
     grpc_send ne connect call (w_snapshot_req w) (w_snapshot_resp w) target g ''/raft/snapshot'' rpc"

definition grpc_transfer_leader ::
  "'x net_env \<Rightarrow> ('q, 'p, 'x) wire \<Rightarrow> (socket_addr \<Rightarrow> (string, 'c) outcome) \<Rightarrow>
   ('c \<Rightarrow> raft_request \<Rightarrow> 's \<Rightarrow> (string, bytes) outcome \<times> 's) \<Rightarrow> node_id \<Rightarrow> group_id \<Rightarrow> 'q \<Rightarrow> 'c grpc_router \<Rightarrow> 's \<Rightarrow>
   (unreachable, 'p) outcome \<times> 'c grpc_router \<times> 's" where
  "grpc_transfer_leader ne w connect call target g rpc =
     grpc_send ne connect call (w_transfer_req w) (w_transfer_resp w) target g ''/raft/transfer_leader'' rpc"

definition grpc_new_client :: "node_id \<Rightarrow> network_factory \<Rightarrow> group_network_adapter" where
  "grpc_new_client target nf = \<lparr>gna_target = target, gna_group = nf_group_id nf\<rparr>"

subsection \<open>Concurrent channel_for calls\<close>

datatype 'c task =
    Looking node_id | Connecting node_id | Connected node_id 'c | Recording node_id 'c
  | Done node_id 'c | Failed node_id

record 'c grpc_state =
  gs_router :: "'c grpc_router"
  gs_tasks :: "nat \<rightharpoonup> 'c task"

inductive grpc_step :: "'c grpc_state \<Rightarrow> 'c grpc_state \<Rightarrow> bool" where
  start: "gs_tasks s i = None \<Longrightarrow>
     grpc_step s (s\<lparr>gs_tasks := (gs_tasks s)(i \<mapsto> Looking peer)\<rparr>)"
| hit: "gs_tasks s i = Some (Looking peer) \<Longrightarrow> cached_channel peer (gs_router s) = Some ch \<Longrightarrow>
     grpc_step s (s\<lparr>gs_tasks := (gs_tasks s)(i \<mapsto> Done peer ch)\<rparr>)"
| unknown: "gs_tasks s i = Some (Looking peer) \<Longrightarrow> cached_channel peer (gs_router s) = None \<Longrightarrow>
     gr_peers (gs_router s) peer = None \<Longrightarrow>
     grpc_step s (s\<lparr>gs_tasks := (gs_tasks s)(i \<mapsto> Failed peer)\<rparr>)"
| miss: "gs_tasks s i = Some (Looking peer) \<Longrightarrow> cached_channel peer (gs_router s) = None \<Longrightarrow>
     gr_peers (gs_router s) peer = Some addr \<Longrightarrow>
     grpc_step s (s\<lparr>gs_tasks := (gs_tasks s)(i \<mapsto> Connecting peer)\<rparr>)"
| connect_ok: "gs_tasks s i = Some (Connecting peer) \<Longrightarrow>
     grpc_step s (s\<lparr>gs_tasks := (gs_tasks s)(i \<mapsto> Connected peer ch)\<rparr>)"
| connect_err: "gs_tasks s i = Some (Connecting peer) \<Longrightarrow>
     grpc_step s (s\<lparr>gs_tasks := (gs_tasks s)(i \<mapsto> Failed peer)\<rparr>)"
| insert_race: "gs_tasks s i = Some (Connected peer ch) \<Longrightarrow>
     insert_channel peer ch (gs_router s) = (ch', False, gr) \<Longrightarrow>
     grpc_step s (s\<lparr>gs_router := gr, gs_tasks := (gs_tasks s)(i \<mapsto> Done peer ch')\<rparr>)"
| insert_new: "gs_tasks s i = Some (Connected peer ch) \<Longrightarrow>
     insert_channel peer ch (gs_router s) = (ch', True, gr) \<Longrightarrow>
     grpc_step s (s\<lparr>gs_router := gr, gs_tasks := (gs_tasks s)(i \<mapsto> Recording peer ch')\<rparr>)"
| recorded: "gs_tasks s i = Some (Recording peer ch) \<Longrightarrow>
     grpc_step s (s\<lparr>gs_router := record_channel peer (gs_router s), gs_tasks := (gs_tasks s)(i \<mapsto> Done peer ch)\<rparr>)"

inductive_cases grpc_stepE: "grpc_step s s'"

definition grpc_init :: "(node_id \<times> socket_addr) list \<Rightarrow> node_id \<Rightarrow> 'c grpc_state" where
  "grpc_init peers self_id = \<lparr>gs_router = grpc_router_new peers self_id, gs_tasks = Map.empty\<rparr>"

inductive grpc_reachable :: "'c grpc_state \<Rightarrow> 'c grpc_state \<Rightarrow> bool" for s where
  refl: "grpc_reachable s s"
| step: "grpc_reachable s t \<Longrightarrow> grpc_step t u \<Longrightarrow> grpc_reachable s u"

subsection \<open>stub\_network.rs\<close>

text \<open>The network of single-node tests: whatever the request, no peer is reachable.\<close>

datatype stub_network = StubNetwork

definition stub_unreachable :: unreachable where
  "stub_unreachable = Unreachable ''stub network: no peers (single-node test)''"

definition stub_new_client :: "node_id \<Rightarrow> stub_network" where
  "stub_new_client target = StubNetwork"

definition stub_append_entries :: "'q \<Rightarrow> stub_network \<Rightarrow> (unreachable, 'p) outcome" where
  "stub_append_entries rpc net = Err stub_unreachable"

definition stub_vote :: "'q \<Rightarrow> stub_network \<Rightarrow> (unreachable, 'p) outcome" where
  "stub_vote rpc net = Err stub_unreachable"

definition stub_full_snapshot :: "'v \<times> 'q \<Rightarrow> stub_network \<Rightarrow> (unreachable, 'p) outcome" where
  "stub_full_snapshot rpc net = Err stub_unreachable"

definition stub_transfer_leader :: "'q \<Rightarrow> stub_network \<Rightarrow> (unreachable, 'p) outcome" where
  "stub_transfer_leader rpc net = Err stub_unreachable"

end
