(* ===== verification/Multi_Raft.thy ===== *)
theory Multi_Raft
  imports Snapshot_Ads Sm_Bridge Log_File Net_Router
begin

section \<open>multiraft-net: the MultiRaft facade\<close>

text \<open>
  \<^verbatim>\<open>multiraft.rs\<close>. A \<open>multi_raft\<close> is one node; what nodes of a process
  share is the \<open>world\<close>: the fabric (router and cluster glue) and the file system.
  openraft is the parameter \<open>openraft\<close>: each call on a \<^verbatim>\<open>Raft\<close> handle is
  a function on the local peer of the group, i.e. on openraft's own state
  \<open>'r\<close>, the state machine store it shares with the node, and the file system.
  The dispatch loop of \<^verbatim>\<open>node.rs\<close> and the gRPC server serve the node's group map.
\<close>

subsection \<open>openraft\<close>

datatype snapshot_policy = Never | LogsSinceLast u64

record raft_config =
  rc_heartbeat_interval :: u64
  rc_election_timeout_min :: u64
  rc_election_timeout_max :: u64
  rc_max_in_snapshot_log_to_keep :: u64
  rc_snapshot_policy :: snapshot_policy

datatype raft_network = RouterNetwork network_factory | GrpcNetwork network_factory

datatype ('l, 'm, 'v) log_storage =
    MemStorage "(('l, 'm) entry, 'l, 'v) log_store_inner"
  | FileStorage "(('l, 'm) entry, 'l, 'v) file_log_inner"

datatype initialize_error = NotAllowed | InitializeFailed string

datatype raft_call_error = ForwardToLeader "node_id option" | RaftFailed string

record ('r, 's, 'l, 'm) raft_group =
  rg_core :: 'r
  rg_opts :: sm_options
  rg_inner :: "('s, 'l, 'm) sm_inner"

type_synonym ('r, 's, 'l, 'm, 'e, 'a) raft_call =
  "('r, 's, 'l, 'm) raft_group \<Rightarrow> fs \<Rightarrow> ('e, 'a) outcome \<times> ('r, 's, 'l, 'm) raft_group \<times> fs"

record ('r, 's, 'l, 'm, 'v) openraft =
  or_validate :: "raft_config \<Rightarrow> (string, raft_config) outcome"
  or_new :: "node_id \<Rightarrow> raft_config \<Rightarrow> raft_network \<Rightarrow> ('l, 'm, 'v) log_storage \<Rightarrow>
    sm_options \<Rightarrow> ('s, 'l, 'm) sm_inner \<Rightarrow> fs \<Rightarrow> (string, ('r, 's, 'l, 'm) raft_group) outcome \<times> fs"
  or_initialize :: "(node_id, string) btree_map \<Rightarrow> ('r, 's, 'l, 'm, initialize_error, unit) raft_call"
  or_add_learner :: "node_id \<Rightarrow> string \<Rightarrow> bool \<Rightarrow> ('r, 's, 'l, 'm, raft_call_error, unit) raft_call"
  or_client_write :: "request \<Rightarrow> ('r, 's, 'l, 'm, raft_call_error, 'l log_id) raft_call"
  or_ensure_linearizable :: "('r, 's, 'l, 'm, raft_call_error, unit) raft_call"
  or_shutdown :: "('r, 's, 'l, 'm, string, unit) raft_call"
  or_wait_for_recovery :: "nat \<Rightarrow> ('r, 's, 'l, 'm, string, unit) raft_call"
  or_is_leader :: "('r, 's, 'l, 'm) raft_group \<Rightarrow> bool"
  or_current_leader :: "('r, 's, 'l, 'm) raft_group \<Rightarrow> node_id option"

record ('r, 's, 'e, 'l, 'm, 'v) mr_env =
  me_os :: os
  me_sm :: "('s, 'e, 'l, 'm) sm_ctx"
  me_logs :: "(('l, 'm) entry, 'l, 'v) log_codecs"
  me_ads :: "snapshot_advertisement list codec"
  me_raft :: "('r, 's, 'l, 'm, 'v) openraft"
  me_make_fsm :: "group_id \<Rightarrow> 's"
  me_bind :: "socket_addr \<Rightarrow> (string, unit) outcome"

subsection \<open>The cluster glue\<close>

record cluster_glue =
  cg_ready :: "group_id \<rightharpoonup> node_id set"
  cg_claimed_init :: "group_id set"

definition cluster_glue_default :: cluster_glue where
  "cluster_glue_default = \<lparr>cg_ready = Map.empty, cg_claimed_init = {}\<rparr>"

definition mark_ready :: "group_id \<Rightarrow> node_id \<Rightarrow> node_id list \<Rightarrow> cluster_glue \<Rightarrow> bool \<times> cluster_glue" where
  "mark_ready g nid members glue =
     (let s = insert nid (case cg_ready glue g of Some s \<Rightarrow> s | None \<Rightarrow> {})
      in (list_all (\<lambda>m. m \<in> s) members, glue\<lparr>cg_ready := (cg_ready glue)(g \<mapsto> s)\<rparr>))"

definition try_claim_init :: "group_id \<Rightarrow> cluster_glue \<Rightarrow> bool \<times> cluster_glue" where
  "try_claim_init g glue =
     (g \<notin> cg_claimed_init glue, glue\<lparr>cg_claimed_init := insert g (cg_claimed_init glue)\<rparr>)"

subsection \<open>Nodes\<close>

record shared_fabric =
  sf_router :: router
  sf_glue :: cluster_glue
  sf_next :: chan

definition shared_fabric_new :: shared_fabric where
  "shared_fabric_new = \<lparr>sf_router = router_new, sf_glue = cluster_glue_default, sf_next = 0\<rparr>"

record world =
  wd_fabric :: shared_fabric
  wd_fs :: fs

datatype net_backend = InProcess | Grpc "chan grpc_router"

record ('r, 's, 'l, 'm) multi_raft =
  mr_node_id :: node_id
  mr_config :: cluster_config
  mr_net :: net_backend
  mr_groups :: "('r, 's, 'l, 'm) raft_group group_map"
  mr_leader_cbs :: "nat list"
  mr_watchers :: "group_id list"
  mr_snapshot_rt :: snapshot_runtime

definition fresh_node ::
  "cluster_config \<Rightarrow> net_backend \<Rightarrow> snapshot_runtime \<Rightarrow> ('r, 's, 'l, 'm) multi_raft" where
  "fresh_node cfg net rt =
     \<lparr>mr_node_id = cfg_node_id cfg, mr_config = cfg, mr_net = net, mr_groups = [], mr_leader_cbs = [],
      mr_watchers = [], mr_snapshot_rt = rt\<rparr>"

text \<open>\<^verbatim>\<open>start_inner\<close>: register a fresh channel under the node id, load the advertisements.\<close>

definition start_inner ::
  "('r, 's, 'e, 'l, 'm, 'v) mr_env \<Rightarrow> cluster_config \<Rightarrow> world \<Rightarrow>
   (string, ('r, 's, 'l, 'm) multi_raft) outcome \<times> world" where
  "start_inner env cfg w =
     (let fb = wd_fabric w;
          fb1 = fb\<lparr>sf_router := register_node (cfg_node_id cfg) (sf_next fb) (sf_router fb),
                   sf_next := Suc (sf_next fb)\<rparr>;
          (rt, fs1) = snapshot_runtime_new (me_os env) (me_ads env) cfg (wd_fs w)
      in (Ok (fresh_node cfg InProcess rt), w\<lparr>wd_fabric := fb1, wd_fs := fs1\<rparr>))"

text \<open>\<^verbatim>\<open>MultiRaft::start\<close>: a router and a glue of its own.\<close>

definition start_single ::
  "('r, 's, 'e, 'l, 'm, 'v) mr_env \<Rightarrow> cluster_config \<Rightarrow> fs \<Rightarrow>
   (string, ('r, 's, 'l, 'm) multi_raft) outcome \<times> world" where
  "start_single env cfg fs = start_inner env cfg \<lparr>wd_fabric = shared_fabric_new, wd_fs = fs\<rparr>"

fun start_nodes ::
  "('r, 's, 'e, 'l, 'm, 'v) mr_env \<Rightarrow> cluster_config list \<Rightarrow> world \<Rightarrow>
   (string, ('r, 's, 'l, 'm) multi_raft list) outcome \<times> world" where
  "start_nodes env [] w = (Ok [], w)"
| "start_nodes env (cfg # cfgs) w =
     (case start_inner env cfg w of
        (Ok n, w1) \<Rightarrow>
          (case start_nodes env cfgs w1 of
             (Ok ns, w2) \<Rightarrow> (Ok (n # ns), w2)
           | (Err e, w2) \<Rightarrow> (Err e, w2)
           | (Panicked, w2) \<Rightarrow> (Panicked, w2))
      | (Err e, w1) \<Rightarrow> (Err e, w1)
      | (Panicked, w1) \<Rightarrow> (Panicked, w1))"

definition start_cluster ::
  "('r, 's, 'e, 'l, 'm, 'v) mr_env \<Rightarrow> cluster_config list \<Rightarrow> fs \<Rightarrow>
   (string, ('r, 's, 'l, 'm) multi_raft list) outcome \<times> world" where
  "start_cluster env cfgs fs = start_nodes env cfgs \<lparr>wd_fabric = shared_fabric_new, wd_fs = fs\<rparr>"

definition start_grpc_inner ::
  "('r, 's, 'e, 'l, 'm, 'v) mr_env \<Rightarrow> cluster_config \<Rightarrow> world \<Rightarrow>
   (string, ('r, 's, 'l, 'm) multi_raft) outcome \<times> world" where
  "start_grpc_inner env cfg w =
     (case peer_addr cfg (cfg_node_id cfg) of
        None \<Rightarrow> (Err (''start_grpc: node '' @ show_u64 (cfg_node_id cfg) @ '' missing from config.peers''), w)
      | Some self_addr \<Rightarrow>
          let grpc_router = grpc_router_new (cfg_peers cfg) (cfg_node_id cfg);
              (rt, fs1) = snapshot_runtime_new (me_os env) (me_ads env) cfg (wd_fs w);
              w1 = w\<lparr>wd_fs := fs1\<rparr>
          in (case me_bind env self_addr of
                Ok _ \<Rightarrow> (Ok (fresh_node cfg (Grpc grpc_router) rt), w1)
              | Err e \<Rightarrow> (Err e, w1)
              | Panicked \<Rightarrow> (Panicked, w1)))"

subsection \<open>Looking at groups\<close>

definition mr_raft :: "('r, 's, 'l, 'm) multi_raft \<Rightarrow> group_id \<Rightarrow> ('r, 's, 'l, 'm) raft_group option" where
  "mr_raft mr g = map_option ga_raft (bt_get (mr_groups mr) g)"

definition mr_set_raft ::
  "group_id \<Rightarrow> ('r, 's, 'l, 'm) raft_group \<Rightarrow> ('r, 's, 'l, 'm) multi_raft \<Rightarrow> ('r, 's, 'l, 'm) multi_raft" where
  "mr_set_raft g rg mr = mr\<lparr>mr_groups := set_raft g rg (mr_groups mr)\<rparr>"

definition is_leader ::
  "('r, 's, 'e, 'l, 'm, 'v) mr_env \<Rightarrow> ('r, 's, 'l, 'm) multi_raft \<Rightarrow> group_id \<Rightarrow> bool" where
  "is_leader env mr g = (case mr_raft mr g of Some r \<Rightarrow> or_is_leader (me_raft env) r | None \<Rightarrow> False)"

definition leader ::
  "('r, 's, 'e, 'l, 'm, 'v) mr_env \<Rightarrow> ('r, 's, 'l, 'm) multi_raft \<Rightarrow> group_id \<Rightarrow> node_id option" where
  "leader env mr g = Option.bind (mr_raft mr g) (or_current_leader (me_raft env))"

definition with_fsm :: "('r, 's, 'l, 'm) multi_raft \<Rightarrow> group_id \<Rightarrow> ('s \<Rightarrow> 'a) \<Rightarrow> 'a option" where
  "with_fsm mr g f = map_option (\<lambda>app. f (sm_fsm (rg_inner (ga_raft app)))) (bt_get (mr_groups mr) g)"

text \<open>The node as the dispatch loop of \<^verbatim>\<open>node.rs\<close> sees it: the same group map.\<close>

definition serving_node :: "('r, 's, 'l, 'm) multi_raft \<Rightarrow> ('r, 's, 'l, 'm) raft_group node" where
  "serving_node mr = node_new (mr_node_id mr) (mr_groups mr)"

text \<open>\<^verbatim>\<open>router()\<close> panics on a gRPC node.\<close>

definition mr_router :: "('r, 's, 'l, 'm) multi_raft \<Rightarrow> world \<Rightarrow> router option" where
  "mr_router mr w = (case mr_net mr of InProcess \<Rightarrow> Some (sf_router (wd_fabric w)) | Grpc _ \<Rightarrow> None)"

definition mr_peer_links :: "('r, 's, 'l, 'm) multi_raft \<Rightarrow> world \<Rightarrow> nat" where
  "mr_peer_links mr w =
     (case mr_net mr of
        InProcess \<Rightarrow> unique_peer_links (sf_router (wd_fabric w))
      | Grpc gr \<Rightarrow> grpc_unique_peer_links gr)"

subsection \<open>Creating a group\<close>

text \<open>The openraft configuration and the store options of a group.\<close>

definition raft_config_of :: "cluster_config \<Rightarrow> raft_config" where
  "raft_config_of cfg =
     \<lparr>rc_heartbeat_interval = cfg_heartbeat_interval_ms cfg,
      rc_election_timeout_min = cfg_election_timeout_min_ms cfg,
      rc_election_timeout_max = cfg_election_timeout_max_ms cfg,
      rc_max_in_snapshot_log_to_keep = 0,
      rc_snapshot_policy =
        (if cfg_snapshot_mode cfg = StandbyOffload then Never else LogsSinceLast 5000)\<rparr>"

definition group_options :: "('r, 's, 'l, 'm) multi_raft \<Rightarrow> (multiraft_error, sm_options) outcome" where
  "group_options mr =
     (let cfg = mr_config mr; catalog = sr_catalog (mr_snapshot_rt mr);
          allow_hot_build = cfg_snapshot_mode cfg \<noteq> StandbyOffload;
          opts = (\<lambda>trig. \<lparr>opt_allow_hot_build = allow_hot_build, opt_catalog = catalog,
                          opt_on_standby_trigger = trig\<rparr>)
      in if cfg_role cfg = Standby \<and> cfg_snapshot_mode cfg = StandbyOffload then
           (case catalog of
              None \<Rightarrow> Err (Other ''StandbyOffload Standby requires non-empty data_dir for SnapshotCatalog'')
            | Some _ \<Rightarrow> Ok (opts True))
         else Ok (opts False))"

definition open_log ::
  "('r, 's, 'e, 'l, 'm, 'v) mr_env \<Rightarrow> cluster_config \<Rightarrow> group_id \<Rightarrow> fs \<Rightarrow>
   (multiraft_error, ('l, 'm, 'v) log_storage) outcome \<times> fs" where
  "open_log env cfg g fs =
     (if cfg_data_dir cfg = [] then (Ok (MemStorage log_store_default), fs)
      else case file_open (me_os env) type_config_entry (me_logs env)
                  (cfg_data_dir cfg @ [''group-'' @ show_u64 g]) fs of
             (Ok s, fs') \<Rightarrow> (Ok (FileStorage s), fs')
           | (Err e, fs') \<Rightarrow> (Err (Other (''open file log: '' @ io_error_msg e)), fs')
           | (Panicked, fs') \<Rightarrow> (Panicked, fs'))"

definition group_network :: "('r, 's, 'l, 'm) multi_raft \<Rightarrow> group_id \<Rightarrow> raft_network" where
  "group_network mr g =
     (case mr_net mr of
        InProcess \<Rightarrow> RouterNetwork \<lparr>nf_group_id = g\<rparr>
      | Grpc _ \<Rightarrow> GrpcNetwork \<lparr>nf_group_id = g\<rparr>)"

text \<open>\<^verbatim>\<open>spawn_leader_watch\<close>: one more watching task for the group.\<close>

definition spawn_leader_watch :: "group_id \<Rightarrow> ('r, 's, 'l, 'm) multi_raft \<Rightarrow> ('r, 's, 'l, 'm) multi_raft" where
  "spawn_leader_watch g mr = mr\<lparr>mr_watchers := mr_watchers mr @ [g]\<rparr>"

definition spawn_local_group ::
  "('r, 's, 'e, 'l, 'm, 'v) mr_env \<Rightarrow> group_id \<Rightarrow> ('r, 's, 'l, 'm) multi_raft \<Rightarrow> world \<Rightarrow>
   (multiraft_error, unit) outcome \<times> ('r, 's, 'l, 'm) multi_raft \<times> world" where
  "spawn_local_group env g mr w =
     (case map_err Other (or_validate (me_raft env) (raft_config_of (mr_config mr))) of
        Err e \<Rightarrow> (Err e, mr, w)
      | Panicked \<Rightarrow> (Panicked, mr, w)
      | Ok config \<Rightarrow>
          let fsm = me_make_fsm env g in
          (case group_options mr of
             Err e \<Rightarrow> (Err e, mr, w)
           | Panicked \<Rightarrow> (Panicked, mr, w)
           | Ok opts \<Rightarrow>
               let inner = sm_inner_new (sx_types (me_sm env)) g fsm in
               (case open_log env (mr_config mr) g (wd_fs w) of
                  (Err e, fs1) \<Rightarrow> (Err e, mr, w\<lparr>wd_fs := fs1\<rparr>)
                | (Panicked, fs1) \<Rightarrow> (Panicked, mr, w\<lparr>wd_fs := fs1\<rparr>)
                | (Ok log_store, fs1) \<Rightarrow>
                    (case or_new (me_raft env) (mr_node_id mr) config (group_network mr g) log_store opts inner fs1 of
                       (Err e, fs2) \<Rightarrow> (Err (Other e), mr, w\<lparr>wd_fs := fs2\<rparr>)
                     | (Panicked, fs2) \<Rightarrow> (Panicked, mr, w\<lparr>wd_fs := fs2\<rparr>)
                     | (Ok raft, fs2) \<Rightarrow>
                         (Ok (),
                          spawn_leader_watch g
                            (mr\<lparr>mr_groups := bt_insert g
                               \<lparr>ga_node_id = mr_node_id mr, ga_group_id = g, ga_raft = raft\<rparr> (mr_groups mr)\<rparr>),
                          w\<lparr>wd_fs := fs2\<rparr>)))))"

definition addr_of :: "cluster_config \<Rightarrow> node_id \<Rightarrow> string" where
  "addr_of cfg nid = (case peer_addr cfg nid of Some a \<Rightarrow> show_socket_addr a | None \<Rightarrow> [])"

definition membership_nodes :: "cluster_config \<Rightarrow> node_id list \<Rightarrow> (node_id, string) btree_map" where
  "membership_nodes cfg members = fold (\<lambda>nid. bt_insert nid (addr_of cfg nid)) members []"

definition try_initialize ::
  "('r, 's, 'e, 'l, 'm, 'v) mr_env \<Rightarrow> group_id \<Rightarrow> node_id list \<Rightarrow> ('r, 's, 'l, 'm) multi_raft \<Rightarrow> world \<Rightarrow>
   (multiraft_error, unit) outcome \<times> ('r, 's, 'l, 'm) multi_raft \<times> world" where
  "try_initialize env g members mr w =
     (case mr_raft mr g of
        None \<Rightarrow> (Err (UnknownGroup g), mr, w)
      | Some raft \<Rightarrow>
          let nodes = membership_nodes (mr_config mr) members in
          (case or_initialize (me_raft env) nodes raft (wd_fs w) of
             (res, raft', fs') \<Rightarrow>
               (case res of
                  Ok _ \<Rightarrow> Ok ()
                | Err NotAllowed \<Rightarrow> Ok ()
                | Err (InitializeFailed e) \<Rightarrow> Err (Other (''initialize group: '' @ e))
                | Panicked \<Rightarrow> Panicked,
                mr_set_raft g raft' mr, w\<lparr>wd_fs := fs'\<rparr>)))"

fun comma_sep :: "string list \<Rightarrow> string" where
  "comma_sep [] = []"
| "comma_sep [x] = x"
| "comma_sep (x # y # ys) = x @ '', '' @ comma_sep (y # ys)"

text \<open>The in-process branch: ready, and the first to claim the initialization.\<close>

definition claim_init :: "group_id \<Rightarrow> node_id \<Rightarrow> node_id list \<Rightarrow> cluster_glue \<Rightarrow> bool \<times> cluster_glue" where
  "claim_init g nid members glue =
     (case mark_ready g nid members glue of
        (all_ready, glue1) \<Rightarrow> if all_ready then try_claim_init g glue1 else (False, glue1))"

text \<open>
  The check for an existing peer and the insertion of the new one are one step here. In the
  code \<^verbatim>\<open>spawn_local_group\<close> awaits in between, so two overlapping calls for one group on
  one node can both spawn a peer; the calls of a node are taken one after the other.
\<close>

definition create_group ::
  "('r, 's, 'e, 'l, 'm, 'v) mr_env \<Rightarrow> group_id \<Rightarrow> node_id list \<Rightarrow> ('r, 's, 'l, 'm) multi_raft \<Rightarrow> world \<Rightarrow>
   (multiraft_error, unit) outcome \<times> ('r, 's, 'l, 'm) multi_raft \<times> world" where
  "create_group env g members mr w =
     (if members = [] then (Err (Other ''create_group requires at least one member''), mr, w)
      else
        let is_standby = cfg_role (mr_config mr) = Standby in
        if \<not> is_standby \<and> mr_node_id mr \<notin> set members then
          (Err (Other (''local node '' @ show_u64 (mr_node_id mr) @ '' is not in members ['' @
                       comma_sep (map show_u64 members) @ '']'')), mr, w)
        else
          let needs_spawn = \<not> bt_contains_key (mr_groups mr) g in
          (case if needs_spawn then spawn_local_group env g mr w else (Ok (), mr, w) of
             (Err e, mr1, w1) \<Rightarrow> (Err e, mr1, w1)
           | (Panicked, mr1, w1) \<Rightarrow> (Panicked, mr1, w1)
           | (Ok _, mr1, w1) \<Rightarrow>
               if is_standby then (Ok (), mr1, w1)
               else
                 (case mr_net mr1 of
                    InProcess \<Rightarrow>
                      (case claim_init g (mr_node_id mr1) members (sf_glue (wd_fabric w1)) of
                         (claimed, glue') \<Rightarrow>
                           let w2 = w1\<lparr>wd_fabric := (wd_fabric w1)\<lparr>sf_glue := glue'\<rparr>\<rparr> in
                           if claimed then try_initialize env g members mr1 w2 else (Ok (), mr1, w2))
                  | Grpc _ \<Rightarrow> try_initialize env g members mr1 w1)))"

subsection \<open>Client operations\<close>

text \<open>\<^verbatim>\<open>e.forward_to_leader()\<close>, or the error with the name of the call.\<close>

fun call_error :: "string \<Rightarrow> raft_call_error \<Rightarrow> multiraft_error" where
  "call_error what (ForwardToLeader leader_id) = NotLeader leader_id"
| "call_error what (RaftFailed e) = Other (what @ '': '' @ e)"

text \<open>A call on the local peer of a group, with the peer's new state put back.\<close>

definition on_raft ::
  "('r, 's, 'l, 'm, 'f, 'a) raft_call \<Rightarrow> (('f, 'a) outcome \<Rightarrow> (multiraft_error, 'b) outcome) \<Rightarrow> group_id \<Rightarrow>
   ('r, 's, 'l, 'm) multi_raft \<Rightarrow> world \<Rightarrow> (multiraft_error, 'b) outcome \<times> ('r, 's, 'l, 'm) multi_raft \<times> world" where
  "on_raft call conv g mr w =
     (case mr_raft mr g of
        None \<Rightarrow> (Err (UnknownGroup g), mr, w)
      | Some raft \<Rightarrow>
          (case call raft (wd_fs w) of
             (res, raft', fs') \<Rightarrow> (conv res, mr_set_raft g raft' mr, w\<lparr>wd_fs := fs'\<rparr>)))"

definition add_standby ::
  "('r, 's, 'e, 'l, 'm, 'v) mr_env \<Rightarrow> group_id \<Rightarrow> node_id \<Rightarrow> ('r, 's, 'l, 'm) multi_raft \<Rightarrow> world \<Rightarrow>
   (multiraft_error, unit) outcome \<times> ('r, 's, 'l, 'm) multi_raft \<times> world" where
  "add_standby env g standby_id mr w =
     on_raft (or_add_learner (me_raft env) standby_id (addr_of (mr_config mr) standby_id) True)
       (map_err (call_error ''add_learner'')) g mr w"

fun propose_result :: "('l, 'm) raft_types \<Rightarrow> (raft_call_error, 'l log_id) outcome \<Rightarrow> (multiraft_error, propose_ok) outcome" where
  "propose_result rt (Ok log_id) = Ok \<lparr>po_index = lid_index log_id, po_term = rt_term rt (lid_leader log_id)\<rparr>"
| "propose_result rt (Err e) = Err (call_error ''client_write'' e)"
| "propose_result rt Panicked = Panicked"

definition propose ::
  "('r, 's, 'e, 'l, 'm, 'v) mr_env \<Rightarrow> group_id \<Rightarrow> bytes \<Rightarrow> ('r, 's, 'l, 'm) multi_raft \<Rightarrow> world \<Rightarrow>
   (multiraft_error, propose_ok) outcome \<times> ('r, 's, 'l, 'm) multi_raft \<times> world" where
  "propose env g data mr w =
     on_raft (or_client_write (me_raft env) (request_new data)) (propose_result (sx_types (me_sm env))) g mr w"

definition trigger_standby_snapshot ::
  "('r, 's, 'e, 'l, 'm, 'v) mr_env \<Rightarrow> group_id \<Rightarrow> ('r, 's, 'l, 'm) multi_raft \<Rightarrow> world \<Rightarrow>
   (multiraft_error, propose_ok) outcome \<times> ('r, 's, 'l, 'm) multi_raft \<times> world" where
  "trigger_standby_snapshot env g mr w = propose env g standby_snapshot_trigger mr w"

text \<open>
  Confirm leadership, then read the local machine. Between the two the code awaits the lock
  of the machine; what the peer applies there is part of what the first call does to it.
\<close>

definition read_linearizable ::
  "('r, 's, 'e, 'l, 'm, 'v) mr_env \<Rightarrow> group_id \<Rightarrow> ('s \<Rightarrow> 'a) \<Rightarrow> ('r, 's, 'l, 'm) multi_raft \<Rightarrow> world \<Rightarrow>
   (multiraft_error, 'a) outcome \<times> ('r, 's, 'l, 'm) multi_raft \<times> world" where
  "read_linearizable env g f mr w =
     (case on_raft (or_ensure_linearizable (me_raft env)) (map_err (call_error ''ensure_linearizable'')) g mr w of
        (Ok _, mr', w') \<Rightarrow>
          (case with_fsm mr' g f of
             Some r \<Rightarrow> Ok r
           | None \<Rightarrow> Err (Other (''read_linearizable: fsm missing for group '' @ show_u64 g)), mr', w')
      | (Err e, mr', w') \<Rightarrow> (Err e, mr', w')
      | (Panicked, mr', w') \<Rightarrow> (Panicked, mr', w'))"

definition wait_for_recovery ::
  "('r, 's, 'e, 'l, 'm, 'v) mr_env \<Rightarrow> group_id \<Rightarrow> nat \<Rightarrow> ('r, 's, 'l, 'm) multi_raft \<Rightarrow> world \<Rightarrow>
   (multiraft_error, unit) outcome \<times> ('r, 's, 'l, 'm) multi_raft \<times> world" where
  "wait_for_recovery env g timeout mr w =
     on_raft (or_wait_for_recovery (me_raft env) timeout)
       (map_err (\<lambda>e. Other (''wait_for_recovery: '' @ e))) g mr w"

subsection \<open>Snapshots\<close>

definition record_snapshot_ad ::
  "('r, 's, 'e, 'l, 'm, 'v) mr_env \<Rightarrow> snapshot_advertisement \<Rightarrow> ('r, 's, 'l, 'm) multi_raft \<Rightarrow> world \<Rightarrow>
   ('r, 's, 'l, 'm) multi_raft \<times> world" where
  "record_snapshot_ad env ad mr w =
     (case record_ad (me_os env) (me_ads env) ad (mr_snapshot_rt mr) (wd_fs w) of
        (rt', fs', _) \<Rightarrow> (mr\<lparr>mr_snapshot_rt := rt'\<rparr>, w\<lparr>wd_fs := fs'\<rparr>))"

definition snapshot_ads :: "('r, 's, 'l, 'm) multi_raft \<Rightarrow> snapshot_advertisement list" where
  "snapshot_ads mr = sr_ads (mr_snapshot_rt mr)"

definition on_snapshot_ready :: "('r, 's, 'l, 'm) multi_raft \<Rightarrow> ('r, 's, 'l, 'm) multi_raft" where
  "on_snapshot_ready mr = mr\<lparr>mr_snapshot_rt := (mr_snapshot_rt mr)\<lparr>sr_on_snapshot_ready := True\<rparr>\<rparr>"

definition set_snapshot_serialize_delay ::
  "nat option \<Rightarrow> ('r, 's, 'l, 'm) multi_raft \<Rightarrow> ('r, 's, 'l, 'm) multi_raft" where
  "set_snapshot_serialize_delay delay mr =
     mr\<lparr>mr_snapshot_rt := (mr_snapshot_rt mr)\<lparr>sr_serialize_delay := delay\<rparr>\<rparr>"

definition latest_catalog_entry ::
  "('r, 's, 'e, 'l, 'm, 'v) mr_env \<Rightarrow> group_id \<Rightarrow> ('r, 's, 'l, 'm) multi_raft \<Rightarrow> world \<Rightarrow> catalog_entry option" where
  "latest_catalog_entry env g mr w =
     (case sr_catalog (mr_snapshot_rt mr) of
        None \<Rightarrow> None
      | Some cat \<Rightarrow>
          (case fst (catalog_latest (me_os env) (sx_catalog (me_sm env)) cat g (wd_fs w)) of
             Ok e \<Rightarrow> e
           | _ \<Rightarrow> None))"

definition mr_install_durable_snapshot ::
  "('r, 's, 'e, 'l, 'm, 'v) mr_env \<Rightarrow> group_id \<Rightarrow> u64 \<Rightarrow> u64 \<Rightarrow> bytes \<Rightarrow> ('r, 's, 'l, 'm) multi_raft \<Rightarrow> world \<Rightarrow>
   (multiraft_error, unit) outcome \<times> ('r, 's, 'l, 'm) multi_raft \<times> world" where
  "mr_install_durable_snapshot env g last_index last_term data mr w =
     on_raft
       (\<lambda>rg fs. case install_durable_snapshot (me_os env) (me_sm env) (rg_opts rg) last_index last_term data (rg_inner rg) fs of
                  (res, inner', fs') \<Rightarrow> (res, rg\<lparr>rg_inner := inner'\<rparr>, fs'))
       (map_err (\<lambda>e. Other (''install_durable_snapshot: '' @ io_error_msg e))) g mr w"

definition try_install_from_standby_catalog ::
  "('r, 's, 'e, 'l, 'm, 'v) mr_env \<Rightarrow> group_id \<Rightarrow> snapshot_catalog \<Rightarrow> ('r, 's, 'l, 'm) multi_raft \<Rightarrow> world \<Rightarrow>
   (multiraft_error, unit) outcome \<times> ('r, 's, 'l, 'm) multi_raft \<times> world" where
  "try_install_from_standby_catalog env g standby_catalog mr w =
     (case catalog_latest (me_os env) (sx_catalog (me_sm env)) standby_catalog g (wd_fs w) of
        (Err e, fs1) \<Rightarrow> (Err (Other (''catalog latest: '' @ io_error_msg e)), mr, w\<lparr>wd_fs := fs1\<rparr>)
      | (Panicked, fs1) \<Rightarrow> (Panicked, mr, w\<lparr>wd_fs := fs1\<rparr>)
      | (Ok None, fs1) \<Rightarrow> (Err (Other ''no snapshot in standby catalog''), mr, w\<lparr>wd_fs := fs1\<rparr>)
      | (Ok (Some ent), fs1) \<Rightarrow>
          (case catalog_read (me_os env) (sx_catalog (me_sm env)) standby_catalog g (ce_snapshot_id ent) fs1 of
             (Err e, fs2) \<Rightarrow> (Err (Other (''catalog read: '' @ io_error_msg e)), mr, w\<lparr>wd_fs := fs2\<rparr>)
           | (Panicked, fs2) \<Rightarrow> (Panicked, mr, w\<lparr>wd_fs := fs2\<rparr>)
           | (Ok None, fs2) \<Rightarrow> (Err (Other ''snapshot data missing''), mr, w\<lparr>wd_fs := fs2\<rparr>)
           | (Ok (Some data), fs2) \<Rightarrow>
               mr_install_durable_snapshot env g (ce_last_index ent) (ce_last_term ent) data mr (w\<lparr>wd_fs := fs2\<rparr>)))"

text \<open>
  The task that the trigger callback of a standby spawns: build the snapshot and advertise
  it. It runs after the callback returned, on the group's store as it is then; the
  callback exists only on a node with a catalog.
\<close>

definition advertisement_of :: "snapshot_runtime \<Rightarrow> group_id \<Rightarrow> catalog_entry \<Rightarrow> snapshot_advertisement" where
  "advertisement_of rt g ent =
     \<lparr>ad_group = g, ad_last_index = ce_last_index ent, ad_last_term = ce_last_term ent,
      ad_snapshot_id = ce_snapshot_id ent, ad_size = ce_size ent, ad_sha256_hex = ce_sha256_hex ent,
      ad_fetch_url =
        (case sr_admin_advertise_addr rt of
           Some addr \<Rightarrow> ''http://'' @ show_socket_addr addr @ ''/snapshots/'' @ show_u64 g @ ''/latest''
         | None \<Rightarrow> [])\<rparr>"

definition standby_trigger_task ::
  "('r, 's, 'e, 'l, 'm, 'v) mr_env \<Rightarrow> ('s, 'l, 'm) task_gaps \<Rightarrow> snapshot_catalog \<Rightarrow>
   group_id \<Rightarrow> u64 \<Rightarrow> u64 \<Rightarrow> snapshot_runtime \<Rightarrow> ('s, 'l, 'm) sm_inner \<Rightarrow> fs \<Rightarrow>
   snapshot_runtime \<times> ('s, 'l, 'm) sm_inner \<times> fs \<times> snapshot_advertisement list" where
  "standby_trigger_task env gaps catalog gid index tm rt inner fs =
     (case build_standby_snapshot_async (me_os env) (me_sm env) gaps catalog gid index tm inner fs of
        (Ok ent, inner', fs') \<Rightarrow>
          (case record_ad (me_os env) (me_ads env) (advertisement_of rt gid ent) rt fs' of
             (rt', fs2, calls) \<Rightarrow> (rt', inner', fs2, calls))
      | (_, inner', fs') \<Rightarrow> (rt, inner', fs', []))"

subsection \<open>Leader changes\<close>

definition on_leader_change :: "nat \<Rightarrow> ('r, 's, 'l, 'm) multi_raft \<Rightarrow> ('r, 's, 'l, 'm) multi_raft" where
  "on_leader_change cb mr =
     (let mr1 = mr\<lparr>mr_leader_cbs := mr_leader_cbs mr @ [cb]\<rparr>
      in fold (\<lambda>(gid, _). spawn_leader_watch gid) (mr_groups mr1) mr1)"

text \<open>
  A watching task: for every look at the metrics, the leader it sees and the callbacks
  registered then; \<open>last_seen\<close> is the leader it reported last. The result are the
  calls it makes, in order.
\<close>

fun leader_watch ::
  "group_id \<Rightarrow> node_id option option \<Rightarrow> (node_id option \<times> nat list) list \<Rightarrow> (nat \<times> group_id \<times> node_id option) list" where
  "leader_watch g last_seen [] = []"
| "leader_watch g last_seen ((cur, cbs) # looks) =
     (if last_seen \<noteq> Some cur
      then map (\<lambda>cb. (cb, g, cur)) cbs @ leader_watch g (Some cur) looks
      else leader_watch g last_seen looks)"

subsection \<open>Shutting down\<close>

fun shutdown_rafts ::
  "('r, 's, 'e, 'l, 'm, 'v) mr_env \<Rightarrow> (group_id \<times> ('r, 's, 'l, 'm) raft_group) list \<Rightarrow>
   ('r, 's, 'l, 'm) multi_raft \<Rightarrow> fs \<Rightarrow> (multiraft_error, unit) outcome \<times> ('r, 's, 'l, 'm) multi_raft \<times> fs" where
  "shutdown_rafts env [] mr fs = (Ok (), mr, fs)"
| "shutdown_rafts env ((g, raft) # rafts) mr fs =
     (case or_shutdown (me_raft env) raft fs of
        (Ok _, raft', fs') \<Rightarrow> shutdown_rafts env rafts (mr_set_raft g raft' mr) fs'
      | (Err e, raft', fs') \<Rightarrow> (Err (Other (''shutdown: '' @ e)), mr_set_raft g raft' mr, fs')
      | (Panicked, raft', fs') \<Rightarrow> (Panicked, mr_set_raft g raft' mr, fs'))"

definition shutdown ::
  "('r, 's, 'e, 'l, 'm, 'v) mr_env \<Rightarrow> ('r, 's, 'l, 'm) multi_raft \<Rightarrow> world \<Rightarrow>
   (multiraft_error, unit) outcome \<times> ('r, 's, 'l, 'm) multi_raft \<times> world" where
  "shutdown env mr w =
     (case shutdown_rafts env (map (\<lambda>(g, app). (g, ga_raft app)) (mr_groups mr)) mr (wd_fs w) of
        (Ok _, mr1, fs1) \<Rightarrow>
          let mr2 = mr1\<lparr>mr_groups := []\<rparr>; w1 = w\<lparr>wd_fs := fs1\<rparr> in
          (Ok (), mr2,
           case mr_net mr2 of
             InProcess \<Rightarrow>
               w1\<lparr>wd_fabric := (wd_fabric w1)\<lparr>sf_router :=
                 snd (unregister_node (mr_node_id mr2) (sf_router (wd_fabric w1)))\<rparr>\<rparr>
           | Grpc _ \<Rightarrow> w1)
      | (Err e, mr1, fs1) \<Rightarrow> (Err e, mr1, w\<lparr>wd_fs := fs1\<rparr>)
      | (Panicked, mr1, fs1) \<Rightarrow> (Panicked, mr1, w\<lparr>wd_fs := fs1\<rparr>))"

subsection \<open>Waiting for a leader\<close>

text \<open>
  \<^verbatim>\<open>wait_for_leader\<close>: every element is one polling round before the deadline, the
  handles as they are seen in that round.
\<close>

fun poll_leader ::
  "('r, 's, 'e, 'l, 'm, 'v) mr_env \<Rightarrow> group_id \<Rightarrow> ('r, 's, 'l, 'm) multi_raft list \<Rightarrow>
   ('r, 's, 'l, 'm) multi_raft list \<Rightarrow> node_id option" where
  "poll_leader env g nodes [] = None"
| "poll_leader env g nodes (n # ns) =
     (case leader env n g of
        Some l \<Rightarrow> if list_ex (\<lambda>x. is_leader env x g) nodes then Some l else poll_leader env g nodes ns
      | None \<Rightarrow> poll_leader env g nodes ns)"

fun wait_for_leader ::
  "('r, 's, 'e, 'l, 'm, 'v) mr_env \<Rightarrow> group_id \<Rightarrow> ('r, 's, 'l, 'm) multi_raft list list \<Rightarrow> node_id option" where
  "wait_for_leader env g [] = None"
| "wait_for_leader env g (nodes # rounds) =
     (case poll_leader env g nodes nodes of
        Some l \<Rightarrow> Some l
      | None \<Rightarrow> wait_for_leader env g rounds)"

subsection \<open>node.rs: create\_node\<close>

text \<open>
  A node with all its groups at once, each on an in-memory log; \<open>default_policy\<close> is
  the snapshot policy of openraft's default configuration. \<open>None\<close> is an
  \<^verbatim>\<open>unwrap\<close> that panics.
\<close>

definition create_node_config :: "snapshot_policy \<Rightarrow> raft_config" where
  "create_node_config default_policy =
     \<lparr>rc_heartbeat_interval = 100, rc_election_timeout_min = 300, rc_election_timeout_max = 600,
      rc_max_in_snapshot_log_to_keep = 0, rc_snapshot_policy = default_policy\<rparr>"

fun create_node_groups ::
  "('r, 's, 'e, 'l, 'm, 'v) mr_env \<Rightarrow> snapshot_policy \<Rightarrow> group_id list \<Rightarrow> ('r, 's, 'l, 'm) raft_group node \<Rightarrow> fs \<Rightarrow>
   ('r, 's, 'l, 'm) raft_group node option \<times> fs" where
  "create_node_groups env policy [] nd fs = (Some nd, fs)"
| "create_node_groups env policy (g # gs) nd fs =
     (case or_validate (me_raft env) (create_node_config policy) of
        Ok config \<Rightarrow>
          (case or_new (me_raft env) (nd_node_id nd) config (RouterNetwork \<lparr>nf_group_id = g\<rparr>)
                  (MemStorage log_store_default) sm_default_options
                  (sm_inner_new (sx_types (me_sm env)) g (me_make_fsm env g)) fs of
             (Ok raft, fs1) \<Rightarrow> create_node_groups env policy gs (node_add_group g raft nd) fs1
           | (_, fs1) \<Rightarrow> (None, fs1))
      | _ \<Rightarrow> (None, fs))"

definition create_node ::
  "('r, 's, 'e, 'l, 'm, 'v) mr_env \<Rightarrow> snapshot_policy \<Rightarrow> node_id \<Rightarrow> group_id list \<Rightarrow> world \<Rightarrow>
   ('r, 's, 'l, 'm) raft_group node option \<times> world" where
  "create_node env policy nid gids w =
     (let fb = wd_fabric w;
          fb1 = fb\<lparr>sf_router := register_node nid (sf_next fb) (sf_router fb), sf_next := Suc (sf_next fb)\<rparr>
      in case create_node_groups env policy gids (node_new nid []) (wd_fs w) of
           (nd, fs1) \<Rightarrow> (nd, w\<lparr>wd_fabric := fb1, wd_fs := fs1\<rparr>))"

end
