(* ===== verification/Counter_Fsm.thy ===== *)
theory Counter_Fsm
  imports State_Machine Serde
begin

section \<open>multiraft-fsm: CounterFsm\<close>

text \<open>
  \<^verbatim>\<open>crates/multiraft-fsm/src/counter_fsm.rs\<close>: a counter per group with a set of
  idempotency keys already seen. The context of the machine (\<open>counter_env\<close>) holds
  the build profile, the JSON codecs of a command and of a snapshot, and the iteration
  order of a \<open>HashSet\<close>, which is unspecified.
\<close>

datatype counter_error = Decode string

record cmd =
  cmd_idem :: u64
  cmd_delta :: i64

record counter_fsm =
  cf_values :: "group_id \<rightharpoonup> i64"
  cf_seen :: "group_id \<rightharpoonup> u64 set"

record counter_env =
  env_profile :: profile
  env_cmd :: "cmd codec"
  env_snap :: "(i64 \<times> u64 list) codec"
  env_iter :: "u64 set \<Rightarrow> u64 list"

definition counter_env_ok :: "counter_env \<Rightarrow> bool" where
  "counter_env_ok env \<longleftrightarrow>
     codec_ok (env_cmd env) \<and> codec_ok (env_snap env) \<and> (\<forall>s. set (env_iter env s) = s)"

definition counter_new :: counter_fsm where
  "counter_new = \<lparr>cf_values = Map.empty, cf_seen = Map.empty\<rparr>"

definition encode_add :: "counter_env \<Rightarrow> i64 \<Rightarrow> u64 \<Rightarrow> (counter_error, bytes) outcome" where
  "encode_add env delta idem =
     (case to_vec (env_cmd env) \<lparr>cmd_idem = idem, cmd_delta = delta\<rparr> of
        Ok b \<Rightarrow> Ok b | Err _ \<Rightarrow> Panicked | Panicked \<Rightarrow> Panicked)"

definition counter_value :: "counter_fsm \<Rightarrow> group_id \<Rightarrow> i64" where
  "counter_value f g = (case cf_values f g of Some v \<Rightarrow> v | None \<Rightarrow> 0)"

definition counter_seen :: "counter_fsm \<Rightarrow> group_id \<Rightarrow> u64 set" where
  "counter_seen f g = (case cf_seen f g of Some s \<Rightarrow> s | None \<Rightarrow> {})"

text \<open>
  The idempotency key is recorded before the addition, so a panicking addition (debug
  builds) leaves the key marked and the value as it was.
\<close>

definition counter_apply ::
  "counter_env \<Rightarrow> group_id \<Rightarrow> u64 \<Rightarrow> bytes \<Rightarrow> counter_fsm \<Rightarrow>
   (counter_error, apply_out) outcome \<times> counter_fsm" where
  "counter_apply env g idx data f =
     (case from_slice (env_cmd env) data of
        Err e \<Rightarrow> (Err (Decode e), f)
      | Panicked \<Rightarrow> (Panicked, f)
      | Ok c \<Rightarrow>
          let seen = counter_seen f g in
          if cmd_idem c \<in> seen then
            (Ok apply_out_default, f\<lparr>cf_seen := (cf_seen f)(g \<mapsto> seen)\<rparr>)
          else
            let f1 = f\<lparr>cf_seen := (cf_seen f)(g \<mapsto> insert (cmd_idem c) seen)\<rparr>;
                v = counter_value f1 g in
            case add_i64 (env_profile env) v (cmd_delta c) of
              None \<Rightarrow> (Panicked, f1\<lparr>cf_values := (cf_values f1)(g \<mapsto> v)\<rparr>)
            | Some v' \<Rightarrow> (Ok apply_out_default, f1\<lparr>cf_values := (cf_values f1)(g \<mapsto> v')\<rparr>))"

definition counter_snapshot :: "counter_env \<Rightarrow> group_id \<Rightarrow> counter_fsm \<Rightarrow> (counter_error, bytes) outcome" where
  "counter_snapshot env g f =
     (let v = counter_value f g;
          seen = (case cf_seen f g of Some s \<Rightarrow> env_iter env s | None \<Rightarrow> []) in
      case to_vec (env_snap env) (v, seen) of
        Ok b \<Rightarrow> Ok b | Err _ \<Rightarrow> Panicked | Panicked \<Rightarrow> Panicked)"

definition counter_restore ::
  "counter_env \<Rightarrow> group_id \<Rightarrow> bytes \<Rightarrow> counter_fsm \<Rightarrow> (counter_error, unit) outcome \<times> counter_fsm" where
  "counter_restore env g snapshot f =
     (case from_slice (env_snap env) snapshot of
        Err e \<Rightarrow> (Err (Decode e), f)
      | Panicked \<Rightarrow> (Panicked, f)
      | Ok (v, seen) \<Rightarrow>
          (Ok (), f\<lparr>cf_values := (cf_values f)(g \<mapsto> v), cf_seen := (cf_seen f)(g \<mapsto> set seen)\<rparr>))"

definition counter_ops :: "counter_env \<Rightarrow> (counter_fsm, counter_error) fsm_ops" where
  "counter_ops env =
     \<lparr>fsm_apply = counter_apply env, fsm_snapshot = counter_snapshot env,
      fsm_restore = counter_restore env,
      fsm_freeze_for_snapshot = default_freeze (counter_snapshot env)\<rparr>"

subsection \<open>CounterFsm is a state machine\<close>

text \<open>What the machine holds for one group; an absent entry is a zero and an empty set.\<close>

definition counter_view :: "counter_fsm \<Rightarrow> group_id \<Rightarrow> i64 \<times> u64 set" where
  "counter_view f g = (counter_value f g, counter_seen f g)"

lemma counter_value_upd [simp]:
  "counter_value (f\<lparr>cf_values := m\<rparr>) g = (case m g of Some v \<Rightarrow> v | None \<Rightarrow> 0)"
  "counter_value (f\<lparr>cf_seen := s\<rparr>) g = counter_value f g"
  by (simp_all add: counter_value_def)

lemma counter_seen_upd [simp]:
  "counter_seen (f\<lparr>cf_seen := m\<rparr>) g = (case m g of Some v \<Rightarrow> v | None \<Rightarrow> {})"
  "counter_seen (f\<lparr>cf_values := s\<rparr>) g = counter_seen f g"
  by (simp_all add: counter_seen_def)

text \<open>The effect of one decoded command on the view of its group, and its result.\<close>

lemma counter_apply_view:
  assumes "from_slice (env_cmd env) d = Ok c"
  shows "counter_view (snd (counter_apply env g i d f)) g =
      (if cmd_idem c \<in> counter_seen f g then counter_view f g
       else case add_i64 (env_profile env) (counter_value f g) (cmd_delta c) of
              None \<Rightarrow> (counter_value f g, insert (cmd_idem c) (counter_seen f g))
            | Some v \<Rightarrow> (v, insert (cmd_idem c) (counter_seen f g)))"
    and "fst (counter_apply env g i d f) =
      (if cmd_idem c \<notin> counter_seen f g \<and>
          add_i64 (env_profile env) (counter_value f g) (cmd_delta c) = None
       then Panicked else Ok apply_out_default)"
  using assms
  by (auto simp: counter_apply_def counter_view_def Let_def split: option.splits)

lemma counter_apply_other:
  "h \<noteq> g \<Longrightarrow> counter_view (snd (counter_apply env g i d f)) h = counter_view f h"
  by (simp add: counter_apply_def counter_view_def Let_def counter_value_def counter_seen_def
      split: outcome.split option.split)

lemma counter_apply_failed:
  "from_slice (env_cmd env) d = Err e \<Longrightarrow> counter_apply env g i d f = (Err (Decode e), f)"
  "from_slice (env_cmd env) d = Panicked \<Longrightarrow> counter_apply env g i d f = (Panicked, f)"
  by (simp_all add: counter_apply_def)

lemma counter_apply_cong:
  assumes "counter_view f g = counter_view f' g"
  shows "fst (counter_apply env g i d f) = fst (counter_apply env g i d f')"
    and "counter_view (snd (counter_apply env g i d f)) g = counter_view (snd (counter_apply env g i d f')) g"
proof -
  have v: "counter_value f g = counter_value f' g" "counter_seen f g = counter_seen f' g"
    using assms by (simp_all add: counter_view_def)
  show "fst (counter_apply env g i d f) = fst (counter_apply env g i d f')"
    by (cases "from_slice (env_cmd env) d")
      (simp_all add: counter_apply_failed counter_apply_view(2) v)
  show "counter_view (snd (counter_apply env g i d f)) g = counter_view (snd (counter_apply env g i d f')) g"
    by (cases "from_slice (env_cmd env) d")
      (simp_all add: counter_apply_failed counter_apply_view(1) v assms split: option.split)
qed

lemma counter_restore_snapshot:
  assumes "counter_env_ok env" "counter_snapshot env g f = Ok b"
  shows "fst (counter_restore env g b f') = Ok ()"
    and "counter_view (snd (counter_restore env g b f')) g = counter_view f g"
proof -
  let ?seen = "case cf_seen f g of Some s \<Rightarrow> env_iter env s | None \<Rightarrow> []"
  have "to_vec (env_snap env) (counter_value f g, ?seen) = Ok b"
    using assms(2) by (auto simp: counter_snapshot_def Let_def split: outcome.splits)
  with assms(1) have "from_slice (env_snap env) b = Ok (counter_value f g, ?seen)"
    by (auto simp: counter_env_ok_def intro: codec_ok_decode)
  moreover have "set ?seen = counter_seen f g"
    using assms(1) by (auto simp: counter_env_ok_def counter_seen_def split: option.splits)
  ultimately show "fst (counter_restore env g b f') = Ok ()"
    and "counter_view (snd (counter_restore env g b f')) g = counter_view f g"
    by (simp_all add: counter_restore_def counter_view_def counter_value_def counter_seen_def)
qed

lemma counter_snapshot_total: "counter_env_ok env \<Longrightarrow> \<exists>b. counter_snapshot env g f = Ok b"
proof -
  assume "counter_env_ok env"
  then have "codec_ok (env_snap env)" by (simp add: counter_env_ok_def)
  then obtain b where
    "to_vec (env_snap env)
       (counter_value f g, case cf_seen f g of Some s \<Rightarrow> env_iter env s | None \<Rightarrow> []) = Ok b"
    by (rule codec_okE)
  then show ?thesis by (simp add: counter_snapshot_def)
qed

interpretation counter: state_machine counter_env_ok counter_ops counter_view
proof unfold_locales
  fix c :: counter_env and s t g i d
  assume "counter_view s g = counter_view t g"
  then show "fst (fsm_apply (counter_ops c) g i d s) = fst (fsm_apply (counter_ops c) g i d t) \<and>
      counter_view (snd (fsm_apply (counter_ops c) g i d s)) g =
      counter_view (snd (fsm_apply (counter_ops c) g i d t)) g"
    by (auto simp: counter_ops_def dest: counter_apply_cong)
next
  fix c g s b t
  assume "counter_env_ok c" "fsm_snapshot (counter_ops c) g s = Ok b"
  then show "fst (fsm_restore (counter_ops c) g b t) = Ok () \<and>
      counter_view (snd (fsm_restore (counter_ops c) g b t)) g = counter_view s g"
    by (simp add: counter_ops_def counter_restore_snapshot)
next
  fix c and h g :: group_id and b s
  assume "h \<noteq> g"
  then show "counter_view (snd (fsm_restore (counter_ops c) g b s)) h = counter_view s h"
    by (simp add: counter_ops_def counter_restore_def counter_view_def counter_value_def
        counter_seen_def split: outcome.split prod.split)
qed (simp_all add: counter_ops_def counter_apply_other counter_snapshot_total default_freeze_def)

subsection \<open>Exactly-once counting\<close>

text \<open>
  The reference: of a sequence of commands only the first with each key counts, and
  only when the key was not seen before.
\<close>

fun fresh_cmds :: "u64 set \<Rightarrow> cmd list \<Rightarrow> cmd list" where
  "fresh_cmds seen [] = []"
| "fresh_cmds seen (c # cs) =
     (if cmd_idem c \<in> seen then fresh_cmds seen cs
      else c # fresh_cmds (insert (cmd_idem c) seen) cs)"

text \<open>The payloads of a log, as clients encode them, and the commands they carry.\<close>

definition encoded :: "counter_env \<Rightarrow> (u64 \<times> bytes) list \<Rightarrow> cmd list \<Rightarrow> bool" where
  "encoded env ds cs \<longleftrightarrow>
     list_all2 (\<lambda>(_, d) c. encode_add env (cmd_delta c) (cmd_idem c) = Ok d) ds cs"

lemma encode_add_decode:
  "counter_env_ok env \<Longrightarrow> encode_add env (cmd_delta c) (cmd_idem c) = Ok d \<Longrightarrow>
   from_slice (env_cmd env) d = Ok c"
  by (auto simp: encode_add_def counter_env_ok_def split: outcome.splits dest: codec_ok_decode)

lemma encode_add_total: "counter_env_ok env \<Longrightarrow> \<exists>b. encode_add env delta idem = Ok b"
proof -
  assume "counter_env_ok env"
  then have "codec_ok (env_cmd env)" by (simp add: counter_env_ok_def)
  then obtain b where "to_vec (env_cmd env) \<lparr>cmd_idem = idem, cmd_delta = delta\<rparr> = Ok b"
    by (rule codec_okE)
  then show ?thesis by (simp add: encode_add_def)
qed

lemma encoded_Nil [simp]: "encoded env [] cs \<longleftrightarrow> cs = []"
  by (simp add: encoded_def)

lemma encoded_Cons:
  "encoded env ((i, d) # ds) cs \<longleftrightarrow>
     (\<exists>c cs'. cs = c # cs' \<and> encode_add env (cmd_delta c) (cmd_idem c) = Ok d \<and> encoded env ds cs')"
  by (auto simp: encoded_def list_all2_Cons1)

lemma fresh_cmds_seen: "cmd_idem ` set cs \<subseteq> seen \<Longrightarrow> fresh_cmds seen cs = []"
  by (induction cs) auto

lemma counter_apply_decoded:
  assumes "from_slice (env_cmd env) d = Ok c" "counter_apply env g i d f = (r, f1)"
  shows "r = Panicked \<Longrightarrow> env_profile env \<noteq> Release"
    and "r \<noteq> Panicked \<Longrightarrow> r = Ok apply_out_default"
    and "r \<noteq> Panicked \<Longrightarrow> counter_value f1 g =
      (if cmd_idem c \<in> counter_seen f g then counter_value f g else counter_value f g + cmd_delta c)"
    and "r \<noteq> Panicked \<Longrightarrow> counter_seen f1 g = insert (cmd_idem c) (counter_seen f g)"
  using counter_apply_view [OF assms(1), of g i f] assms(2)
  by (auto simp: counter_view_def insert_absorb split: if_splits option.splits dest: add_i64_Some)

text \<open>The payloads of a log and the commands they decode to, whoever encoded them.\<close>

definition decodes :: "counter_env \<Rightarrow> (u64 \<times> bytes) list \<Rightarrow> cmd list \<Rightarrow> bool" where
  "decodes env ds cs \<longleftrightarrow> list_all2 (\<lambda>(_, d) c. from_slice (env_cmd env) d = Ok c) ds cs"

lemma decodes_Nil [simp]: "decodes env [] cs \<longleftrightarrow> cs = []"
  by (simp add: decodes_def)

lemma decodes_Cons:
  "decodes env ((i, d) # ds) cs \<longleftrightarrow>
     (\<exists>c cs'. cs = c # cs' \<and> from_slice (env_cmd env) d = Ok c \<and> decodes env ds cs')"
  by (auto simp: decodes_def list_all2_Cons1)

lemma encoded_decodes: "counter_env_ok env \<Longrightarrow> encoded env ds cs \<Longrightarrow> decodes env ds cs"
  unfolding encoded_def decodes_def by (erule list_all2_mono) (auto intro: encode_add_decode)

lemma decodes_mem: "decodes env ds cs \<Longrightarrow> d \<in> snd ` set ds \<Longrightarrow> \<exists>c \<in> set cs. from_slice (env_cmd env) d = Ok c"
  by (fastforce simp: decodes_def list_all2_conv_all_nth in_set_conv_nth)

text \<open>A machine accepts only payloads that decode.\<close>

lemma accepted_decodes: "fsm_run (counter_ops env) g ds f = (Ok (), f') \<Longrightarrow> \<exists>cs. decodes env ds cs"
proof (induction ds arbitrary: f)
  case (Cons x ds)
  obtain i d where x: "x = (i, d)" by (cases x)
  obtain r f1 where f1: "counter_apply env g i d f = (r, f1)" by (metis surj_pair)
  with Cons.prems x have r: "is_ok r" and rest: "fsm_run (counter_ops env) g ds f1 = (Ok (), f')"
    by (cases r; simp add: counter_ops_def)+
  obtain c where "from_slice (env_cmd env) d = Ok c"
    using f1 r by (cases "from_slice (env_cmd env) d") (auto simp: counter_apply_failed)
  with Cons.IH [OF rest] x show ?case by (auto simp: decodes_Cons)
qed (simp add: exI [of _ "[]"])

text \<open>
  What a prefix of decoded commands leaves, and how a run ends: it accepts everything, or
  it is a debug run that panics in the addition of the first command that counts and
  overflows.
\<close>

definition counted :: "counter_fsm \<Rightarrow> group_id \<Rightarrow> cmd list \<Rightarrow> i64" where
  "counted f g cs = counter_value f g + sum_list (map cmd_delta (fresh_cmds (counter_seen f g) cs))"

definition overflows_at :: "counter_fsm \<Rightarrow> group_id \<Rightarrow> cmd list \<Rightarrow> cmd \<Rightarrow> bool" where
  "overflows_at f g xs c \<longleftrightarrow>
     cmd_idem c \<notin> counter_seen f g \<union> cmd_idem ` set xs \<and> add_i64 Debug (counted f g xs) (cmd_delta c) = None"

lemma counter_run_decodes:
  assumes "decodes env ds cs" "fsm_run (counter_ops env) g ds f = (r, f')"
  shows "r = Ok () \<and> counter_value f' g = counted f g cs \<and> counter_seen f' g = counter_seen f g \<union> cmd_idem ` set cs \<or>
    r = Panicked \<and> env_profile env = Debug \<and>
    (\<exists>xs c ys. cs = xs @ c # ys \<and> overflows_at f g xs c \<and> counter_value f' g = counted f g xs \<and>
       counter_seen f' g = counter_seen f g \<union> cmd_idem ` set (xs @ [c]))"
  using assms
proof (induction ds arbitrary: f cs)
  case Nil
  then show ?case by (simp add: counted_def)
next
  case (Cons x ds)
  obtain i d where x: "x = (i, d)" by (cases x)
  with Cons.prems(1) obtain c cs' where cs: "cs = c # cs'"
    and dec: "from_slice (env_cmd env) d = Ok c" and rest: "decodes env ds cs'"
    by (auto simp: decodes_Cons)
  obtain q f1 where f1: "counter_apply env g i d f = (q, f1)" by (metis surj_pair)
  note view = counter_apply_view [OF dec, of g i f]
  show ?case
  proof (cases "q = Panicked")
    case True
    then have p: "r = Panicked" "f' = f1" using Cons.prems(2) x f1 by (simp_all add: counter_ops_def)
    have none: "cmd_idem c \<notin> counter_seen f g" "add_i64 (env_profile env) (counter_value f g) (cmd_delta c) = None"
      using view(2) f1 True by (auto split: if_splits)
    then have prof: "env_profile env = Debug" by (cases "env_profile env") auto
    have "overflows_at f g [] c" "counter_value f' g = counted f g []"
      "counter_seen f' g = counter_seen f g \<union> cmd_idem ` set ([] @ [c])"
      using none view(1) f1 p prof by (simp_all add: overflows_at_def counted_def counter_view_def)
    with p prof cs show ?thesis by (metis append_Nil)
  next
    case False
    note ap = counter_apply_decoded(2-4) [OF dec f1 False]
    have run: "fsm_run (counter_ops env) g ds f1 = (r, f')"
      using Cons.prems(2) f1 x ap(1) by (simp add: counter_ops_def)
    have step: "counted f1 g ys = counted f g (c # ys)"
      "counter_seen f1 g \<union> cmd_idem ` set ys = counter_seen f g \<union> cmd_idem ` set (c # ys)"
      "overflows_at f1 g ys b \<longleftrightarrow> overflows_at f g (c # ys) b" for ys b
      using ap(2,3) by (auto simp: counted_def overflows_at_def insert_absorb add.assoc)
    show ?thesis
      using Cons.IH [OF rest run] unfolding step cs by (metis append_Cons)
  qed
qed

lemma counter_run_cases:
  assumes "counter_env_ok env" "encoded env ds cs"
  shows "(env_profile env = Release \<longrightarrow> fst (fsm_run (counter_ops env) g ds f) = Ok ()) \<and>
    (fst (fsm_run (counter_ops env) g ds f) = Ok () \<longrightarrow>
      counter_view (snd (fsm_run (counter_ops env) g ds f)) g =
        (counter_value f g + sum_list (map cmd_delta (fresh_cmds (counter_seen f g) cs)),
         counter_seen f g \<union> cmd_idem ` set cs))"
  using counter_run_decodes [OF encoded_decodes [OF assms] prod.collapse [symmetric], of g f]
  by (auto simp: counter_view_def counted_def)

text \<open>With overflow checks on, a run that succeeds never wrapped: the integers add up.\<close>

lemma sint_add_debug: "add_i64 Debug a b = Some c \<Longrightarrow> sint c = sint a + sint b"
  by (auto simp: add_i64_def sint_word_ariths signed_take_bit_int_eq_self split: if_splits)

lemma counter_run_sint:
  assumes "counter_env_ok env" "encoded env ds cs" "env_profile env = Debug"
    "fst (fsm_run (counter_ops env) g ds f) = Ok ()"
  shows "sint (counter_value (snd (fsm_run (counter_ops env) g ds f)) g) =
    sint (counter_value f g) + (\<Sum>c\<leftarrow>fresh_cmds (counter_seen f g) cs. sint (cmd_delta c))"
  using assms(2,4)
proof (induction ds arbitrary: f cs)
  case Nil
  then show ?case by simp
next
  case (Cons x ds)
  obtain i d where x: "x = (i, d)" by (cases x)
  with Cons.prems obtain c cs' where cs: "cs = c # cs'"
    and enc: "encode_add env (cmd_delta c) (cmd_idem c) = Ok d" and rest: "encoded env ds cs'"
    by (auto simp: encoded_Cons)
  have dec: "from_slice (env_cmd env) d = Ok c" by (rule encode_add_decode [OF assms(1) enc])
  obtain r f1 where f1: "counter_apply env g i d f = (r, f1)" by (cases "counter_apply env g i d f")
  with Cons.prems(2) x have rOk: "is_ok r" by (cases r) (auto simp: counter_ops_def)
  have run: "fsm_run (counter_ops env) g (x # ds) f = fsm_run (counter_ops env) g ds f1"
    using f1 x rOk by (cases r) (auto simp: counter_ops_def)
  have "sint (counter_value f1 g) = (if cmd_idem c \<in> counter_seen f g then sint (counter_value f g)
          else sint (counter_value f g) + sint (cmd_delta c))"
    and "counter_seen f1 g = insert (cmd_idem c) (counter_seen f g)"
    using counter_apply_view [OF dec, of g i f] f1 rOk assms(3)
    by (auto simp: counter_view_def insert_absorb split: if_splits option.splits dest: sint_add_debug)
  with Cons.IH [OF rest, of f1] Cons.prems(2) run cs show ?case
    by (auto simp: insert_absorb)
qed

text \<open>
  When equal keys carry equal commands, the sum depends only on the set of commands
  delivered, not on their order or multiplicity.
\<close>

definition consistent_keys :: "cmd list \<Rightarrow> bool" where
  "consistent_keys cs \<longleftrightarrow> (\<forall>a\<in>set cs. \<forall>b\<in>set cs. cmd_idem a = cmd_idem b \<longrightarrow> a = b)"

lemma sum_fresh_cmds:
  "consistent_keys cs \<Longrightarrow>
   sum_list (map cmd_delta (fresh_cmds seen cs)) = (\<Sum>c\<in>{c \<in> set cs. cmd_idem c \<notin> seen}. cmd_delta c)"
proof (induction cs arbitrary: seen)
  case Nil
  then show ?case by simp
next
  case (Cons a cs)
  then have cons: "consistent_keys cs" by (simp add: consistent_keys_def)
  show ?case
  proof (cases "cmd_idem a \<in> seen")
    case True
    then have "{c \<in> set (a # cs). cmd_idem c \<notin> seen} = {c \<in> set cs. cmd_idem c \<notin> seen}" by auto
    with Cons.IH [OF cons] True show ?thesis by simp
  next
    case False
    let ?S = "{c \<in> set cs. cmd_idem c \<notin> insert (cmd_idem a) seen}"
    have "{c \<in> set (a # cs). cmd_idem c \<notin> seen} = insert a ?S"
      using False Cons.prems by (auto simp: consistent_keys_def)
    moreover have "a \<notin> ?S" by simp
    ultimately show ?thesis using False Cons.IH [OF cons] by simp
  qed
qed

text \<open>Replaying commands whose keys are all known succeeds and changes nothing, in any build.\<close>

lemma counter_run_seen:
  assumes "counter_env_ok env" "encoded env ds cs" "cmd_idem ` set cs \<subseteq> counter_seen f g"
  shows "fst (fsm_run (counter_ops env) g ds f) = Ok () \<and>
    counter_view (snd (fsm_run (counter_ops env) g ds f)) g = counter_view f g"
  using assms(2,3)
proof (induction ds arbitrary: f cs)
  case Nil
  then show ?case by simp
next
  case (Cons x ds)
  obtain i d where x: "x = (i, d)" by (cases x)
  with Cons.prems obtain c cs' where cs: "cs = c # cs'"
    and enc: "encode_add env (cmd_delta c) (cmd_idem c) = Ok d" and rest: "encoded env ds cs'"
    by (auto simp: encoded_Cons)
  have dec: "from_slice (env_cmd env) d = Ok c" by (rule encode_add_decode [OF assms(1) enc])
  obtain r f1 where f1: "counter_apply env g i d f = (r, f1)" by (cases "counter_apply env g i d f")
  have seen: "cmd_idem c \<in> counter_seen f g" using Cons.prems(2) cs by simp
  then have r: "r = Ok apply_out_default" and v: "counter_view f1 g = counter_view f g"
    using counter_apply_view [OF dec, of g i f] f1 by simp_all
  have "fsm_run (counter_ops env) g (x # ds) f = fsm_run (counter_ops env) g ds f1"
    using f1 x r by (simp add: counter_ops_def)
  with Cons.IH [OF rest, of f1] v Cons.prems(2) cs show ?case by (simp add: counter_view_def)
qed

subsection \<open>A concrete context\<close>

definition cmd_pickler :: "cmd pickler" where
  "cmd_pickler = iso_pickler (\<lambda>c. (cmd_idem c, cmd_delta c))
     (\<lambda>(i, d). \<lparr>cmd_idem = i, cmd_delta = d\<rparr>) (pair_pickler word_pickler word_pickler)"

definition sample_env :: "profile \<Rightarrow> counter_env" where
  "sample_env prof =
     \<lparr>env_profile = prof, env_cmd = codec_of cmd_pickler,
      env_snap = codec_of (pair_pickler word_pickler (list_pickler word_pickler)),
      env_iter = sorted_list_of_set\<rparr>"

lemma sample_env_ok [simp]: "counter_env_ok (sample_env prof)"
  by (simp add: counter_env_ok_def sample_env_def cmd_pickler_def codec_of_ok iso_pickler_ok)

definition sample_add :: "i64 \<Rightarrow> u64 \<Rightarrow> bytes" where
  "sample_add delta idem = pickle cmd_pickler \<lparr>cmd_idem = idem, cmd_delta = delta\<rparr>"

lemma encode_sample_add [simp]: "encode_add (sample_env prof) delta idem = Ok (sample_add delta idem)"
  by (simp add: encode_add_def sample_env_def codec_of_def sample_add_def)

lemma decode_sample_add [simp]:
  "from_slice (env_cmd (sample_env prof)) (sample_add delta idem) =
     Ok \<lparr>cmd_idem = idem, cmd_delta = delta\<rparr>"
  by (rule encode_add_decode) simp_all

definition sample_log :: "(u64 \<times> bytes) list" where
  "sample_log = [(1, sample_add 10 42), (2, sample_add 10 42), (3, sample_add 5 43)]"

definition sample_cmds :: "cmd list" where
  "sample_cmds = [\<lparr>cmd_idem = 42, cmd_delta = 10\<rparr>, \<lparr>cmd_idem = 42, cmd_delta = 10\<rparr>,
                  \<lparr>cmd_idem = 43, cmd_delta = 5\<rparr>]"

lemma sample_encoded [simp]: "encoded (sample_env prof) sample_log sample_cmds"
  by (simp add: sample_log_def sample_cmds_def encoded_Cons)

lemma sample_env_profile [simp]: "env_profile (sample_env prof) = prof"
  by (simp add: sample_env_def)

lemma counter_new_view [simp]: "counter_value counter_new g = 0" "counter_seen counter_new g = {}"
  by (simp_all add: counter_new_def counter_value_def counter_seen_def)

subsection \<open>Properties\<close>

text \<open>
  C3. Exactly-once counting. Applying the encoded commands of a log to a group adds the
  deltas of the first command with each new idempotency key, and nothing for a key
  already seen; the keys seen afterwards are the old ones and those of the log. A release
  build always succeeds. Any other result is the panic of a debug build, and it comes from
  a command \<open>c\<close> of the log whose key is new there and whose addition to the value
  reached before it overflows: the group keeps that value, with the keys of the commands
  up to \<open>c\<close> marked as seen.
\<close>

theorem counter_exactly_once:
  assumes "counter_env_ok env" and "encoded env ds cs"
    and "fsm_run (counter_ops env) g ds f = (r, f')"
  shows "(env_profile env = Release \<longrightarrow> r = Ok ()) \<and>
    (r = Ok () \<longrightarrow>
       counter_value f' g =
         counter_value f g + sum_list (map cmd_delta (fresh_cmds (counter_seen f g) cs)) \<and>
       counter_seen f' g = counter_seen f g \<union> cmd_idem ` set cs) \<and>
    (r \<noteq> Ok () \<longrightarrow> r = Panicked \<and> env_profile env = Debug \<and>
       (\<exists>xs c ys. cs = xs @ c # ys \<and> cmd_idem c \<notin> counter_seen f g \<union> cmd_idem ` set xs \<and>
          (let v = counter_value f g + sum_list (map cmd_delta (fresh_cmds (counter_seen f g) xs)) in
           add_i64 Debug v (cmd_delta c) = None \<and> counter_value f' g = v \<and>
           counter_seen f' g = counter_seen f g \<union> cmd_idem ` set (xs @ [c]))))"
  using counter_run_decodes [OF encoded_decodes [OF assms(1,2)] assms(3)]
  unfolding counted_def overflows_at_def Let_def by auto

theorem counter_exactly_once_witness:
  "counter_value (snd (fsm_run (counter_ops (sample_env Release)) 1 sample_log counter_new)) 1 = 15"
proof -
  obtain r f' where run: "fsm_run (counter_ops (sample_env Release)) 1 sample_log counter_new = (r, f')"
    by (cases "fsm_run (counter_ops (sample_env Release)) 1 sample_log counter_new")
  then show ?thesis
    using counter_exactly_once [OF sample_env_ok sample_encoded run]
    by (simp add: sample_cmds_def)
qed

text \<open>
  C20. No silent wrap-around in a checked build: when a debug run over a log succeeds, the
  counter as a signed integer is exactly the old value plus the signed deltas that count.
\<close>

theorem counter_debug_exact:
  assumes "counter_env_ok env" and "encoded env ds cs" and "env_profile env = Debug"
    and "fsm_run (counter_ops env) g ds f = (Ok (), f')"
  shows "sint (counter_value f' g) =
    sint (counter_value f g) + (\<Sum>c\<leftarrow>fresh_cmds (counter_seen f g) cs. sint (cmd_delta c))"
  using counter_run_sint [OF assms(1-3), of g f] assms(4) by simp

lemma sample_debug_run:
  "\<exists>f'. fsm_run (counter_ops (sample_env Debug)) 1 sample_log counter_new = (Ok (), f')"
  by (simp add: sample_log_def counter_ops_def counter_apply_def add_i64_def counter_value_def
      counter_seen_def counter_new_def)

theorem counter_debug_exact_witness:
  "\<exists>f'. fsm_run (counter_ops (sample_env Debug)) 1 sample_log counter_new = (Ok (), f') \<and>
        sint (counter_value f' 1) = 15"
proof -
  obtain f' where run: "fsm_run (counter_ops (sample_env Debug)) 1 sample_log counter_new = (Ok (), f')"
    using sample_debug_run by blast
  have "sint (counter_value f' 1) = 15"
    using counter_debug_exact [OF sample_env_ok sample_encoded _ run]
    by (simp add: sample_cmds_def)
  with run show ?thesis by blast
qed

text \<open>
  Order and duplication do not matter: if equal keys carry equal commands, two
  deliveries of the same set of commands, in any order and with any repetitions, leave
  the group with the same value and the same seen keys.
\<close>

theorem counter_delivery_independent:
  assumes "counter_env_ok env" and "env_profile env = Release"
    and "encoded env ds cs" and "encoded env ds' cs'"
    and "consistent_keys cs" and "set cs = set cs'"
  shows "counter_view (snd (fsm_run (counter_ops env) g ds f)) g =
         counter_view (snd (fsm_run (counter_ops env) g ds' f)) g"
proof -
  have "consistent_keys cs'" using assms(5,6) by (simp add: consistent_keys_def)
  then show ?thesis
    using counter_run_cases [OF assms(1,3), of g f] counter_run_cases [OF assms(1,4), of g f] assms(2,5,6)
    by (simp add: sum_fresh_cmds)
qed

theorem counter_delivery_independent_witness:
  "counter_view (snd (fsm_run (counter_ops (sample_env Release)) 1 sample_log counter_new)) 1 =
   counter_view (snd (fsm_run (counter_ops (sample_env Release)) 1
      [(1, sample_add 5 43), (2, sample_add 10 42)] counter_new)) 1"
proof (rule counter_delivery_independent)
  show "encoded (sample_env Release) sample_log sample_cmds" by simp
  show "encoded (sample_env Release) [(1, sample_add 5 43), (2, sample_add 10 42)]
      [\<lparr>cmd_idem = 43, cmd_delta = 5\<rparr>, \<lparr>cmd_idem = 42, cmd_delta = 10\<rparr>]"
    by (simp add: encoded_Cons)
qed (auto simp: sample_cmds_def consistent_keys_def)

text \<open>
  Retrying is harmless: once a log holding a command with some idempotency key has
  been applied, applying a payload with the same key again, at any index, succeeds and
  leaves the value and the seen keys of every group as they are.
\<close>

theorem counter_retry_is_noop:
  assumes "counter_env_ok env" and "encoded env ds cs"
    and "fsm_run (counter_ops env) g ds f = (Ok (), f1)"
    and "encode_add env delta idem = Ok d" and "idem \<in> cmd_idem ` set cs"
  shows "fst (counter_apply env g i d f1) = Ok apply_out_default \<and>
    (\<forall>h. counter_view (snd (counter_apply env g i d f1)) h = counter_view f1 h)"
proof -
  have seen: "idem \<in> counter_seen f1 g"
    using counter_run_cases [OF assms(1,2), of g f] assms(3,5) by (simp add: counter_view_def)
  have dec: "from_slice (env_cmd env) d = Ok \<lparr>cmd_idem = idem, cmd_delta = delta\<rparr>"
    using assms(1,4) by (auto intro: encode_add_decode)
  have "counter_view (snd (counter_apply env g i d f1)) h = counter_view f1 h" for h
    using counter_apply_view(1) [OF dec, of g i f1] seen
    by (cases "h = g") (simp_all add: counter_apply_other)
  with counter_apply_view(2) [OF dec, of g i f1] seen show ?thesis by simp
qed

theorem counter_retry_is_noop_witness:
  "\<exists>f1. fsm_run (counter_ops (sample_env Debug)) 1 sample_log counter_new = (Ok (), f1) \<and>
     fst (counter_apply (sample_env Debug) 1 9 (sample_add 10 42) f1) = Ok apply_out_default \<and>
     counter_view (snd (counter_apply (sample_env Debug) 1 9 (sample_add 10 42) f1)) 1 = counter_view f1 1"
proof -
  obtain f1 where run: "fsm_run (counter_ops (sample_env Debug)) 1 sample_log counter_new = (Ok (), f1)"
    using sample_debug_run by blast
  with counter_retry_is_noop [OF sample_env_ok sample_encoded run encode_sample_add, of 42 9 10]
  show ?thesis by (auto simp: sample_cmds_def)
qed

text \<open>
  C21. Snapshot round trip and recovery: the snapshot of a group after a prefix of the log,
  restored into any other machine, succeeds, and running the rest of the log there gives
  the same result, value and seen keys as running the whole log on the original.
\<close>

theorem counter_snapshot_recovery:
  assumes "counter_env_ok env"
    and "fsm_run (counter_ops env) g xs f = (Ok (), f1)"
    and "counter_snapshot env g f1 = Ok b"
    and "counter_restore env g b f2 = (r, f3)"
  shows "r = Ok () \<and>
    fst (fsm_run (counter_ops env) g ys f3) = fst (fsm_run (counter_ops env) g (xs @ ys) f) \<and>
    counter_view (snd (fsm_run (counter_ops env) g ys f3)) g =
      counter_view (snd (fsm_run (counter_ops env) g (xs @ ys) f)) g"
proof -
  have "fsm_snapshot (counter_ops env) g f1 = Ok b" "fsm_restore (counter_ops env) g b f2 = (r, f3)"
    using assms(3,4) by (simp_all add: counter_ops_def)
  note rec = counter.snapshot_replaces_prefix [OF assms(1,2) this]
  show ?thesis using rec(1) rec(2,3) [of ys] by blast
qed

theorem counter_snapshot_recovery_witness:
  "\<exists>b f3. counter_restore (sample_env Debug) 1 b counter_new = (Ok (), f3) \<and>
     counter_view (snd (fsm_run (counter_ops (sample_env Debug)) 1 [(4, sample_add 10 42)] f3)) 1 =
     counter_view (snd (fsm_run (counter_ops (sample_env Debug)) 1
        (sample_log @ [(4, sample_add 10 42)]) counter_new)) 1"
proof -
  obtain f1 where run: "fsm_run (counter_ops (sample_env Debug)) 1 sample_log counter_new = (Ok (), f1)"
    using sample_debug_run by blast
  obtain b where b: "counter_snapshot (sample_env Debug) 1 f1 = Ok b"
    using counter_snapshot_total [OF sample_env_ok] by blast
  obtain r f3 where r: "counter_restore (sample_env Debug) 1 b counter_new = (r, f3)"
    by (cases "counter_restore (sample_env Debug) 1 b counter_new")
  from counter_snapshot_recovery [OF sample_env_ok run b r, of "[(4, sample_add 10 42)]"] r
  show ?thesis by auto
qed

text \<open>
  Groups are isolated: no sequence of payloads applied to one group, well-formed or
  not, changes what the machine holds for another group.
\<close>

theorem counter_group_isolation:
  assumes "counter_env_ok env" and "h \<noteq> g"
  shows "counter_view (snd (fsm_run (counter_ops env) g ds f)) h = counter_view f h"
  using assms by (rule counter.run_frame)

theorem counter_group_isolation_witness:
  "counter_view (snd (fsm_run (counter_ops (sample_env Release)) 1 sample_log counter_new)) 2 =
   counter_view counter_new 2"
  by (rule counter_group_isolation) simp_all

text \<open>A payload that no command encodes to, for the concrete context.\<close>

lemma sample_undecodable: "from_slice (env_cmd (sample_env prof)) (replicate 129 0) = Err ''invalid''"
proof -
  have "length (drop 128 (replicate 129 0 :: bytes)) = 1" by simp
  then obtain x where "drop 128 (replicate 129 0 :: bytes) = [x]"
    by (metis One_nat_def Suc_length_conv length_0_conv)
  then show ?thesis
    by (simp add: sample_env_def codec_of_def cmd_pickler_def iso_pickler_def pair_pickler_def
        word_pickler_def drop_drop del: drop_replicate)
qed

end
