(* ===== verification/Demo.thy ===== *)
theory Demo
  imports Multi_Raft Counter_Fsm
begin

unbundle bit_operations_syntax

section \<open>multiraft-demo: the demo binary\<close>

text \<open>
  \<^verbatim>\<open>main.rs\<close> of \<^verbatim>\<open>crates/multiraft-demo\<close>: how the command line becomes node
  configurations, the start-up of both modes, the idempotency keys, the propose loop and
  the admin handlers. The handlers run on the state of the process (\<open>demo_state\<close>)
  and the world; argument parsing, logging, sockets and the HTTP framework are not
  modelled, a handler is the function axum calls.
\<close>

subsection \<open>State and data\<close>

datatype mode = ClusterMode | NodeMode

datatype role_arg = VoterArg | StandbyArg

record args =
  arg_mode :: mode
  arg_node_id :: "u64 option"
  arg_base_port :: u16
  arg_groups :: u64
  arg_data_dir :: path
  arg_nodes :: u64
  arg_role :: role_arg
  arg_no_auto_propose :: bool

text \<open>The command line without options.\<close>

definition args_default :: args where
  "args_default =
     \<lparr>arg_mode = ClusterMode, arg_node_id = None, arg_base_port = 21000, arg_groups = 10, arg_data_dir = [''.demo-data''],
      arg_nodes = 3, arg_role = VoterArg, arg_no_auto_propose = False\<rparr>"

record ('r, 'l, 'm) demo_state =
  ds_nodes :: "('r, counter_fsm, 'l, 'm) multi_raft list"
  ds_group_ids :: "group_id list"
  ds_idem :: u64
  ds_node_id_base :: u64

datatype status_code = OK | NOT_FOUND | CONFLICT | SERVICE_UNAVAILABLE | INTERNAL_SERVER_ERROR

record inc_ok_resp =
  io_ok :: bool
  io_index :: u64
  io_term :: u64
  io_group :: u64

record group_value_resp =
  gv_group :: u64
  gv_value :: i64
  gv_leader :: "u64 option"
  gv_consistency :: string
  gv_stale :: "bool option"

record inc_req =
  ir_delta :: i64
  ir_idem :: "u64 option"

definition default_delta :: i64 where
  "default_delta = 1"

fun show_hint :: "node_id option \<Rightarrow> string" where
  "show_hint None = ''None''"
| "show_hint (Some n) = ''Some('' @ show_u64 n @ '')''"

text \<open>The \<open>Display\<close> of \<open>MultiRaftError\<close>.\<close>

fun show_multiraft_error :: "multiraft_error \<Rightarrow> string" where
  "show_multiraft_error (NotLeader hint) = ''not leader; hint='' @ show_hint hint"
| "show_multiraft_error (UnknownGroup g) = ''unknown group '' @ show_u64 g"
| "show_multiraft_error (Other e) = e"

subsection \<open>Configuration\<close>

text \<open>\<^verbatim>\<open>(1..=n)\<close> and \<^verbatim>\<open>(0..n)\<close>.\<close>

definition one_to :: "u64 \<Rightarrow> u64 list" where
  "one_to n = map of_nat [1..<Suc (unat n)]"

definition zero_upto :: "u64 \<Rightarrow> u64 list" where
  "zero_upto n = map of_nat [0..<unat n]"

definition peer_addrs :: "u16 \<Rightarrow> u64 \<Rightarrow> (u64 \<times> socket_addr) list" where
  "peer_addrs base_port nodes =
     map (\<lambda>pid. (pid, loopback (saturating_add_u16 base_port (saturating_sub_u16 (ucast pid) 1)))) (one_to nodes)"

definition admin_addr_for_node :: "u16 \<Rightarrow> u64 \<Rightarrow> socket_addr" where
  "admin_addr_for_node base_port nid =
     loopback (saturating_add_u16 (saturating_add_u16 base_port 100) (saturating_sub_u16 (ucast nid) 1))"

definition validate_counts :: "args \<Rightarrow> (string, unit) outcome" where
  "validate_counts a =
     (if arg_nodes a < 1 then Err ''--nodes must be >= 1''
      else if arg_groups a < 1 then Err ''--groups must be >= 1''
      else Ok ())"

definition cluster_configs :: "args \<Rightarrow> cluster_config list" where
  "cluster_configs a =
     map (\<lambda>nid.
       \<lparr>cfg_node_id = nid, cfg_peers = peer_addrs (arg_base_port a) (arg_nodes a),
        cfg_data_dir = arg_data_dir a @ [''node-'' @ show_u64 nid],
        cfg_heartbeat_interval_ms = 100, cfg_election_timeout_min_ms = 300, cfg_election_timeout_max_ms = 600,
        cfg_role = Voter, cfg_snapshot_mode = Disabled, cfg_snapshot_keep = 2,
        cfg_admin_advertise_addr = Some (loopback (arg_base_port a))\<rparr>) (one_to (arg_nodes a))"

text \<open>
  The part of \<^verbatim>\<open>run_node\<close> before the node starts; \<open>standby_env\<close> says whether
  the environment variable \<^verbatim>\<open>STANDBY\<close> is \<^verbatim>\<open>1\<close>.
\<close>

definition node_config :: "bool \<Rightarrow> args \<Rightarrow> (string, cluster_config) outcome" where
  "node_config standby_env a =
     (case validate_counts a of
        Err e \<Rightarrow> Err e
      | Panicked \<Rightarrow> Panicked
      | Ok _ \<Rightarrow>
          (case arg_node_id a of
             None \<Rightarrow> Err ''--node-id is required for --mode node''
           | Some nid \<Rightarrow>
               let role = (case arg_role a of VoterArg \<Rightarrow> Voter | StandbyArg \<Rightarrow> Standby);
                   snapshot_mode = (if role = Standby \<or> standby_env then StandbyOffload else Disabled);
                   max_peer = max (arg_nodes a) nid in
               if nid < 1 then Err ''--node-id must be >= 1''
               else if role = Voter \<and> arg_nodes a < nid then
                 Err (''voter --node-id must be in 1..='' @ show_u64 (arg_nodes a))
               else Ok \<lparr>cfg_node_id = nid, cfg_peers = peer_addrs (arg_base_port a) max_peer,
                        cfg_data_dir = arg_data_dir a, cfg_heartbeat_interval_ms = 100,
                        cfg_election_timeout_min_ms = 300, cfg_election_timeout_max_ms = 600,
                        cfg_role = role, cfg_snapshot_mode = snapshot_mode, cfg_snapshot_keep = 2,
                        cfg_admin_advertise_addr = Some (admin_addr_for_node (arg_base_port a) nid)\<rparr>))"

subsection \<open>Start-up\<close>

text \<open>Cluster mode: every group on every node; the first error ends it.\<close>

fun create_on_nodes ::
  "('r, 's, 'e, 'l, 'm, 'v) mr_env \<Rightarrow> group_id \<Rightarrow> node_id list \<Rightarrow> ('r, 's, 'l, 'm) multi_raft list \<Rightarrow> world \<Rightarrow>
   (multiraft_error, unit) outcome \<times> ('r, 's, 'l, 'm) multi_raft list \<times> world" where
  "create_on_nodes env gid members [] w = (Ok (), [], w)"
| "create_on_nodes env gid members (n # ns) w =
     (case create_group env gid members n w of
        (Ok _, n', w1) \<Rightarrow>
          (case create_on_nodes env gid members ns w1 of (r, ns', w2) \<Rightarrow> (r, n' # ns', w2))
      | (r, n', w1) \<Rightarrow> (r, n' # ns, w1))"

fun create_groups ::
  "('r, 's, 'e, 'l, 'm, 'v) mr_env \<Rightarrow> group_id list \<Rightarrow> node_id list \<Rightarrow> ('r, 's, 'l, 'm) multi_raft list \<Rightarrow> world \<Rightarrow>
   (multiraft_error, unit) outcome \<times> ('r, 's, 'l, 'm) multi_raft list \<times> world" where
  "create_groups env [] members ns w = (Ok (), ns, w)"
| "create_groups env (gid # gids) members ns w =
     (case create_on_nodes env gid members ns w of
        (Ok _, ns', w1) \<Rightarrow> create_groups env gids members ns' w1
      | (r, ns', w1) \<Rightarrow> (r, ns', w1))"

text \<open>Node mode: at most 20 rounds over all groups; a round stops at its first error.\<close>

fun create_round ::
  "('r, 's, 'e, 'l, 'm, 'v) mr_env \<Rightarrow> group_id list \<Rightarrow> node_id list \<Rightarrow> ('r, 's, 'l, 'm) multi_raft \<Rightarrow> world \<Rightarrow>
   (group_id \<times> multiraft_error, unit) outcome \<times> ('r, 's, 'l, 'm) multi_raft \<times> world" where
  "create_round env [] members n w = (Ok (), n, w)"
| "create_round env (gid # gids) members n w =
     (case create_group env gid members n w of
        (Ok _, n', w1) \<Rightarrow> create_round env gids members n' w1
      | (Err e, n', w1) \<Rightarrow> (Err (gid, e), n', w1)
      | (Panicked, n', w1) \<Rightarrow> (Panicked, n', w1))"

fun create_with_retries ::
  "nat \<Rightarrow> ('r, 's, 'e, 'l, 'm, 'v) mr_env \<Rightarrow> group_id list \<Rightarrow> node_id list \<Rightarrow> (group_id \<times> multiraft_error) option \<Rightarrow>
   ('r, 's, 'l, 'm) multi_raft \<Rightarrow> world \<Rightarrow> (string, unit) outcome \<times> ('r, 's, 'l, 'm) multi_raft \<times> world" where
  "create_with_retries 0 env gids members last_err n w =
     (case last_err of
        Some (gid, e) \<Rightarrow> Err (''create_group '' @ show_u64 gid @ '' failed after retries: '' @ show_multiraft_error e)
      | None \<Rightarrow> Ok (), n, w)"
| "create_with_retries (Suc attempts) env gids members last_err n w =
     (case create_round env gids members n w of
        (Ok _, n', w1) \<Rightarrow> (Ok (), n', w1)
      | (Err e, n', w1) \<Rightarrow> create_with_retries attempts env gids members (Some e) n' w1
      | (Panicked, n', w1) \<Rightarrow> (Panicked, n', w1))"

definition node_groups ::
  "('r, 's, 'e, 'l, 'm, 'v) mr_env \<Rightarrow> args \<Rightarrow> ('r, 's, 'l, 'm) multi_raft \<Rightarrow> world \<Rightarrow>
   (string, unit) outcome \<times> ('r, 's, 'l, 'm) multi_raft \<times> world" where
  "node_groups env a n w =
     create_with_retries 20 env (zero_upto (arg_groups a)) (one_to (arg_nodes a)) None n w"

text \<open>
  \<^verbatim>\<open>wait_local_sees_leaders\<close>. A tick is one sleep of 100 ms: \<open>seen t gid\<close> is the
  leader the node reports for the group at tick \<open>t\<close>, \<open>late t\<close> that the
  deadline has passed then. The loop has no bound of its own, so it is given fuel;
  \<open>None\<close> is a loop that has not ended yet.
\<close>

fun wait_group ::
  "nat \<Rightarrow> (nat \<Rightarrow> group_id \<Rightarrow> node_id option) \<Rightarrow> (nat \<Rightarrow> bool) \<Rightarrow> group_id \<Rightarrow> nat \<Rightarrow> (group_id, nat) outcome option" where
  "wait_group 0 seen late gid t = None"
| "wait_group (Suc fuel) seen late gid t =
     (if seen t gid \<noteq> None then Some (Ok t)
      else if late t then Some (Err gid)
      else wait_group fuel seen late gid (Suc t))"

fun wait_local_sees_leaders ::
  "nat \<Rightarrow> (nat \<Rightarrow> group_id \<Rightarrow> node_id option) \<Rightarrow> (nat \<Rightarrow> bool) \<Rightarrow> group_id list \<Rightarrow> nat \<Rightarrow> (group_id, nat) outcome option" where
  "wait_local_sees_leaders fuel seen late [] t = Some (Ok t)"
| "wait_local_sees_leaders fuel seen late (gid # gids) t =
     (case wait_group fuel seen late gid t of
        Some (Ok t') \<Rightarrow> wait_local_sees_leaders fuel seen late gids t'
      | r \<Rightarrow> r)"

text \<open>The state of a process once its nodes run; \<^verbatim>\<open>node_id << 32\<close> loses the high bits.\<close>

definition cluster_state ::
  "args \<Rightarrow> ('r, counter_fsm, 'l, 'm) multi_raft list \<Rightarrow> ('r, 'l, 'm) demo_state" where
  "cluster_state a ns =
     \<lparr>ds_nodes = ns, ds_group_ids = zero_upto (arg_groups a), ds_idem = 1, ds_node_id_base = 0\<rparr>"

definition node_state ::
  "args \<Rightarrow> node_id \<Rightarrow> ('r, counter_fsm, 'l, 'm) multi_raft \<Rightarrow> ('r, 'l, 'm) demo_state" where
  "node_state a nid n =
     \<lparr>ds_nodes = [n], ds_group_ids = zero_upto (arg_groups a), ds_idem = 1, ds_node_id_base = push_bit 32 nid\<rparr>"

subsection \<open>Idempotency keys\<close>

text \<open>\<^verbatim>\<open>fetch_add\<close> wraps; the key takes the low 32 bits of the counter.\<close>

definition next_idem :: "('r, 'l, 'm) demo_state \<Rightarrow> u64 \<times> ('r, 'l, 'm) demo_state" where
  "next_idem st =
     (let local = ds_idem st
      in (ds_node_id_base st OR (local AND 0xffffffff), st\<lparr>ds_idem := ds_idem st + 1\<rparr>))"

subsection \<open>Operations on the leader\<close>

text \<open>
  The loops that try an operation on every local node that believes it leads the group: a
  \<open>NotLeader\<close> moves on, any other error ends the loop. \<open>None\<close> when the
  loop runs out of nodes.
\<close>

type_synonym ('r, 'l, 'm, 'a) node_op =
  "('r, counter_fsm, 'l, 'm) multi_raft \<Rightarrow> world \<Rightarrow>
   (multiraft_error, 'a) outcome \<times> ('r, counter_fsm, 'l, 'm) multi_raft \<times> world"

fun try_leaders ::
  "(('r, counter_fsm, 'l, 'm) multi_raft \<Rightarrow> bool) \<Rightarrow> ('r, 'l, 'm, 'a) node_op \<Rightarrow>
   ('r, counter_fsm, 'l, 'm) multi_raft list \<Rightarrow> world \<Rightarrow>
   (multiraft_error, 'a) outcome option \<times> ('r, counter_fsm, 'l, 'm) multi_raft list \<times> world" where
  "try_leaders leads op [] w = (None, [], w)"
| "try_leaders leads op (n # ns) w =
     (if \<not> leads n then (case try_leaders leads op ns w of (r, ns', w') \<Rightarrow> (r, n # ns', w'))
      else
        case op n w of
          (Ok a, n', w1) \<Rightarrow> (Some (Ok a), n' # ns, w1)
        | (Err (NotLeader hint), n', w1) \<Rightarrow>
            (case try_leaders leads op ns w1 of (r, ns', w') \<Rightarrow> (r, n' # ns', w'))
        | (Err e, n', w1) \<Rightarrow> (Some (Err e), n' # ns, w1)
        | (Panicked, n', w1) \<Rightarrow> (Some Panicked, n' # ns, w1))"

text \<open>The second loop of \<^verbatim>\<open>group_inc\<close>: every node, remembering the last \<open>NotLeader\<close>.\<close>

fun try_all ::
  "('r, 'l, 'm, 'a) node_op \<Rightarrow> multiraft_error option \<Rightarrow> ('r, counter_fsm, 'l, 'm) multi_raft list \<Rightarrow> world \<Rightarrow>
   ((multiraft_error, 'a) outcome option \<times> multiraft_error option) \<times> ('r, counter_fsm, 'l, 'm) multi_raft list \<times> world" where
  "try_all op last_err [] w = ((None, last_err), [], w)"
| "try_all op last_err (n # ns) w =
     (case op n w of
        (Ok a, n', w1) \<Rightarrow> ((Some (Ok a), last_err), n' # ns, w1)
      | (Err (NotLeader hint), n', w1) \<Rightarrow>
          (case try_all op (Some (NotLeader hint)) ns w1 of (r, ns', w') \<Rightarrow> (r, n' # ns', w'))
      | (Err e, n', w1) \<Rightarrow> ((Some (Err e), last_err), n' # ns, w1)
      | (Panicked, n', w1) \<Rightarrow> ((Some Panicked, last_err), n' # ns, w1))"

type_synonym 'a http_result = "(status_code \<times> string, 'a) outcome"

definition unknown_group :: "group_id \<Rightarrow> status_code \<times> string" where
  "unknown_group gid = (NOT_FOUND, ''unknown group '' @ show_u64 gid)"

fun inc_result :: "group_id \<Rightarrow> (multiraft_error, propose_ok) outcome \<Rightarrow> inc_ok_resp http_result" where
  "inc_result gid (Ok ok) = Ok \<lparr>io_ok = True, io_index = po_index ok, io_term = po_term ok, io_group = gid\<rparr>"
| "inc_result gid (Err e) = Err (CONFLICT, show_multiraft_error e)"
| "inc_result gid Panicked = Panicked"

definition group_inc ::
  "counter_env \<Rightarrow> ('r, counter_fsm, 'e, 'l, 'm, 'v) mr_env \<Rightarrow> group_id \<Rightarrow> inc_req \<Rightarrow> ('r, 'l, 'm) demo_state \<Rightarrow> world \<Rightarrow>
   inc_ok_resp http_result \<times> ('r, 'l, 'm) demo_state \<times> world" where
  "group_inc cenv env gid body st w =
     (if gid \<notin> set (ds_group_ids st) then (Err (unknown_group gid), st, w)
      else
        let (idem, st1) = (case ir_idem body of Some i \<Rightarrow> (i, st) | None \<Rightarrow> next_idem st) in
        case encode_add cenv (ir_delta body) idem of
          Ok data \<Rightarrow>
            (case try_leaders (\<lambda>n. is_leader env n gid) (propose env gid data) (ds_nodes st1) w of
               (Some r, ns, w1) \<Rightarrow> (inc_result gid r, st1\<lparr>ds_nodes := ns\<rparr>, w1)
             | (None, ns, w1) \<Rightarrow>
                 (case try_all (propose env gid data) None ns w1 of
                    ((Some r, _), ns2, w2) \<Rightarrow> (inc_result gid r, st1\<lparr>ds_nodes := ns2\<rparr>, w2)
                  | ((None, last_err), ns2, w2) \<Rightarrow>
                      (Err (SERVICE_UNAVAILABLE,
                            case last_err of Some e \<Rightarrow> show_multiraft_error e | None \<Rightarrow> ''no local leader''),
                       st1\<lparr>ds_nodes := ns2\<rparr>, w2)))
        | _ \<Rightarrow> (Panicked, st1, w))"

definition admin_standby_snapshot ::
  "('r, counter_fsm, 'e, 'l, 'm, 'v) mr_env \<Rightarrow> group_id \<Rightarrow> ('r, 'l, 'm) demo_state \<Rightarrow> world \<Rightarrow>
   inc_ok_resp http_result \<times> ('r, 'l, 'm) demo_state \<times> world" where
  "admin_standby_snapshot env gid st w =
     (if gid \<notin> set (ds_group_ids st) then (Err (unknown_group gid), st, w)
      else
        case try_leaders (\<lambda>n. is_leader env n gid) (trigger_standby_snapshot env gid) (ds_nodes st) w of
          (Some r, ns, w1) \<Rightarrow> (inc_result gid r, st\<lparr>ds_nodes := ns\<rparr>, w1)
        | (None, ns, w1) \<Rightarrow> (Err (SERVICE_UNAVAILABLE, ''no local leader''), st\<lparr>ds_nodes := ns\<rparr>, w1))"

definition admin_add_standby ::
  "('r, counter_fsm, 'e, 'l, 'm, 'v) mr_env \<Rightarrow> group_id \<Rightarrow> node_id \<Rightarrow> ('r, 'l, 'm) demo_state \<Rightarrow> world \<Rightarrow>
   (group_id \<times> node_id) http_result \<times> ('r, 'l, 'm) demo_state \<times> world" where
  "admin_add_standby env gid standby_id st w =
     (case try_leaders (\<lambda>n. is_leader env n gid) (add_standby env gid standby_id) (ds_nodes st) w of
        (Some r, ns, w1) \<Rightarrow>
          (case r of Ok _ \<Rightarrow> Ok (gid, standby_id)
                   | Err e \<Rightarrow> Err (CONFLICT, show_multiraft_error e)
                   | Panicked \<Rightarrow> Panicked, st\<lparr>ds_nodes := ns\<rparr>, w1)
      | (None, ns, w1) \<Rightarrow> (Err (SERVICE_UNAVAILABLE, ''no local leader''), st\<lparr>ds_nodes := ns\<rparr>, w1))"

text \<open>One group of one round of the propose loop: the first local leader is tried, once.\<close>

fun propose_on_leader ::
  "counter_env \<Rightarrow> ('r, counter_fsm, 'e, 'l, 'm, 'v) mr_env \<Rightarrow> group_id \<Rightarrow> u64 \<Rightarrow>
   ('r, counter_fsm, 'l, 'm) multi_raft list \<Rightarrow> world \<Rightarrow>
   (multiraft_error, propose_ok) outcome option \<times> ('r, counter_fsm, 'l, 'm) multi_raft list \<times> world" where
  "propose_on_leader cenv env gid idem [] w = (None, [], w)"
| "propose_on_leader cenv env gid idem (n # ns) w =
     (if \<not> is_leader env n gid then
        (case propose_on_leader cenv env gid idem ns w of (r, ns', w') \<Rightarrow> (r, n # ns', w'))
      else
        case encode_add cenv 1 idem of
          Ok data \<Rightarrow> (case propose env gid data n w of (r, n', w') \<Rightarrow> (Some r, n' # ns, w'))
        | _ \<Rightarrow> (Some Panicked, n # ns, w))"

text \<open>A key is drawn only when there is a local leader.\<close>

definition propose_group ::
  "counter_env \<Rightarrow> ('r, counter_fsm, 'e, 'l, 'm, 'v) mr_env \<Rightarrow> group_id \<Rightarrow> ('r, 'l, 'm) demo_state \<Rightarrow> world \<Rightarrow>
   (multiraft_error, propose_ok) outcome option \<times> ('r, 'l, 'm) demo_state \<times> world" where
  "propose_group cenv env gid st w =
     (if list_ex (\<lambda>n. is_leader env n gid) (ds_nodes st) then
        let (idem, st1) = next_idem st in
        case propose_on_leader cenv env gid idem (ds_nodes st1) w of
          (r, ns, w1) \<Rightarrow> (r, st1\<lparr>ds_nodes := ns\<rparr>, w1)
      else (None, st, w))"

text \<open>A round over all groups; when an encoding panics, the task of the loop is gone (\<open>False\<close>).\<close>

fun propose_round ::
  "counter_env \<Rightarrow> ('r, counter_fsm, 'e, 'l, 'm, 'v) mr_env \<Rightarrow> group_id list \<Rightarrow> ('r, 'l, 'm) demo_state \<Rightarrow> world \<Rightarrow>
   bool \<times> ('r, 'l, 'm) demo_state \<times> world" where
  "propose_round cenv env [] st w = (True, st, w)"
| "propose_round cenv env (gid # gids) st w =
     (case propose_group cenv env gid st w of
        (Some Panicked, st1, w1) \<Rightarrow> (False, st1, w1)
      | (_, st1, w1) \<Rightarrow> propose_round cenv env gids st1 w1)"

subsection \<open>Reading\<close>

text \<open>
  The loops over linearizable reads: the first success is the answer, every error
  (not the leader or another) moves on.
\<close>

fun try_reads ::
  "(('r, counter_fsm, 'l, 'm) multi_raft \<Rightarrow> bool) \<Rightarrow> ('r, 'l, 'm, i64) node_op \<Rightarrow>
   ('r, counter_fsm, 'l, 'm) multi_raft list \<Rightarrow> world \<Rightarrow>
   (unit, i64) outcome option \<times> ('r, counter_fsm, 'l, 'm) multi_raft list \<times> world" where
  "try_reads sel rd [] w = (None, [], w)"
| "try_reads sel rd (n # ns) w =
     (if \<not> sel n then (case try_reads sel rd ns w of (r, ns', w') \<Rightarrow> (r, n # ns', w'))
      else
        case rd n w of
          (Ok v, n', w1) \<Rightarrow> (Some (Ok v), n' # ns, w1)
        | (Err e, n', w1) \<Rightarrow> (case try_reads sel rd ns w1 of (r, ns', w') \<Rightarrow> (r, n' # ns', w'))
        | (Panicked, n', w1) \<Rightarrow> (Some Panicked, n' # ns, w1))"

definition max_i64 :: "i64 \<Rightarrow> i64 \<Rightarrow> i64" where
  "max_i64 a b = (if sint a \<le> sint b then b else a)"

definition best_local :: "group_id \<Rightarrow> ('r, counter_fsm, 'l, 'm) multi_raft list \<Rightarrow> i64 option" where
  "best_local gid ns =
     fold (\<lambda>n best. case with_fsm n gid (\<lambda>f. counter_value f gid) of
                      Some v \<Rightarrow> Some (case best of None \<Rightarrow> v | Some b \<Rightarrow> max_i64 b v)
                    | None \<Rightarrow> best) ns None"

definition read_group_value_best_effort ::
  "('r, counter_fsm, 'e, 'l, 'm, 'v) mr_env \<Rightarrow> group_id \<Rightarrow> ('r, counter_fsm, 'l, 'm) multi_raft list \<Rightarrow> world \<Rightarrow>
   (unit, i64 \<times> string) outcome \<times> ('r, counter_fsm, 'l, 'm) multi_raft list \<times> world" where
  "read_group_value_best_effort env gid ns w =
     (let rd = read_linearizable env gid (\<lambda>f. counter_value f gid) in
      case try_reads (\<lambda>n. is_leader env n gid) rd ns w of
        (Some (Ok v), ns1, w1) \<Rightarrow> (Ok (v, ''linearizable''), ns1, w1)
      | (Some _, ns1, w1) \<Rightarrow> (Panicked, ns1, w1)
      | (None, ns1, w1) \<Rightarrow>
          (case try_reads (\<lambda>_. True) rd ns1 w1 of
             (Some (Ok v), ns2, w2) \<Rightarrow> (Ok (v, ''linearizable''), ns2, w2)
           | (Some _, ns2, w2) \<Rightarrow> (Panicked, ns2, w2)
           | (None, ns2, w2) \<Rightarrow>
               (case best_local gid ns2 of Some v \<Rightarrow> Ok (v, ''local'') | None \<Rightarrow> Err (), ns2, w2)))"

fun find_leader ::
  "('r, 's, 'e, 'l, 'm, 'v) mr_env \<Rightarrow> group_id \<Rightarrow> ('r, 's, 'l, 'm) multi_raft list \<Rightarrow> node_id option" where
  "find_leader env gid [] = None"
| "find_leader env gid (n # ns) = (case leader env n gid of Some l \<Rightarrow> Some l | None \<Rightarrow> find_leader env gid ns)"

definition group_value ::
  "('r, counter_fsm, 'e, 'l, 'm, 'v) mr_env \<Rightarrow> group_id \<Rightarrow> ('r, 'l, 'm) demo_state \<Rightarrow> world \<Rightarrow>
   (status_code, group_value_resp) outcome \<times> ('r, 'l, 'm) demo_state \<times> world" where
  "group_value env gid st w =
     (if gid \<notin> set (ds_group_ids st) then (Err NOT_FOUND, st, w)
      else
        let leader = find_leader env gid (ds_nodes st) in
        case read_group_value_best_effort env gid (ds_nodes st) w of
          (r, ns, w1) \<Rightarrow>
            (case r of
               Ok (v, c) \<Rightarrow>
                 if c = ''linearizable'' then
                   Ok \<lparr>gv_group = gid, gv_value = v, gv_leader = leader, gv_consistency = ''linearizable'', gv_stale = None\<rparr>
                 else
                   Ok \<lparr>gv_group = gid, gv_value = v, gv_leader = leader, gv_consistency = ''local'', gv_stale = Some True\<rparr>
             | Err _ \<Rightarrow> Err SERVICE_UNAVAILABLE
             | Panicked \<Rightarrow> Panicked, st\<lparr>ds_nodes := ns\<rparr>, w1))"

text \<open>What \<^verbatim>\<open>print_status\<close> logs for a group; a group without any value is shown with 0.\<close>

record status_line =
  sl_group :: group_id
  sl_leader :: "node_id option"
  sl_value :: i64
  sl_consistency :: string
  sl_links :: nat

fun status_lines ::
  "('r, counter_fsm, 'e, 'l, 'm, 'v) mr_env \<Rightarrow> nat \<Rightarrow> group_id list \<Rightarrow> ('r, counter_fsm, 'l, 'm) multi_raft list \<Rightarrow> world \<Rightarrow>
   status_line list option \<times> ('r, counter_fsm, 'l, 'm) multi_raft list \<times> world" where
  "status_lines env links [] ns w = (Some [], ns, w)"
| "status_lines env links (gid # gids) ns w =
     (let leader = find_leader env gid ns in
      case read_group_value_best_effort env gid ns w of
        (Panicked, ns1, w1) \<Rightarrow> (None, ns1, w1)
      | (r, ns1, w1) \<Rightarrow>
          let (v, c) = (case r of Ok vc \<Rightarrow> vc | _ \<Rightarrow> (0, ''unavailable'')) in
          (case status_lines env links gids ns1 w1 of
             (ls, ns2, w2) \<Rightarrow>
               (map_option (\<lambda>ls. \<lparr>sl_group = gid, sl_leader = leader, sl_value = v, sl_consistency = c, sl_links = links\<rparr> # ls) ls,
                ns2, w2)))"

subsection \<open>The other admin handlers\<close>

definition first_peer_links :: "('r, 'l, 'm) demo_state \<Rightarrow> world \<Rightarrow> nat" where
  "first_peer_links st w = (case ds_nodes st of n # _ \<Rightarrow> mr_peer_links n w | [] \<Rightarrow> 0)"

definition print_status ::
  "('r, counter_fsm, 'e, 'l, 'm, 'v) mr_env \<Rightarrow> ('r, 'l, 'm) demo_state \<Rightarrow> world \<Rightarrow>
   status_line list option \<times> ('r, 'l, 'm) demo_state \<times> world" where
  "print_status env st w =
     (case status_lines env (first_peer_links st w) (ds_group_ids st) (ds_nodes st) w of
        (ls, ns, w') \<Rightarrow> (ls, st\<lparr>ds_nodes := ns\<rparr>, w'))"

definition admin_post_snapshot_ad ::
  "('r, counter_fsm, 'e, 'l, 'm, 'v) mr_env \<Rightarrow> snapshot_advertisement \<Rightarrow> ('r, 'l, 'm) demo_state \<Rightarrow> world \<Rightarrow>
   status_code \<times> ('r, 'l, 'm) demo_state \<times> world" where
  "admin_post_snapshot_ad env ad st w =
     (case ds_nodes st of
        n # ns \<Rightarrow> (case record_snapshot_ad env ad n w of (n', w') \<Rightarrow> (OK, st\<lparr>ds_nodes := n' # ns\<rparr>, w'))
      | [] \<Rightarrow> (SERVICE_UNAVAILABLE, st, w))"

definition admin_get_snapshot_ads :: "('r, 'l, 'm) demo_state \<Rightarrow> snapshot_advertisement list" where
  "admin_get_snapshot_ads st = (case ds_nodes st of n # _ \<Rightarrow> snapshot_ads n | [] \<Rightarrow> [])"

text \<open>The entry the answer is described with, and the image.\<close>

definition snapshot_latest ::
  "('r, counter_fsm, 'e, 'l, 'm, 'v) mr_env \<Rightarrow> group_id \<Rightarrow> ('r, 'l, 'm) demo_state \<Rightarrow> world \<Rightarrow>
   (status_code, catalog_entry \<times> bytes) outcome" where
  "snapshot_latest env gid st w =
     (case ds_nodes st of
        [] \<Rightarrow> Err SERVICE_UNAVAILABLE
      | n # _ \<Rightarrow>
          (case sr_catalog (mr_snapshot_rt n) of
             None \<Rightarrow> Err NOT_FOUND
           | Some catalog \<Rightarrow>
               (case fst (catalog_latest (me_os env) (sx_catalog (me_sm env)) catalog gid (wd_fs w)) of
                  Ok (Some ent) \<Rightarrow>
                    (case fst (catalog_read (me_os env) (sx_catalog (me_sm env)) catalog gid (ce_snapshot_id ent) (wd_fs w)) of
                       Ok (Some data) \<Rightarrow> Ok (ent, data)
                     | Panicked \<Rightarrow> Panicked
                     | _ \<Rightarrow> Err NOT_FOUND)
                | Panicked \<Rightarrow> Panicked
                | _ \<Rightarrow> Err NOT_FOUND)))"

fun shutdown_first ::
  "('r, 's, 'e, 'l, 'm, 'v) mr_env \<Rightarrow> node_id \<Rightarrow> ('r, 's, 'l, 'm) multi_raft list \<Rightarrow> world \<Rightarrow>
   (status_code, node_id) outcome \<times> ('r, 's, 'l, 'm) multi_raft list \<times> world" where
  "shutdown_first env nid [] w = (Err NOT_FOUND, [], w)"
| "shutdown_first env nid (n # ns) w =
     (if mr_node_id n = nid then
        (case shutdown env n w of
           (Ok _, n', w') \<Rightarrow> (Ok nid, n' # ns, w')
         | (Err e, n', w') \<Rightarrow> (Err INTERNAL_SERVER_ERROR, n' # ns, w')
         | (Panicked, n', w') \<Rightarrow> (Panicked, n' # ns, w'))
      else case shutdown_first env nid ns w of (r, ns', w') \<Rightarrow> (r, n # ns', w'))"

definition shutdown_node ::
  "('r, counter_fsm, 'e, 'l, 'm, 'v) mr_env \<Rightarrow> node_id \<Rightarrow> ('r, 'l, 'm) demo_state \<Rightarrow> world \<Rightarrow>
   (status_code, node_id) outcome \<times> ('r, 'l, 'm) demo_state \<times> world" where
  "shutdown_node env nid st w =
     (case shutdown_first env nid (ds_nodes st) w of (r, ns, w') \<Rightarrow> (r, st\<lparr>ds_nodes := ns\<rparr>, w'))"

subsection \<open>Serving requests\<close>

text \<open>The bodies of the answers, as far as they are not above.\<close>

record links_resp =
  lr_unique_peer_links :: nat

record shutdown_node_resp =
  sn_node_id :: u64
  sn_ok :: bool

record err_resp =
  er_ok :: bool
  er_error :: string

record snapshot_latest_meta =
  lm_group :: u64
  lm_last_index :: u64
  lm_last_term :: u64
  lm_snapshot_id :: string
  lm_size :: u64
  lm_sha256_hex :: string

definition metrics_links :: "('r, 'l, 'm) demo_state \<Rightarrow> world \<Rightarrow> links_resp" where
  "metrics_links st w = \<lparr>lr_unique_peer_links = first_peer_links st w\<rparr>"

text \<open>
  The headers of \<^verbatim>\<open>snapshot_latest\<close>. \<open>json\<close> is the serialization of the
  description, \<open>header_value\<close> says which strings may be the value of a header: a
  description that is not one is left out.
\<close>

record web_env =
  we_json :: "snapshot_latest_meta \<Rightarrow> string option"
  we_header_value :: "string \<Rightarrow> bool"

definition snapshot_headers :: "web_env \<Rightarrow> catalog_entry \<Rightarrow> (string \<times> string) list" where
  "snapshot_headers web entry =
     (let meta = \<lparr>lm_group = ce_group entry, lm_last_index = ce_last_index entry, lm_last_term = ce_last_term entry,
                  lm_snapshot_id = ce_snapshot_id entry, lm_size = ce_size entry, lm_sha256_hex = ce_sha256_hex entry\<rparr>
      in (case we_json web meta of
            Some v \<Rightarrow> if we_header_value web v then [(''x-snapshot-meta'', v)] else []
          | None \<Rightarrow> []) @ [(''content-type'', ''application/octet-stream'')])"

text \<open>
  A request as \<^verbatim>\<open>serve_admin\<close> hands it to a handler, with the parameters of its path
  and the decoded body, and the answers. The routes: \<open>GroupValue\<close> is
  \<^verbatim>\<open>GET /groups/:id/value\<close>, \<open>GroupInc\<close> \<^verbatim>\<open>POST /groups/:id/inc\<close>,
  \<open>MetricsLinks\<close> \<^verbatim>\<open>GET /metrics/links\<close>, \<open>ShutdownNode\<close>
  \<^verbatim>\<open>POST /admin/shutdown_node/:id\<close>, \<open>StandbySnapshot\<close>
  \<^verbatim>\<open>POST /admin/standby_snapshot/:id\<close>, \<open>PostSnapshotAd\<close> and
  \<open>GetSnapshotAds\<close> \<^verbatim>\<open>/admin/snapshot_ads\<close>, \<open>AddStandby\<close>
  \<^verbatim>\<open>POST /admin/add_standby/:group/:standby_id\<close>, \<open>SnapshotLatest\<close>
  \<^verbatim>\<open>GET /snapshots/:id/latest\<close>.
\<close>

datatype admin_request =
  GroupValue group_id
| GroupInc group_id inc_req
| MetricsLinks
| ShutdownNode node_id
| StandbySnapshot group_id
| PostSnapshotAd snapshot_advertisement
| GetSnapshotAds
| AddStandby group_id node_id
| SnapshotLatest group_id

datatype admin_response =
  ValueJson group_value_resp
| IncJson inc_ok_resp
| LinksJson links_resp
| ShutdownJson shutdown_node_resp
| StandbyJson group_id node_id
| AdsJson "snapshot_advertisement list"
| Image "(string \<times> string) list" bytes
| Status status_code
| ErrJson status_code err_resp

text \<open>What becomes of the result of a handler; \<open>None\<close> is a handler that panicked.\<close>

fun status_response :: "('a \<Rightarrow> admin_response) \<Rightarrow> (status_code, 'a) outcome \<Rightarrow> admin_response option" where
  "status_response f (Ok a) = Some (f a)"
| "status_response f (Err c) = Some (Status c)"
| "status_response f Panicked = None"

fun json_response :: "('a \<Rightarrow> admin_response) \<Rightarrow> 'a http_result \<Rightarrow> admin_response option" where
  "json_response f (Ok a) = Some (f a)"
| "json_response f (Err (c, e)) = Some (ErrJson c \<lparr>er_ok = False, er_error = e\<rparr>)"
| "json_response f Panicked = None"

fun serve_admin ::
  "web_env \<Rightarrow> counter_env \<Rightarrow> ('r, counter_fsm, 'e, 'l, 'm, 'v) mr_env \<Rightarrow> admin_request \<Rightarrow> ('r, 'l, 'm) demo_state \<Rightarrow> world \<Rightarrow>
   admin_response option \<times> ('r, 'l, 'm) demo_state \<times> world" where
  "serve_admin web cenv env (GroupValue g) st w =
     (case group_value env g st w of (r, s) \<Rightarrow> (status_response ValueJson r, s))"
| "serve_admin web cenv env (GroupInc g body) st w =
     (case group_inc cenv env g body st w of (r, s) \<Rightarrow> (json_response IncJson r, s))"
| "serve_admin web cenv env MetricsLinks st w = (Some (LinksJson (metrics_links st w)), st, w)"
| "serve_admin web cenv env (ShutdownNode nid) st w =
     (case shutdown_node env nid st w of
        (r, s) \<Rightarrow> (status_response (\<lambda>i. ShutdownJson \<lparr>sn_node_id = i, sn_ok = True\<rparr>) r, s))"
| "serve_admin web cenv env (StandbySnapshot g) st w =
     (case admin_standby_snapshot env g st w of (r, s) \<Rightarrow> (json_response IncJson r, s))"
| "serve_admin web cenv env (PostSnapshotAd ad) st w =
     (case admin_post_snapshot_ad env ad st w of (c, s) \<Rightarrow> (Some (Status c), s))"
| "serve_admin web cenv env GetSnapshotAds st w = (Some (AdsJson (admin_get_snapshot_ads st)), st, w)"
| "serve_admin web cenv env (AddStandby g nid) st w =
     (case admin_add_standby env g nid st w of (r, s) \<Rightarrow> (json_response (\<lambda>(g, i). StandbyJson g i) r, s))"
| "serve_admin web cenv env (SnapshotLatest g) st w =
     (status_response (\<lambda>(entry, data). Image (snapshot_headers web entry) data) (snapshot_latest env g st w), st, w)"

subsection \<open>Running a process\<close>

text \<open>
  The start-up of both modes. The background work of openraft while a process waits for
  leaders is not part of the model: the waits are given what they see (\<open>rounds\<close>,
  \<open>seen\<close> and \<open>late\<close>), and in node mode fuel, \<open>None\<close> being a
  wait that has not ended. Errors are shown as \<^verbatim>\<open>anyhow\<close> shows them; the callback
  that only logs leader changes is number 0.
\<close>

fun await_leaders ::
  "('r, 's, 'e, 'l, 'm, 'v) mr_env \<Rightarrow> (group_id \<Rightarrow> ('r, 's, 'l, 'm) multi_raft list list) \<Rightarrow> group_id list \<Rightarrow>
   (string, unit) outcome" where
  "await_leaders env rounds [] = Ok ()"
| "await_leaders env rounds (gid # gids) =
     (case wait_for_leader env gid (rounds gid) of
        Some l \<Rightarrow> await_leaders env rounds gids
      | None \<Rightarrow> Err (''no leader elected for group '' @ show_u64 gid))"

definition run_cluster ::
  "('r, counter_fsm, 'e, 'l, 'm, 'v) mr_env \<Rightarrow> (group_id \<Rightarrow> ('r, counter_fsm, 'l, 'm) multi_raft list list) \<Rightarrow> args \<Rightarrow> fs \<Rightarrow>
   (string, ('r, 'l, 'm) demo_state) outcome \<times> world" where
  "run_cluster env rounds a fs =
     (let w0 = \<lparr>wd_fabric = shared_fabric_new, wd_fs = fs\<rparr>; group_ids = zero_upto (arg_groups a) in
      case validate_counts a of
        Err e \<Rightarrow> (Err e, w0)
      | Panicked \<Rightarrow> (Panicked, w0)
      | Ok _ \<Rightarrow>
          (case fs_create_dir_all (me_os env) (arg_data_dir a) fs of
             (Err e, fs1) \<Rightarrow> (Err (io_error_msg e), w0\<lparr>wd_fs := fs1\<rparr>)
           | (Panicked, fs1) \<Rightarrow> (Panicked, w0\<lparr>wd_fs := fs1\<rparr>)
           | (Ok _, fs1) \<Rightarrow>
               (case start_cluster env (cluster_configs a) fs1 of
                  (Err e, w1) \<Rightarrow> (Err e, w1)
                | (Panicked, w1) \<Rightarrow> (Panicked, w1)
                | (Ok ns, w1) \<Rightarrow>
                    (case create_groups env group_ids (one_to (arg_nodes a)) ns w1 of
                       (Err e, ns', w2) \<Rightarrow> (Err (show_multiraft_error e), w2)
                     | (Panicked, ns', w2) \<Rightarrow> (Panicked, w2)
                     | (Ok _, ns', w2) \<Rightarrow>
                         (case await_leaders env rounds group_ids of
                            Err e \<Rightarrow> Err e
                          | Panicked \<Rightarrow> Panicked
                          | Ok _ \<Rightarrow> Ok (cluster_state a (map (on_leader_change 0) ns')), w2)))))"

definition await_local_leaders ::
  "nat \<Rightarrow> (nat \<Rightarrow> group_id \<Rightarrow> node_id option) \<Rightarrow> (nat \<Rightarrow> bool) \<Rightarrow> node_role \<Rightarrow> node_id \<Rightarrow> group_id list \<Rightarrow>
   (string, unit) outcome option" where
  "await_local_leaders fuel seen late role nid group_ids =
     (if role = Voter then
        (case wait_local_sees_leaders fuel seen late group_ids 0 of
           None \<Rightarrow> None
         | Some (Ok _) \<Rightarrow> Some (Ok ())
         | Some (Err gid) \<Rightarrow>
             Some (Err (''timeout waiting for local node '' @ show_u64 nid @ '' to see a leader for group '' @ show_u64 gid))
         | Some Panicked \<Rightarrow> Some Panicked)
      else Some (Ok ()))"

definition run_node ::
  "('r, counter_fsm, 'e, 'l, 'm, 'v) mr_env \<Rightarrow> nat \<Rightarrow> (nat \<Rightarrow> group_id \<Rightarrow> node_id option) \<Rightarrow> (nat \<Rightarrow> bool) \<Rightarrow> bool \<Rightarrow> args \<Rightarrow>
   world \<Rightarrow> (string, ('r, 'l, 'm) demo_state) outcome option \<times> world" where
  "run_node env fuel seen late standby_env a w =
     (case node_config standby_env a of
        Err e \<Rightarrow> (Some (Err e), w)
      | Panicked \<Rightarrow> (Some Panicked, w)
      | Ok cfg \<Rightarrow>
          (case fs_create_dir_all (me_os env) (arg_data_dir a) (wd_fs w) of
             (Err e, fs1) \<Rightarrow> (Some (Err (io_error_msg e)), w\<lparr>wd_fs := fs1\<rparr>)
           | (Panicked, fs1) \<Rightarrow> (Some Panicked, w\<lparr>wd_fs := fs1\<rparr>)
           | (Ok _, fs1) \<Rightarrow>
               (case start_grpc_inner env cfg (w\<lparr>wd_fs := fs1\<rparr>) of
                  (Err e, w1) \<Rightarrow> (Some (Err e), w1)
                | (Panicked, w1) \<Rightarrow> (Some Panicked, w1)
                | (Ok n, w1) \<Rightarrow>
                    (case node_groups env a n w1 of
                       (Err e, n', w2) \<Rightarrow> (Some (Err e), w2)
                     | (Panicked, n', w2) \<Rightarrow> (Some Panicked, w2)
                     | (Ok _, n', w2) \<Rightarrow>
                         (case await_local_leaders fuel seen late (cfg_role cfg) (cfg_node_id cfg) (zero_upto (arg_groups a)) of
                            None \<Rightarrow> None
                          | Some (Err e) \<Rightarrow> Some (Err e)
                          | Some Panicked \<Rightarrow> Some Panicked
                          | Some (Ok _) \<Rightarrow>
                              let n1 = on_leader_change 0 n';
                                  n2 = (if cfg_role cfg = Standby then on_snapshot_ready n1 else n1)
                              in Some (Ok (node_state a (cfg_node_id cfg) n2)), w2)))))"

text \<open>
  \<^verbatim>\<open>main\<close> after parsing; a process has a file system to itself and, in cluster mode,
  a router of its own. The last component says whether the propose loop is started.
\<close>

definition auto_proposes :: "args \<Rightarrow> bool" where
  "auto_proposes a \<longleftrightarrow>
     \<not> arg_no_auto_propose a \<and> (case arg_mode a of ClusterMode \<Rightarrow> True | NodeMode \<Rightarrow> arg_role a \<noteq> StandbyArg)"

definition main ::
  "('r, counter_fsm, 'e, 'l, 'm, 'v) mr_env \<Rightarrow> (group_id \<Rightarrow> ('r, counter_fsm, 'l, 'm) multi_raft list list) \<Rightarrow>
   nat \<Rightarrow> (nat \<Rightarrow> group_id \<Rightarrow> node_id option) \<Rightarrow> (nat \<Rightarrow> bool) \<Rightarrow> bool \<Rightarrow> args \<Rightarrow> fs \<Rightarrow>
   (string, ('r, 'l, 'm) demo_state) outcome option \<times> world \<times> bool" where
  "main env rounds fuel seen late standby_env a fs =
     (case arg_mode a of
        ClusterMode \<Rightarrow> (case run_cluster env rounds a fs of (r, w) \<Rightarrow> (Some r, w, auto_proposes a))
      | NodeMode \<Rightarrow>
          (case run_node env fuel seen late standby_env a \<lparr>wd_fabric = shared_fabric_new, wd_fs = fs\<rparr> of
             (r, w) \<Rightarrow> (r, w, auto_proposes a)))"

subsection \<open>Publishing advertisements\<close>

text \<open>
  \<^verbatim>\<open>http_post_json\<close> writes one request on a fresh connection and does not look at the
  answer; \<open>connect\<close> says which addresses accept. The result are the requests
  that were sent, in order: a voter that cannot be reached is skipped.
\<close>

definition crlf :: string where
  "crlf = [CHR 0x0D, CHR 0x0A]"

definition http_post_json :: "socket_addr \<Rightarrow> string \<Rightarrow> bytes \<Rightarrow> bytes" where
  "http_post_json addr path body =
     map (\<lambda>c. of_nat (of_char c)) (''POST '' @ path @ '' HTTP/1.1'' @ crlf @ ''Host: '' @ show_socket_addr addr @ crlf @
       ''Content-Type: application/json'' @ crlf @ ''Content-Length: '' @ show_nat (length body) @ crlf @
       ''Connection: close'' @ crlf @ crlf) @ body"

definition voter_admins :: "args \<Rightarrow> socket_addr list" where
  "voter_admins a = map (admin_addr_for_node (arg_base_port a)) (one_to (arg_nodes a))"

definition publish_snapshot_ad ::
  "(socket_addr \<Rightarrow> bool) \<Rightarrow> snapshot_advertisement codec \<Rightarrow> socket_addr list \<Rightarrow> snapshot_advertisement \<Rightarrow>
   (string, (socket_addr \<times> bytes) list) outcome" where
  "publish_snapshot_ad connect codec addrs ad =
     (case to_vec codec ad of
        Ok body \<Rightarrow> Ok (map (\<lambda>addr. (addr, http_post_json addr ''/admin/snapshot_ads'' body)) (filter connect addrs))
      | Err e \<Rightarrow> Err e
      | Panicked \<Rightarrow> Panicked)"

end
