(* ===== verification/Sm_Props.thy ===== *)
theory Sm_Props
  imports Sm_Bridge Catalog_Props Counter_Fsm
begin

section \<open>Properties of the state-machine bridge\<close>

text \<open>
  The batch loop is related to the replay of the commands in it, snapshots to the state
  they were taken from, and the standby's asynchronous snapshots to the log positions they
  are labelled with. What needs the machine's contract is proved inside
  \<open>state_machine\<close> and stated for \<open>CounterFsm\<close>.
\<close>

subsection \<open>What a batch holds\<close>

fun commands :: "('l, 'm) entry list \<Rightarrow> (u64 \<times> bytes) list" where
  "commands [] = []"
| "commands (e # es) =
     (case ent_payload e of
        Normal req \<Rightarrow>
          if is_standby_snapshot_trigger (req_data req) then commands es
          else (lid_index (ent_log_id e), req_data req) # commands es
      | _ \<Rightarrow> commands es)"

fun triggers :: "('l, 'm) raft_types \<Rightarrow> group_id \<Rightarrow> ('l, 'm) entry list \<Rightarrow> (group_id \<times> u64 \<times> u64) list" where
  "triggers rt g [] = []"
| "triggers rt g (e # es) =
     (case ent_payload e of
        Normal req \<Rightarrow>
          if is_standby_snapshot_trigger (req_data req)
          then (g, lid_index (ent_log_id e), rt_term rt (lid_leader (ent_log_id e))) # triggers rt g es
          else triggers rt g es
      | _ \<Rightarrow> triggers rt g es)"

fun membership_after :: "('l, 'm) entry list \<Rightarrow> ('l, 'm) stored_membership \<Rightarrow> ('l, 'm) stored_membership" where
  "membership_after [] m = m"
| "membership_after (e # es) m =
     membership_after es
       (case ent_payload e of
          Membership mem \<Rightarrow> \<lparr>stm_log_id = Some (ent_log_id e), stm_membership = mem\<rparr>
        | _ \<Rightarrow> m)"

fun applied_after :: "('l, 'm) entry list \<Rightarrow> 'l log_id option \<Rightarrow> 'l log_id option" where
  "applied_after [] l = l"
| "applied_after (e # es) l = applied_after es (Some (ent_log_id e))"

lemma commands_append [simp]: "commands (xs @ ys) = commands xs @ commands ys"
  by (induction xs) (auto split: entry_payload.split)

lemma applied_after_append [simp]: "applied_after (xs @ ys) l = applied_after ys (applied_after xs l)"
  by (induction xs arbitrary: l) auto

lemma membership_after_append [simp]: "membership_after (xs @ ys) m = membership_after ys (membership_after xs m)"
  by (induction xs arbitrary: m) auto

lemma triggers_append [simp]: "triggers rt g (xs @ ys) = triggers rt g xs @ triggers rt g ys"
  by (induction xs) (auto split: entry_payload.split)

lemma applied_after_last: "applied_after es l = (if es = [] then l else Some (ent_log_id (last es)))"
  by (induction es arbitrary: l) auto

text \<open>The state after a batch whose commands the machine accepts.\<close>

definition batch_result :: "('l, 'm) entry list \<Rightarrow> 's \<Rightarrow> ('s, 'l, 'm) sm_inner \<Rightarrow> ('s, 'l, 'm) sm_inner" where
  "batch_result es fsm' inner = inner\<lparr>sm_fsm := fsm',
     sm_last_applied_log := applied_after es (sm_last_applied_log inner),
     sm_last_membership := membership_after es (sm_last_membership inner)\<rparr>"

abbreviation responders :: "(('l, 'm) entry \<times> 'r option) list \<Rightarrow> 'r list" where
  "responders xs \<equiv> concat (map (\<lambda>(_, r). case r of Some x \<Rightarrow> [x] | None \<Rightarrow> []) xs)"

lemma apply_loop_ok:
  assumes "fsm_run (sx_ops cx) (sm_group_id (ap_inner st)) (commands (map fst xs)) (sm_fsm (ap_inner st)) = (Ok (), fsm')"
  shows "\<exists>st'. apply_loop cx opts (map Ok xs @ items) st = apply_loop cx opts items st' \<and>
    ap_inner st' = batch_result (map fst xs) fsm' (ap_inner st) \<and>
    map fst (ap_sent st') = map fst (ap_sent st) @ responders xs \<and>
    ap_pending st' = ap_pending st @
      (if opt_on_standby_trigger opts then triggers (sx_types cx) (sm_group_id (ap_inner st)) (map fst xs) else [])"
  using assms
proof (induction xs arbitrary: st)
  case Nil
  then show ?case by (intro exI [of _ st]) (simp add: batch_result_def)
next
  case (Cons x xs)
  obtain ent r where x: "x = (ent, r)" by (cases x)
  define g where "g = sm_group_id (ap_inner st)"
  have "\<exists>resp st1 fsm1. apply_payload cx opts ent st = (Ok resp, st1) \<and>
      fsm_run (sx_ops cx) g (commands (map fst xs)) fsm1 = (Ok (), fsm') \<and>
      ap_inner st1 = batch_result [ent] fsm1 (ap_inner st) \<and> ap_sent st1 = ap_sent st \<and>
      ap_pending st1 = ap_pending st @ (if opt_on_standby_trigger opts then triggers (sx_types cx) g [ent] else [])"
    using Cons.prems x
    by (auto simp: apply_payload_def Let_def fsm_io_def batch_result_def g_def
        split: entry_payload.splits outcome.splits prod.splits if_splits)
  then obtain resp st1 fsm1 where p: "apply_payload cx opts ent st = (Ok resp, st1)"
    and run: "fsm_run (sx_ops cx) g (commands (map fst xs)) fsm1 = (Ok (), fsm')"
    and st1: "ap_inner st1 = batch_result [ent] fsm1 (ap_inner st)" "ap_sent st1 = ap_sent st"
      "ap_pending st1 = ap_pending st @ (if opt_on_standby_trigger opts then triggers (sx_types cx) g [ent] else [])"
    by blast
  define st2 where "st2 = send_response r resp st1"
  have st2: "ap_inner st2 = ap_inner st1" "ap_pending st2 = ap_pending st1"
    "map fst (ap_sent st2) = map fst (ap_sent st1) @ (case r of Some x \<Rightarrow> [x] | None \<Rightarrow> [])"
    by (auto simp: st2_def send_response_def split: option.split)
  have g2: "sm_group_id (ap_inner st2) = g" "sm_fsm (ap_inner st2) = fsm1"
    by (simp_all add: st2 st1 batch_result_def g_def)
  have "apply_loop cx opts (map Ok (x # xs) @ items) st = apply_loop cx opts (map Ok xs @ items) st2"
    by (simp add: x p st2_def)
  with Cons.IH [of st2] run g2 show ?case
    by (auto simp: st2 st1 batch_result_def x g_def split: entry_payload.split)
qed

subsection \<open>Replicas in the same state\<close>

text \<open>
  Two stores agree when they serve the same group, hold the same view of it and report
  the same applied state. Agreement is kept by every batch, also by one that fails.
\<close>

definition agree ::
  "('s \<Rightarrow> group_id \<Rightarrow> 'v) \<Rightarrow> ('s, 'l, 'm) sm_inner \<Rightarrow> ('s, 'l, 'm) sm_inner \<Rightarrow> bool" where
  "agree view a b \<longleftrightarrow> sm_group_id a = sm_group_id b \<and>
     view (sm_fsm a) (sm_group_id a) = view (sm_fsm b) (sm_group_id b) \<and>
     sm_applied_state a = sm_applied_state b"

context state_machine
begin

lemma apply_payload_agree:
  assumes "ok c" "sx_ops cx = ops c"
    and "agree view (ap_inner s) (ap_inner t)" "ap_sent s = ap_sent t" "ap_pending s = ap_pending t"
    and "apply_payload cx opts ent s = (r, s')" "apply_payload cx opts ent t = (q, t')"
  shows "r = q \<and> agree view (ap_inner s') (ap_inner t') \<and> ap_sent s' = ap_sent t' \<and> ap_pending s' = ap_pending t'"
proof -
  have g: "sm_group_id (ap_inner s) = sm_group_id (ap_inner t)"
    and v: "view (sm_fsm (ap_inner s)) (sm_group_id (ap_inner t)) = view (sm_fsm (ap_inner t)) (sm_group_id (ap_inner t))"
    using assms(3) unfolding agree_def by auto
  note cong = apply_cong [OF assms(1) v]
  show ?thesis
  proof (cases "ent_payload ent")
    case (Normal req)
    show ?thesis
    proof (cases "is_standby_snapshot_trigger (req_data req)")
      case True
      with assms(3-7) Normal g show ?thesis
        by (auto simp: apply_payload_def Let_def agree_def sm_applied_state_def)
    next
      case False
      obtain x f where f: "fsm_apply (ops c) (sm_group_id (ap_inner t)) (lid_index (ent_log_id ent)) (req_data req)
          (sm_fsm (ap_inner s)) = (x, f)" by (metis surj_pair)
      obtain y h where h: "fsm_apply (ops c) (sm_group_id (ap_inner t)) (lid_index (ent_log_id ent)) (req_data req)
          (sm_fsm (ap_inner t)) = (y, h)" by (metis surj_pair)
      have "x = y" "view f (sm_group_id (ap_inner t)) = view h (sm_group_id (ap_inner t))"
        using cong [of "lid_index (ent_log_id ent)" "req_data req"] f h by simp_all
      with assms(2-7) Normal False f h g show ?thesis
        by (cases y) (auto simp: apply_payload_def Let_def agree_def sm_applied_state_def fsm_io_def)
    qed
  qed (use assms(3-7) g in \<open>auto simp: apply_payload_def Let_def agree_def sm_applied_state_def\<close>)
qed

lemma apply_loop_agree:
  assumes "ok c" "sx_ops cx = ops c"
    and "agree view (ap_inner s) (ap_inner t)" "ap_sent s = ap_sent t" "ap_pending s = ap_pending t"
    and "apply_loop cx opts items s = (r, s')" "apply_loop cx opts items t = (q, t')"
  shows "r = q \<and> agree view (ap_inner s') (ap_inner t') \<and> ap_sent s' = ap_sent t' \<and> ap_pending s' = ap_pending t'"
  using assms(3-)
proof (induction items arbitrary: s t)
  case Nil
  then show ?case by simp
next
  case (Cons item items)
  show ?case
  proof (cases item)
    case (Ok x)
    obtain ent resp where x: "x = (ent, resp)" by (cases x)
    obtain a s1 where s1: "apply_payload cx opts ent s = (a, s1)" by (metis surj_pair)
    obtain b t1 where t1: "apply_payload cx opts ent t = (b, t1)" by (metis surj_pair)
    note p = apply_payload_agree [OF assms(1,2) Cons.prems(1-3) s1 t1]
    show ?thesis
    proof (cases b)
      case b: (Ok z)
      let ?u = "send_response resp z"
      have "apply_loop cx opts items (?u s1) = (r, s')" "apply_loop cx opts items (?u t1) = (q, t')"
        using Cons.prems(4,5) Ok x s1 t1 p b by auto
      moreover have "agree view (ap_inner (?u s1)) (ap_inner (?u t1))" "ap_sent (?u s1) = ap_sent (?u t1)"
        "ap_pending (?u s1) = ap_pending (?u t1)" using p by (auto simp: send_response_def split: option.split)
      ultimately show ?thesis by (intro Cons.IH)
    qed (use Cons.prems(4,5) Ok x s1 t1 p in auto)
  qed (use Cons.prems in auto)
qed

lemma sm_apply_agree:
  assumes "ok c" "sx_ops cx = ops c" "agree view a b"
    and "sm_apply cx opts items a = (r, a', sent, trig)" "sm_apply cx opts items b = (q, b', sent', trig')"
  shows "r = q \<and> agree view a' b' \<and> sent = sent' \<and> trig = trig'"
proof -
  let ?s = "\<lambda>i. \<lparr>ap_inner = i, ap_sent = [], ap_pending = []\<rparr>"
  obtain x s where s: "apply_loop cx opts items (?s a) = (x, s)" by (metis surj_pair)
  obtain y t where t: "apply_loop cx opts items (?s b) = (y, t)" by (metis surj_pair)
  have "x = y \<and> agree view (ap_inner s) (ap_inner t) \<and> ap_sent s = ap_sent t \<and> ap_pending s = ap_pending t"
    using apply_loop_agree [OF assms(1,2) _ _ _ s t] assms(3) by simp
  with assms(4,5) s t show ?thesis by (cases y) (auto simp: sm_apply_def)
qed

text \<open>Installing what another store froze makes the two agree.\<close>

lemma restore_agree:
  assumes "ok c" "sx_ops cx = ops c" "sm_group_id b = sm_group_id a"
    and "fsm_snapshot (ops c) (sm_group_id a) (sm_fsm a) = Ok data"
    and "(meta_last_log_id meta, meta_last_membership meta) = sm_applied_state a"
    and "restore_and_set cx meta data b = (r, b')"
  shows "r = Ok () \<and> agree view a b'"
proof -
  obtain x f where f: "fsm_restore (ops c) (sm_group_id a) data (sm_fsm b) = (x, f)" by (metis surj_pair)
  from restore_snapshot [OF assms(1,4), of "sm_fsm b"] f
  have "x = Ok ()" "view f (sm_group_id a) = view (sm_fsm a) (sm_group_id a)" by simp_all
  with assms(2,3,5,6) f show ?thesis
    by (auto simp: restore_and_set_def fsm_io_def agree_def sm_applied_state_def)
qed

lemma hot_snapshot_agree:
  assumes "ok c" "sx_ops cx = ops c" "sx_ops cx' = ops c" "opt_allow_hot_build opts"
    and "build_snapshot os cx opts a fs = (Ok snap, a', fs')"
    and "sm_group_id b = sm_group_id a"
    and "install_snapshot os' cx' opts' (snap_meta snap) (snap_data snap) b fs1 = (r, b', fs2)"
  shows "agree view a' b' \<and> agree view a a' \<and> (opt_catalog opts' = None \<longrightarrow> r = Ok ())"
proof -
  obtain data where d: "fsm_snapshot (ops c) (sm_group_id a) (sm_fsm a) = Ok data"
    using snapshot_total [OF assms(1)] by blast
  then have fr: "fsm_io cx OtherKind (fsm_freeze_for_snapshot (sx_ops cx) (sm_group_id a) (sm_fsm a)) = Ok data"
    by (simp add: fsm_io_def assms(2) freeze_snapshot [OF assms(1)])
  have sn: "fsm_snapshot (ops c) (sm_group_id a) (sm_fsm a) = Ok (snap_data snap)"
    "(meta_last_log_id (snap_meta snap), meta_last_membership (snap_meta snap)) = sm_applied_state a"
    and a': "agree view a a'"
    using assms(4,5) fr d
    by (auto simp: build_snapshot_def next_snapshot_idx_def Let_def sm_applied_state_def agree_def
        split: option.splits)
  obtain x b1 where b1: "restore_and_set cx' (snap_meta snap) (snap_data snap) b = (x, b1)" by (metis surj_pair)
  note ra = restore_agree [OF assms(1,3,6) sn b1]
  then have "b' = b1" "opt_catalog opts' = None \<longrightarrow> r = Ok ()"
    using assms(7) b1 by (auto simp: install_snapshot_def Let_def store_in_catalog_def split: prod.splits)
  with ra a' show ?thesis by (auto simp: agree_def)
qed

end

subsection \<open>A concrete store\<close>

definition sample_cx :: "profile \<Rightarrow> (counter_fsm, counter_error, u64 \<times> node_id, node_id list) sm_ctx" where
  "sample_cx prof =
     \<lparr>sx_profile = prof, sx_ops = counter_ops (sample_env prof), sx_types = pair_raft_types,
      sx_catalog = sample_catalog_env, sx_show_err = (\<lambda>e. case e of Decode m \<Rightarrow> m), sx_join_error = ''panic''\<rparr>"

lemma sample_cx_sel [simp]:
  "sx_ops (sample_cx prof) = counter_ops (sample_env prof)" "sx_types (sample_cx prof) = pair_raft_types"
  "sx_catalog (sample_cx prof) = sample_catalog_env" "sx_profile (sample_cx prof) = prof"
  "sx_show_err (sample_cx prof) (Decode m) = m"
  by (simp_all add: sample_cx_def)

definition sample_entry :: "u64 \<Rightarrow> bytes \<Rightarrow> (u64 \<times> node_id, node_id list) entry" where
  "sample_entry i d = \<lparr>ent_log_id = LogId (1, 0) i, ent_payload = Normal \<lparr>req_data = d\<rparr>\<rparr>"

definition sample_inner :: "(counter_fsm, u64 \<times> node_id, node_id list) sm_inner" where
  "sample_inner = sm_inner_new pair_raft_types 7 counter_new"

lemma sample_inner_sel [simp]:
  "sm_group_id sample_inner = 7" "sm_fsm sample_inner = counter_new" "sm_last_applied_log sample_inner = None"
  "sm_current_snapshot sample_inner = None"
  by (simp_all add: sample_inner_def sm_inner_new_def)

lemma sample_add_no_trigger: "\<not> is_standby_snapshot_trigger (sample_add delta idem)"
proof -
  have "length (sample_add delta idem) = 128"
    by (simp add: sample_add_def cmd_pickler_def iso_pickler_def pair_pickler_def word_pickler_def)
  moreover have "length standby_snapshot_trigger = 36" by (simp add: standby_snapshot_trigger_def str_bytes_def)
  ultimately show ?thesis by (auto simp: is_standby_snapshot_trigger_def)
qed

lemma commands_sample [simp]:
  "commands (sample_entry i (sample_add delta idem) # es) = (i, sample_add delta idem) # commands es"
  "commands (sample_entry i standby_snapshot_trigger # es) = commands es"
  by (simp_all add: sample_entry_def sample_add_no_trigger) (simp add: is_standby_snapshot_trigger_def)

declare commands.simps(2) [simp del]

subsection \<open>The claims\<close>

text \<open>
  C15. Applying a batch. When the machine accepts the commands of a batch, the batch
  succeeds; the machine is in the state after exactly those commands in order (blank,
  membership and trigger entries do not reach it), the applied position is the last entry
  of the batch and the membership the last one in it, every responder is answered once, in
  order, and the trigger callbacks made are those of the trigger entries, in order, when a
  callback is installed.
\<close>

theorem sm_apply_batch:
  assumes "fsm_run (sx_ops cx) (sm_group_id inner) (commands (map fst xs)) (sm_fsm inner) = (Ok (), fsm')"
  shows "\<exists>sent. sm_apply cx opts (map Ok xs) inner =
      (Ok (),
       inner\<lparr>sm_fsm := fsm',
             sm_last_applied_log := (if xs = [] then sm_last_applied_log inner else Some (ent_log_id (fst (last xs)))),
             sm_last_membership := membership_after (map fst xs) (sm_last_membership inner)\<rparr>,
       sent,
       if opt_on_standby_trigger opts then triggers (sx_types cx) (sm_group_id inner) (map fst xs) else []) \<and>
    map fst sent = responders xs"
proof -
  let ?st = "\<lparr>ap_inner = inner, ap_sent = [], ap_pending = []\<rparr>"
  obtain st' where "apply_loop cx opts (map Ok xs) ?st = (Ok (), st')"
    "ap_inner st' = batch_result (map fst xs) fsm' inner" "map fst (ap_sent st') = responders xs"
    "ap_pending st' = (if opt_on_standby_trigger opts then triggers (sx_types cx) (sm_group_id inner) (map fst xs) else [])"
    using apply_loop_ok [of cx ?st xs fsm' opts "[]"] assms by auto
  then show ?thesis
    by (intro exI [of _ "ap_sent st'"]) (auto simp: sm_apply_def batch_result_def applied_after_last last_map)
qed

lemma sample_run:
  "\<exists>f. fsm_run (counter_ops (sample_env Debug)) g [(i, sample_add 10 42)] counter_new = (Ok (), f) \<and> counter_value f g = 10"
  by (simp add: counter_ops_def counter_apply_def add_i64_def counter_value_def counter_seen_def counter_new_def)

theorem sm_apply_batch_witness:
  "\<exists>inner' sent. sm_apply (sample_cx Debug) (sm_default_options\<lparr>opt_on_standby_trigger := True\<rparr>)
      (map Ok [(sample_entry 1 (sample_add 10 42), Some (5 :: nat)), (sample_entry 2 standby_snapshot_trigger, None)])
      sample_inner = (Ok (), inner', sent, [(7, 2, 1)]) \<and>
    counter_value (sm_fsm inner') 7 = 10 \<and> map fst sent = [5] \<and>
    sm_last_applied_log inner' = Some (LogId (1, 0) 2)"
proof -
  let ?xs = "[(sample_entry 1 (sample_add 10 42), Some (5 :: nat)), (sample_entry 2 standby_snapshot_trigger, None)]"
  obtain f where f: "fsm_run (counter_ops (sample_env Debug)) 7 [(1, sample_add 10 42)] counter_new = (Ok (), f)"
    "counter_value f 7 = 10" using sample_run by blast
  then have "fsm_run (sx_ops (sample_cx Debug)) (sm_group_id sample_inner) (commands (map fst ?xs)) (sm_fsm sample_inner)
      = (Ok (), f)" by simp
  moreover have "triggers pair_raft_types 7 (map fst ?xs) = [(7, 2, 1)]"
    using sample_add_no_trigger [of 10 42]
    by (simp add: sample_entry_def pair_raft_types_def) (simp add: is_standby_snapshot_trigger_def)
  ultimately show ?thesis
    using sm_apply_batch [of "sample_cx Debug" sample_inner ?xs f "sm_default_options\<lparr>opt_on_standby_trigger := True\<rparr>"] f(2)
    by (auto simp: sample_entry_def)
qed

text \<open>
  C28. A command the machine rejects. When the machine returns an error on some entry, the
  batch fails with that error, the entries after it are not applied and their responders
  not answered; but the applied position already names the rejected entry, and the
  trigger callbacks of the whole batch, also of entries before the failure, are lost.
\<close>

theorem sm_apply_rejected:
  assumes "fsm_run (sx_ops cx) (sm_group_id inner) (commands (map fst xs)) (sm_fsm inner) = (Ok (), fsm1)"
    and "ent_payload ent = Normal req" and "\<not> is_standby_snapshot_trigger (req_data req)"
    and "fsm_apply (sx_ops cx) (sm_group_id inner) (lid_index (ent_log_id ent)) (req_data req) fsm1 = (Err e, fsm2)"
  shows "\<exists>inner' sent.
    sm_apply cx opts (map Ok xs @ Ok (ent, resp) # items) inner =
      (Err (IoError OtherKind (sx_show_err cx e)), inner', sent, []) \<and>
    sm_fsm inner' = fsm2 \<and> sm_last_applied_log inner' = Some (ent_log_id ent) \<and> map fst sent = responders xs"
proof -
  let ?st = "\<lparr>ap_inner = inner, ap_sent = [], ap_pending = []\<rparr>"
  obtain st1 where st1: "apply_loop cx opts (map Ok xs @ Ok (ent, resp) # items) ?st =
      apply_loop cx opts (Ok (ent, resp) # items) st1"
    "ap_inner st1 = batch_result (map fst xs) fsm1 inner" "map fst (ap_sent st1) = responders xs"
    using apply_loop_ok [of cx ?st xs fsm1 opts "Ok (ent, resp) # items"] assms(1) by auto
  have "sm_group_id (ap_inner st1) = sm_group_id inner" "sm_fsm (ap_inner st1) = fsm1"
    by (simp_all add: st1(2) batch_result_def)
  with assms(2-4) have "\<exists>st2. apply_payload cx opts ent st1 = (Err (IoError OtherKind (sx_show_err cx e)), st2) \<and>
      sm_fsm (ap_inner st2) = fsm2 \<and> sm_last_applied_log (ap_inner st2) = Some (ent_log_id ent) \<and>
      ap_sent st2 = ap_sent st1"
    by (simp add: apply_payload_def Let_def fsm_io_def)
  with st1 show ?thesis by (auto simp: sm_apply_def)
qed

lemma undecodable_no_trigger: "\<not> is_standby_snapshot_trigger (replicate 129 0)"
  by (simp add: is_standby_snapshot_trigger_def standby_snapshot_trigger_def str_bytes_def numeral_eq_Suc)

theorem sm_apply_rejected_witness:
  "\<exists>inner' sent. sm_apply (sample_cx Debug) (sm_default_options\<lparr>opt_on_standby_trigger := True\<rparr>)
      (map Ok [(sample_entry 1 standby_snapshot_trigger, None :: nat option)] @
       Ok (sample_entry 2 (replicate 129 0), Some 6) # []) sample_inner =
      (Err (IoError OtherKind ''invalid''), inner', sent, []) \<and>
    sm_fsm inner' = counter_new \<and> sm_last_applied_log inner' = Some (LogId (1, 0) 2) \<and> sent = []"
proof -
  let ?opts = "sm_default_options\<lparr>opt_on_standby_trigger := True\<rparr>"
  have "fsm_apply (sx_ops (sample_cx Debug)) 7 2 (replicate 129 0) counter_new = (Err (Decode ''invalid''), counter_new)"
    using sample_undecodable [of Debug] by (simp add: counter_ops_def counter_apply_def)
  then show ?thesis
    using sm_apply_rejected [of "sample_cx Debug" sample_inner "[(sample_entry 1 standby_snapshot_trigger, None)]"
        counter_new "sample_entry 2 (replicate 129 0)" "\<lparr>req_data = replicate 129 0\<rparr>" "Decode ''invalid''" counter_new
        ?opts "Some 6" "[]"] undecodable_no_trigger
    by (auto simp: sample_entry_def [of 2 "replicate 129 0"])
qed

text \<open>
  C16. Snapshot transfer between replicas. A snapshot that a store of \<open>CounterFsm\<close>
  builds from its live machine, installed into another store of the same group in any
  state, makes the two agree on the counter, the seen keys, the applied position and the
  membership (the installation can only fail in writing its own catalog); and every later
  batch, well-formed or not, has the same result, the same responses and the same triggers
  on both and keeps them in agreement.
\<close>

theorem sm_snapshot_transfer:
  assumes "counter_env_ok env" and "sx_ops cx = counter_ops env" and "sx_ops cx' = counter_ops env"
    and "opt_allow_hot_build opts"
    and "build_snapshot os cx opts a fs = (Ok snap, a', fs')"
    and "sm_group_id b = sm_group_id a"
    and "install_snapshot os' cx' opts' (snap_meta snap) (snap_data snap) b fs1 = (r, b', fs2)"
    and "sm_apply cx opts2 items a' = (ra, a2, sent, trig)" and "sm_apply cx opts2 items b' = (rb, b2, sent', trig')"
  shows "agree counter_view a b' \<and> (opt_catalog opts' = None \<longrightarrow> r = Ok ()) \<and>
    ra = rb \<and> agree counter_view a2 b2 \<and> sent = sent' \<and> trig = trig'"
proof -
  note h = counter.hot_snapshot_agree [OF assms(1-7)]
  then have "agree counter_view a' b'" "agree counter_view a b'" by (auto simp: agree_def)
  with counter.sm_apply_agree [OF assms(1,2) _ assms(8,9)] h show ?thesis by blast
qed

theorem sm_snapshot_transfer_witness:
  "\<exists>a snap a' b'. build_snapshot calm_os (sample_cx Debug) sm_default_options a [] = (Ok snap, a', []) \<and>
     counter_value (sm_fsm a) 7 = 10 \<and>
     install_snapshot calm_os (sample_cx Debug) sm_default_options (snap_meta snap) (snap_data snap) sample_inner []
       = (Ok (), b', []) \<and> counter_value (sm_fsm b') 7 = 10"
proof -
  let ?cx = "sample_cx Debug"
  obtain f where f: "counter_value f 7 = 10" using sample_run [of 7 1] by blast
  define a where "a = sample_inner\<lparr>sm_fsm := f\<rparr>"
  obtain d where d: "counter_snapshot (sample_env Debug) 7 f = Ok d" using counter_snapshot_total sample_env_ok by blast
  have "\<exists>snap a'. build_snapshot calm_os ?cx sm_default_options a [] = (Ok snap, a', [])"
    using d by (simp add: build_snapshot_def sm_default_options_def fsm_io_def counter_ops_def default_freeze_def
        a_def next_snapshot_idx_def add_u64_one_Some sample_inner_def sm_inner_new_def Let_def)
  then obtain snap a' where snap: "build_snapshot calm_os ?cx sm_default_options a [] = (Ok snap, a', [])" by blast
  obtain r b' fs2 where b: "install_snapshot calm_os ?cx sm_default_options (snap_meta snap) (snap_data snap) sample_inner []
      = (r, b', fs2)" by (metis prod_cases3)
  have idle: "sm_apply ?cx sm_default_options [] i = (Ok (), i, [], [])" for i
    by (simp add: sm_apply_def sm_default_options_def)
  have res: "agree counter_view a b' \<and> (opt_catalog sm_default_options = None \<longrightarrow> r = Ok ())"
  proof -
    have "opt_allow_hot_build sm_default_options" "sm_group_id sample_inner = sm_group_id a"
      by (simp_all add: a_def sm_default_options_def)
    from sm_snapshot_transfer [OF sample_env_ok sample_cx_sel(1) sample_cx_sel(1) this(1) snap this(2) b idle idle]
    show ?thesis by blast
  qed
  then have "r = Ok ()" "counter_value (sm_fsm b') 7 = 10"
    using f by (auto simp: sm_default_options_def agree_def a_def counter_view_def)
  moreover have "fs2 = []"
    using b by (auto simp: install_snapshot_def Let_def store_in_catalog_def sm_default_options_def
        split: prod.splits outcome.splits option.splits)
  ultimately show ?thesis using snap b f by (intro exI [of _ a] exI [of _ snap] exI [of _ a'] exI [of _ b']) (simp add: a_def)
qed

text \<open>
  C29. Offloading never dumps the live machine. With hot builds disabled, building a
  snapshot changes neither the store nor the files, its result is the same whatever
  machine and machine state the store holds, and it is the snapshot installed last, else
  the newest one of the catalog, else an error.
\<close>

theorem offload_never_dumps:
  assumes "\<not> opt_allow_hot_build opts"
    and "sx_types cx' = sx_types cx" and "sx_catalog cx' = sx_catalog cx"
    and "build_snapshot os cx opts inner fs = (r, inner', fs')"
  shows "inner' = inner \<and> fs' = fs \<and>
    build_snapshot os cx' opts (inner\<lparr>sm_fsm := f\<rparr>) fs = (r, inner\<lparr>sm_fsm := f\<rparr>, fs) \<and>
    (case sm_current_snapshot inner of
       Some s \<Rightarrow> r = Ok (snapshot_of s)
     | None \<Rightarrow>
         (case snapshot_from_catalog os cx opts (sm_group_id inner) fs of
            (Ok (Some snap), _) \<Rightarrow> r = Ok snap
          | (Ok None, _) \<Rightarrow> r = Err no_snapshot_error
          | (Err e, _) \<Rightarrow> r = Err e
          | (Panicked, _) \<Rightarrow> r = Panicked))"
proof -
  have same: "snapshot_from_catalog os cx' opts g fs = snapshot_from_catalog os cx opts g fs" for g
    using assms(2,3) by (simp add: snapshot_from_catalog_def cong: option.case_cong)
  have l: "snd (catalog_latest os env cat g fs) = fs" for env cat g
    using catalog_list_sound(1) [of os env cat g fs]
    by (auto simp: catalog_latest_def io_bind_def split: prod.splits outcome.splits)
  have "snd (snapshot_from_catalog os cx opts g fs) = fs" for g
  proof (cases "opt_catalog opts")
    case None
    then show ?thesis by (simp add: snapshot_from_catalog_def)
  next
    case (Some cat)
    with l [of "sx_catalog cx" cat g] show ?thesis
      by (cases "catalog_latest os (sx_catalog cx) cat g fs")
        (auto simp: snapshot_from_catalog_def io_bind_def split: outcome.splits option.splits prod.splits
          dest: catalog_read_unchanged)
  qed
  then have "snapshot_from_catalog os cx opts g fs = (x, y) \<Longrightarrow> y = fs" for g x y by (metis snd_conv)
  with assms(1,4) show ?thesis
    by (auto simp: build_snapshot_def same split: option.splits prod.splits outcome.splits)
qed

theorem offload_never_dumps_witness:
  "build_snapshot calm_os (sample_cx Debug) (sm_default_options\<lparr>opt_allow_hot_build := False\<rparr>)
     (sample_inner\<lparr>sm_fsm := counter_new\<lparr>cf_values := [7 \<mapsto> 99]\<rparr>\<rparr>) [] =
   (Err no_snapshot_error, sample_inner\<lparr>sm_fsm := counter_new\<lparr>cf_values := [7 \<mapsto> 99]\<rparr>\<rparr>, [])"
proof -
  let ?o = "sm_default_options\<lparr>opt_allow_hot_build := False\<rparr>"
  have b: "build_snapshot calm_os (sample_cx Debug) ?o sample_inner [] = (Err no_snapshot_error, sample_inner, [])"
    by (simp add: build_snapshot_def snapshot_from_catalog_def sm_default_options_def)
  show ?thesis using offload_never_dumps [OF _ refl refl b] by simp
qed

lemma apply_loop_run:
  "fst (apply_loop cx opts (map Ok xs) st) = Ok () \<Longrightarrow>
   fst (fsm_run (sx_ops cx) (sm_group_id (ap_inner st)) (commands (map fst xs)) (sm_fsm (ap_inner st))) = Ok ()"
proof (induction xs arbitrary: st)
  case Nil
  then show ?case by simp
next
  case (Cons x xs)
  obtain ent r where x: "x = (ent, r)" by (cases x)
  obtain p st1 where p: "apply_payload cx opts ent st = (p, st1)" by (metis surj_pair)
  with Cons.prems x obtain resp where resp: "p = Ok resp" by (cases p) auto
  have "fst (apply_loop cx opts (map Ok xs) (send_response r resp st1)) = Ok ()"
    using Cons.prems x p resp by simp
  note ih = Cons.IH [OF this]
  have "ap_inner (send_response r resp st1) = ap_inner st1" by (simp add: send_response_def split: option.split)
  with ih p resp x show ?case
    by (auto simp: apply_payload_def Let_def fsm_io_def commands.simps(2)
        split: entry_payload.splits if_splits prod.splits outcome.splits)
qed

lemma sm_apply_Ok:
  assumes "sm_apply cx opts (map Ok xs) inner = (Ok (), inner', sent, trig)"
  shows "fsm_run (sx_ops cx) (sm_group_id inner) (commands (map fst xs)) (sm_fsm inner) = (Ok (), sm_fsm inner')"
    and "inner' = batch_result (map fst xs) (sm_fsm inner') inner"
proof -
  let ?st = "\<lparr>ap_inner = inner, ap_sent = [], ap_pending = []\<rparr>"
  have loop: "apply_loop cx opts (map Ok xs) ?st = (Ok (), st') \<Longrightarrow> inner' = ap_inner st'" for st'
    using assms by (simp add: sm_apply_def)
  have "fst (apply_loop cx opts (map Ok xs) ?st) = Ok ()"
    using assms by (auto simp: sm_apply_def split: prod.splits outcome.splits)
  from apply_loop_run [OF this] obtain f where
    f: "fsm_run (sx_ops cx) (sm_group_id inner) (commands (map fst xs)) (sm_fsm inner) = (Ok (), f)"
    by (metis apply_state.select_convs(1) prod.collapse)
  with apply_loop_ok [of cx ?st xs f opts "[]"] loop have "inner' = batch_result (map fst xs) f inner" by auto
  with f show "fsm_run (sx_ops cx) (sm_group_id inner) (commands (map fst xs)) (sm_fsm inner) = (Ok (), sm_fsm inner')"
    and "inner' = batch_result (map fst xs) (sm_fsm inner') inner" by (simp_all add: batch_result_def)
qed

lemma sm_apply_run_Ok:
  assumes "fsm_run (sx_ops cx) (sm_group_id inner) (commands (map fst xs)) (sm_fsm inner) = (Ok (), fsm')"
  shows "\<exists>sent trig. sm_apply cx opts (map Ok xs) inner = (Ok (), batch_result (map fst xs) fsm' inner, sent, trig)"
  using apply_loop_ok [of cx "\<lparr>ap_inner = inner, ap_sent = [], ap_pending = []\<rparr>" xs fsm' opts "[]"] assms
  by (auto simp: sm_apply_def)

text \<open>Replaying a suffix on top of a snapshot that already contains it.\<close>

lemma counter_replay_suffix:
  assumes "counter_env_ok env" "encoded env ds cs"
    and "fsm_run (counter_ops env) g (xs @ ds) f = (Ok (), f2)" "counter_view h g = counter_view f2 g"
    and "fsm_run (counter_ops env) g ys f2 = (Ok (), f3)"
  shows "\<exists>h3. fsm_run (counter_ops env) g (ds @ ys) h = (Ok (), h3) \<and> counter_view h3 g = counter_view f3 g"
proof -
  obtain f1 where f1: "fsm_run (counter_ops env) g ds f1 = (Ok (), f2)"
    using assms(3) by (auto simp: fsm_run_append split: prod.splits outcome.splits)
  have "cmd_idem ` set cs \<subseteq> counter_seen h g"
    using counter_run_cases [OF assms(1,2), of g f1] f1 assms(4) by (auto simp: counter_view_def)
  from counter_run_seen [OF assms(1,2) this] obtain h2 where h2: "fsm_run (counter_ops env) g ds h = (Ok (), h2)"
    "counter_view h2 g = counter_view f2 g" using assms(4) by (metis prod.collapse)
  from counter.run_cong [OF assms(1) h2(2), of ys] assms(5) obtain h3 where
    "fsm_run (counter_ops env) g ys h2 = (Ok (), h3)" "counter_view h3 g = counter_view f3 g"
    by (metis fst_conv prod.collapse snd_conv)
  with h2(1) show ?thesis by (simp add: fsm_run_append)
qed

text \<open>
  C14. Late standby snapshots converge. The standby freezes its machine some time after it
  applied the trigger, when further entries \<open>es2\<close> may already be applied, but labels
  the snapshot with the trigger's position. A replica that installs it therefore replays
  \<open>es2\<close> a second time. For \<open>CounterFsm\<close> this is harmless: after replaying
  \<open>es2\<close> and any later entries that the standby accepts, the replica holds the same
  counter and seen keys, at the same applied position, as the standby.
\<close>

theorem standby_snapshot_converges:
  assumes "counter_env_ok env" and "sx_ops cx = counter_ops env"
    and "encoded env (commands (map fst es2)) cs2"
    and "sm_apply cx opts (map Ok (es1 @ es2)) a = (Ok (), a1, sent1, trig1)"
    and "standby_freeze cx (sm_group_id a) a1 = Ok data"
    and "sm_group_id b = sm_group_id a"
    and "install_durable_snapshot os cx opts' index tm data b fs = (r, b1, fs')"
    and "sm_apply cx opts (map Ok es3) a1 = (Ok (), a2, sent2, trig2)"
  shows "\<exists>b2 sent trig. sm_apply cx opts (map Ok (es2 @ es3)) b1 = (Ok (), b2, sent, trig) \<and>
    counter_view (sm_fsm b2) (sm_group_id a) = counter_view (sm_fsm a2) (sm_group_id a) \<and>
    (es2 @ es3 \<noteq> [] \<longrightarrow> sm_last_applied_log b2 = sm_last_applied_log a2)"
proof -
  let ?g = "sm_group_id a"
  note A1 = sm_apply_Ok [OF assms(4)] and A2 = sm_apply_Ok [OF assms(8)]
  have g1: "sm_group_id a1 = ?g" using A1(2) by (metis batch_result_def sm_inner.select_convs(1) sm_inner.surjective sm_inner.update_convs(2,3,4))
  have snap: "counter_snapshot env ?g (sm_fsm a1) = Ok data"
    using assms(2,5) by (cases "counter_snapshot env ?g (sm_fsm a1)")
      (auto simp: standby_freeze_def fsm_io_def counter_ops_def default_freeze_def)
  obtain x f where f: "counter_restore env ?g data (sm_fsm b) = (x, f)" by (metis surj_pair)
  have x: "x = Ok ()" and v: "counter_view f ?g = counter_view (sm_fsm a1) ?g"
    using counter_restore_snapshot [OF assms(1) snap, of "sm_fsm b"] f by simp_all
  have b1: "sm_fsm b1 = f" "sm_group_id b1 = ?g"
    using assms(2,6,7) f x by (auto simp: install_durable_snapshot_def restore_and_set_def Let_def fsm_io_def
        counter_ops_def split: prod.splits)
  have run1: "fsm_run (counter_ops env) ?g (commands (map fst es1) @ commands (map fst es2)) (sm_fsm a) = (Ok (), sm_fsm a1)"
    using A1(1) assms(2) by simp
  have run3: "fsm_run (counter_ops env) ?g (commands (map fst es3)) (sm_fsm a1) = (Ok (), sm_fsm a2)"
    using A2(1) assms(2) g1 by simp
  obtain h where h: "fsm_run (counter_ops env) ?g (commands (map fst es2) @ commands (map fst es3)) f = (Ok (), h)"
    "counter_view h ?g = counter_view (sm_fsm a2) ?g"
    using counter_replay_suffix [OF assms(1,3) run1 v run3] by blast
  then obtain sent trig where
    "sm_apply cx opts (map Ok (es2 @ es3)) b1 = (Ok (), batch_result (map fst (es2 @ es3)) h b1, sent, trig)"
    using sm_apply_run_Ok [of cx b1 "es2 @ es3" h opts] b1 assms(2) by auto
  moreover have "sm_last_applied_log (batch_result (map fst (es2 @ es3)) h b1) = sm_last_applied_log a2"
    if "es2 @ es3 \<noteq> []"
  proof -
    have "sm_last_applied_log a1 = applied_after (map fst (es1 @ es2)) (sm_last_applied_log a)"
      by (subst A1(2)) (simp add: batch_result_def)
    moreover have "sm_last_applied_log a2 = applied_after (map fst es3) (sm_last_applied_log a1)"
      by (subst A2(2)) (simp add: batch_result_def)
    ultimately show ?thesis using that by (auto simp: batch_result_def applied_after_last)
  qed
  ultimately show ?thesis using h(2) by (auto simp: batch_result_def)
qed

lemma sample_two_runs:
  "\<exists>f f'. fsm_run (counter_ops (sample_env Debug)) 7 [(2, sample_add 10 42)] counter_new = (Ok (), f) \<and>
     fsm_run (counter_ops (sample_env Debug)) 7 [(3, sample_add 5 43)] f = (Ok (), f') \<and> counter_value f' 7 = 15"
  by (simp add: counter_ops_def counter_apply_def add_i64_def counter_value_def counter_seen_def counter_new_def)

theorem standby_snapshot_converges_witness:
  "\<exists>data b1 fs' b2 sent trig.
     install_durable_snapshot calm_os (sample_cx Debug) sm_default_options 1 1 data sample_inner [] = (Ok (), b1, fs') \<and>
     sm_apply (sample_cx Debug) sm_default_options
       (map Ok ([(sample_entry 2 (sample_add 10 42), None :: nat option)] @ [(sample_entry 3 (sample_add 5 43), None)])) b1 =
       (Ok (), b2, sent, trig) \<and>
     counter_value (sm_fsm b2) 7 = 15"
proof -
  let ?cx = "sample_cx Debug" and ?o = sm_default_options
  let ?e1 = "[(sample_entry 1 standby_snapshot_trigger, None :: nat option)]"
  let ?e2 = "[(sample_entry 2 (sample_add 10 42), None :: nat option)]"
  let ?e3 = "[(sample_entry 3 (sample_add 5 43), None :: nat option)]"
  obtain f f' where f: "fsm_run (counter_ops (sample_env Debug)) 7 [(2, sample_add 10 42)] counter_new = (Ok (), f)"
    "fsm_run (counter_ops (sample_env Debug)) 7 [(3, sample_add 5 43)] f = (Ok (), f')" "counter_value f' 7 = 15"
    using sample_two_runs by blast
  define a1 where "a1 = batch_result (map fst (?e1 @ ?e2)) f sample_inner"
  have a1: "sm_group_id a1 = 7" "sm_fsm a1 = f" by (simp_all add: a1_def batch_result_def)
  obtain sent1 trig1 where A1: "sm_apply ?cx ?o (map Ok (?e1 @ ?e2)) sample_inner = (Ok (), a1, sent1, trig1)"
    using sm_apply_run_Ok [of ?cx sample_inner "?e1 @ ?e2" f ?o] f(1) unfolding a1_def by (auto simp del: map_append fsm_run.simps)
  obtain a2 sent2 trig2 where A2: "sm_apply ?cx ?o (map Ok ?e3) a1 = (Ok (), a2, sent2, trig2)" "sm_fsm a2 = f'"
    using sm_apply_run_Ok [of ?cx a1 ?e3 f' ?o] f(2) a1 by (auto simp: batch_result_def simp del: fsm_run.simps)
  have enc: "encoded (sample_env Debug) (commands (map fst ?e2)) [\<lparr>cmd_idem = 42, cmd_delta = 10\<rparr>]"
    by (simp add: encoded_Cons)
  obtain data where d: "counter_snapshot (sample_env Debug) 7 f = Ok data"
    using counter_snapshot_total sample_env_ok by blast
  then have fr: "standby_freeze ?cx (sm_group_id sample_inner) a1 = Ok data"
    by (simp add: standby_freeze_def fsm_io_def counter_ops_def default_freeze_def a1)
  obtain r b1 fs' where b: "install_durable_snapshot calm_os ?cx ?o 1 1 data sample_inner [] = (r, b1, fs')"
    by (metis prod_cases3)
  have "fst (counter_restore (sample_env Debug) 7 data counter_new) = Ok ()"
    using counter_restore_snapshot(1) [OF sample_env_ok d] .
  with b have "r = Ok ()"
    by (auto simp: install_durable_snapshot_def restore_and_set_def fsm_io_def counter_ops_def Let_def
        store_in_catalog_def sm_default_options_def split: prod.splits)
  with b have b': "install_durable_snapshot calm_os ?cx ?o 1 1 data sample_inner [] = (Ok (), b1, fs')" by simp
  obtain b2 sent trig where c: "sm_apply ?cx ?o (map Ok (?e2 @ ?e3)) b1 = (Ok (), b2, sent, trig)"
    "counter_view (sm_fsm b2) 7 = counter_view (sm_fsm a2) 7"
    using standby_snapshot_converges [OF sample_env_ok sample_cx_sel(1) enc A1 fr refl b A2(1)] by auto
  from c(2) A2(2) f(3) have "counter_value (sm_fsm b2) 7 = 15" by (simp add: counter_view_def)
  with b' c(1) show ?thesis by (intro exI conjI)
qed

text \<open>
  What other tasks must leave alone while a build runs: the catalog stays well formed, and
  nothing newer than the entry is written; older entries may come and go, and the store
  may change in any way.
\<close>

definition keeps_entry :: "catalog_env \<Rightarrow> snapshot_catalog \<Rightarrow> group_id \<Rightarrow> u64 \<times> u64 \<Rightarrow> ('s, 'l, 'm) interference \<Rightarrow> bool" where
  "keeps_entry env cat g key gap \<longleftrightarrow>
     (\<forall>inner fs. catalog_ok env cat g fs \<longrightarrow> none_newer env cat g key fs \<longrightarrow>
        (let fs' = snd (gap (inner, fs)) in
         catalog_ok env cat g fs' \<and> none_newer env cat g key fs' \<and>
         catalog_map env cat g fs' key = catalog_map env cat g fs key))"

definition gaps_keep_entry :: "catalog_env \<Rightarrow> snapshot_catalog \<Rightarrow> group_id \<Rightarrow> u64 \<times> u64 \<Rightarrow> ('s, 'l, 'm) task_gaps \<Rightarrow> bool" where
  "gaps_keep_entry env cat g key gaps \<longleftrightarrow>
     keeps_entry env cat g key (gap_frozen gaps) \<and> keeps_entry env cat g key (gap_written gaps) \<and>
     keeps_entry env cat g key (gap_membership gaps)"

lemma keeps_entryD:
  assumes "keeps_entry env cat g key gap" "catalog_ok env cat g fs" "none_newer env cat g key fs"
    and "gap (inner, fs) = (inner', fs')"
  shows "catalog_ok env cat g fs'" "none_newer env cat g key fs'"
    "catalog_map env cat g fs' key = catalog_map env cat g fs key"
  using assms unfolding keeps_entry_def Let_def by (metis snd_conv)+

text \<open>Other calls that work on the store only are such gaps.\<close>

lemma gaps_keep_entry_store:
  assumes "\<And>x. snd (gap_frozen gaps x) = snd x" "\<And>x. snd (gap_written gaps x) = snd x"
    "\<And>x. snd (gap_membership gaps x) = snd x"
  shows "gaps_keep_entry env cat g key gaps"
  using assms by (simp add: gaps_keep_entry_def keeps_entry_def Let_def)

lemma gaps_keep_entry_none [simp]: "gaps_keep_entry env cat g key no_gaps"
  by (rule gaps_keep_entry_store) (simp_all add: no_gaps_def)

text \<open>A write on a healthy disk adds the newest entry of the catalog.\<close>

lemma standby_write_ok:
  assumes "os_healthy os" "codec_ok (cat_meta (sx_catalog cx))" "catalog_ok (sx_catalog cx) cat g fs"
    and "0 < unat (sc_keep cat)" and "none_newer (sx_catalog cx) cat g (index, tm) fs"
  shows "\<exists>fs'. standby_write os cx cat g index tm data fs =
      (Ok (entry_of_meta (entry_dir cat g (index, tm)) (new_meta (sx_catalog cx) g (index, tm) (entry_name index tm) data)), fs') \<and>
    catalog_ok (sx_catalog cx) cat g fs' \<and>
    catalog_map (sx_catalog cx) cat g fs' (index, tm) = Some (entry_name index tm, data) \<and>
    none_newer (sx_catalog cx) cat g (index, tm) fs'"
proof -
  let ?m = "catalog_map (sx_catalog cx) cat g" and ?k = "(index, tm)" and ?n = "entry_name index tm"
  let ?entry = "entry_of_meta (entry_dir cat g ?k) (new_meta (sx_catalog cx) g ?k ?n data)"
  obtain fs2 where w: "catalog_write os (sx_catalog cx) cat g index tm ?n data fs = (Ok ?entry, fs2)"
    and ok: "catalog_ok (sx_catalog cx) cat g fs2"
    and m: "?m fs2 = spec_write (unat (sc_keep cat)) ?k (?n, data) (?m fs)"
    using catalog_write_ok [OF assms(1-3), of index tm ?n data] by blast
  have "x \<le> ?k" if x: "x \<in> dom (?m fs)" for x
  proof -
    obtain v where "?m fs x = Some v" using x by blast
    then have "?m fs x = Some (fst v, snd v)" by simp
    with assms(5) show ?thesis unfolding none_newer_def by blast
  qed
  then have "?m fs2 ?k = Some (?n, data)"
    unfolding m by (rule spec_write_newest [OF finite_catalog_map [OF assms(3)] assms(4)])
  moreover have "none_newer (sx_catalog cx) cat g ?k fs2"
    using assms(5) unfolding none_newer_def m
    by (auto simp: spec_write_def Let_def restrict_map_def split: if_splits)
  ultimately show ?thesis using w ok by (simp add: standby_write_def)
qed

lemma standby_build_ok:
  assumes "os_healthy os" "codec_ok (cat_meta (sx_catalog cx))" "catalog_ok (sx_catalog cx) cat g fs"
    and "0 < unat (sc_keep cat)"
    and "none_newer (sx_catalog cx) cat g (index, tm) fs"
    and "gaps_keep_entry (sx_catalog cx) cat g (index, tm) gaps"
    and "standby_freeze cx g inner = Ok data"
    and "build_standby_snapshot_async os cx gaps cat g index tm inner fs = (r, inner1, fs1)"
  shows "r = Ok (entry_of_meta (entry_dir cat g (index, tm))
           (new_meta (sx_catalog cx) g (index, tm) (entry_name index tm) data))"
    and "catalog_ok (sx_catalog cx) cat g fs1"
    and "catalog_map (sx_catalog cx) cat g fs1 (index, tm) = Some (entry_name index tm, data)"
    and "none_newer (sx_catalog cx) cat g (index, tm) fs1"
proof -
  let ?cat = "sx_catalog cx" and ?k = "(index, tm)"
  have keep: "keeps_entry ?cat cat g ?k (gap_frozen gaps)" "keeps_entry ?cat cat g ?k (gap_written gaps)"
    "keeps_entry ?cat cat g ?k (gap_membership gaps)" using assms(6) by (simp_all add: gaps_keep_entry_def)
  obtain i1 f1 where s1: "gap_frozen gaps (inner, fs) = (i1, f1)" by (metis surj_pair)
  note k1 = keeps_entryD(1,2) [OF keep(1) assms(3,5) s1]
  obtain f2 where s2: "standby_write os cx cat g index tm data f1 =
      (Ok (entry_of_meta (entry_dir cat g ?k) (new_meta ?cat g ?k (entry_name index tm) data)), f2)"
    and k2: "catalog_ok ?cat cat g f2" "catalog_map ?cat cat g f2 ?k = Some (entry_name index tm, data)"
      "none_newer ?cat cat g ?k f2"
    using standby_write_ok [OF assms(1,2) k1(1) assms(4) k1(2), of data] by blast
  obtain i3 f3 where s3: "gap_written gaps (i1, f2) = (i3, f3)" by (metis surj_pair)
  note k3 = keeps_entryD [OF keep(2) k2(1,3) s3]
  obtain i4 f4 where s4: "gap_membership gaps (i3, f3) = (i4, f4)" by (metis surj_pair)
  note k4 = keeps_entryD [OF keep(3) k3(1,2) s4]
  have "r = Ok (entry_of_meta (entry_dir cat g ?k) (new_meta ?cat g ?k (entry_name index tm) data)) \<and> fs1 = f4"
    using assms(7,8) s1 s2 s3 s4 by (simp add: build_standby_snapshot_async_def Let_def)
  then show "r = Ok (entry_of_meta (entry_dir cat g ?k) (new_meta ?cat g ?k (entry_name index tm) data))"
    "catalog_ok ?cat cat g fs1" "catalog_map ?cat cat g fs1 ?k = Some (entry_name index tm, data)"
    "none_newer ?cat cat g ?k fs1"
    using k4 k3(3) k2(2) by simp_all
qed

text \<open>
  C30. A standby snapshot survives a restart. On healthy disks and a well-formed catalog
  whose ids are the directory names and which holds nothing newer, the asynchronous build
  succeeds whatever other calls do to the store between its steps, and whatever other tasks
  do to the files there as long as they keep the catalog well formed, its entry for the
  trigger, and write nothing newer. A store that is later created afresh over the same
  catalog offers, as its current snapshot, exactly the frozen bytes under the trigger's
  index and term.
\<close>

theorem standby_snapshot_survives_restart:
  assumes "os_healthy os" and "os_healthy os'" and "codec_ok (cat_meta (sx_catalog cx))"
    and "catalog_ok (sx_catalog cx) cat g fs" and "0 < unat (sc_keep cat)"
    and "none_newer (sx_catalog cx) cat g (index, tm) fs"
    and "gaps_keep_entry (sx_catalog cx) cat g (index, tm) gaps"
    and "standby_freeze cx g inner = Ok data"
    and "build_standby_snapshot_async os cx gaps cat g index tm inner fs = (r, inner1, fs1)"
    and "opt_catalog opts = Some cat"
  shows "is_ok r \<and>
    get_current_snapshot os' cx opts (sm_inner_new (sx_types cx) g fsm) fs1 =
      (Ok (Some \<lparr>snap_meta = \<lparr>meta_last_log_id = Some (durable_log_id (sx_types cx) index tm),
                               meta_last_membership = default_stored_membership (sx_types cx),
                               meta_snapshot_id = entry_name index tm\<rparr>,
                  snap_data = data\<rparr>), fs1)"
proof -
  note build = standby_build_ok [OF assms(1,3-9)]
  obtain e where e: "catalog_latest os' (sx_catalog cx) cat g fs1 = (Ok (Some e), fs1)" "entry_key e = (index, tm)"
    "ce_snapshot_id e = entry_name index tm"
    "catalog_read os' (sx_catalog cx) cat g (entry_name index tm) fs1 = (Ok (Some data), fs1)"
    using newest_readable [OF assms(2) build(2-4)] by blast
  have "get_current_snapshot os' cx opts (sm_inner_new (sx_types cx) g fsm) fs1 =
      snapshot_from_catalog os' cx opts g fs1"
    by (simp add: get_current_snapshot_def sm_inner_new_def)
  with build(1) e assms(10) show ?thesis
    by (simp add: snapshot_from_catalog_def entry_key_def)
qed

text \<open>Gaps in which another command is applied and a membership is installed.\<close>

definition sample_gaps :: "(counter_fsm, u64 \<times> node_id, node_id list) task_gaps" where
  "sample_gaps =
     \<lparr>gap_frozen = (\<lambda>(inner, fs). (inner\<lparr>sm_fsm := counter_new\<lparr>cf_values := [7 \<mapsto> 99]\<rparr>\<rparr>, fs)),
      gap_written = (\<lambda>x. x),
      gap_membership = (\<lambda>(inner, fs). (inner\<lparr>sm_last_membership := default_stored_membership pair_raft_types\<rparr>, fs))\<rparr>"

lemma sample_gaps_keep: "gaps_keep_entry env cat g key sample_gaps"
  by (rule gaps_keep_entry_store) (auto simp: sample_gaps_def)

theorem standby_snapshot_survives_restart_witness:
  "\<exists>data r inner1 fs1.
     build_standby_snapshot_async calm_os (sample_cx Debug) sample_gaps sample_catalog 7 4 1 sample_inner [] = (r, inner1, fs1) \<and>
     is_ok r \<and>
     get_current_snapshot calm_os (sample_cx Debug) (sm_default_options\<lparr>opt_catalog := Some sample_catalog\<rparr>)
       (sm_inner_new pair_raft_types 7 counter_new) fs1 =
       (Ok (Some \<lparr>snap_meta = \<lparr>meta_last_log_id = Some (LogId (1, 0) 4),
                    meta_last_membership = default_stored_membership pair_raft_types,
                    meta_snapshot_id = entry_name 4 1\<rparr>, snap_data = data\<rparr>), fs1)"
proof -
  obtain data where d: "counter_snapshot (sample_env Debug) 7 counter_new = Ok data"
    using counter_snapshot_total sample_env_ok by blast
  have fr: "standby_freeze (sample_cx Debug) 7 sample_inner = Ok data"
    using d by (simp add: standby_freeze_def fsm_io_def counter_ops_def default_freeze_def)
  obtain r inner1 fs1 where b: "build_standby_snapshot_async calm_os (sample_cx Debug) sample_gaps sample_catalog 7 4 1
      sample_inner [] = (r, inner1, fs1)" by (metis prod_cases3)
  have "durable_log_id pair_raft_types 4 1 = LogId (1, 0) 4"
    by (simp add: durable_log_id_def pair_raft_types_def)
  with standby_snapshot_survives_restart [OF calm_os_healthy calm_os_healthy _ _ _ _ sample_gaps_keep fr b,
      of "sm_default_options\<lparr>opt_catalog := Some sample_catalog\<rparr>" counter_new] b
  show ?thesis by (auto simp: catalog_ok_empty catalog_map_empty none_newer_def)
qed

text \<open>
  A snapshot that does not decode is refused. Installing it, from the leader or from a
  pull, fails with \<open>InvalidData\<close>; the counter, the applied position, the membership,
  the current snapshot and the catalog are untouched.
\<close>

theorem install_rejects_corrupt:
  assumes "sx_ops cx = counter_ops env" and "from_slice (env_snap env) data = Err m"
  shows "install_snapshot os cx opts meta data inner fs =
      (Err (IoError InvalidData (sx_show_err cx (Decode m))), inner, fs) \<and>
    install_durable_snapshot os cx opts i t data inner fs =
      (Err (IoError InvalidData (sx_show_err cx (Decode m))), inner, fs)"
  using assms by (simp add: install_snapshot_def install_durable_snapshot_def restore_and_set_def fsm_io_def
      counter_ops_def counter_restore_def Let_def)

theorem install_rejects_corrupt_witness:
  "install_durable_snapshot calm_os (sample_cx Debug) sm_default_options 5 1 [] sample_inner [] =
     (Err (IoError InvalidData ''invalid''), sample_inner, [])"
proof -
  have "from_slice (env_snap (sample_env Debug)) [] = Err ''invalid''"
    by (simp add: sample_env_def codec_of_def pair_pickler_def word_pickler_def list_pickler_def)
  from install_rejects_corrupt [OF sample_cx_sel(1) this, of calm_os _ _ sample_inner "[]" 5 1] show ?thesis
    by (metis sample_cx_sel(5))
qed

end
