(* ===== verification/Net_Props.thy ===== *)
theory Net_Props
  imports Net_Router
begin

section \<open>Properties of the network layer\<close>

text \<open>
  Routing delivers a call to exactly the addressed group and brings its result back; the
  in-process and the gRPC transport agree; peer links are counted per node; concurrent
  gRPC callers share one channel per peer.
\<close>

subsection \<open>The four protocol calls\<close>

datatype rpc = AppendRpc | VoteRpc | SnapshotRpc | TransferRpc

fun path_of :: "rpc \<Rightarrow> string" where
  "path_of AppendRpc = ''/raft/append''"
| "path_of VoteRpc = ''/raft/vote''"
| "path_of SnapshotRpc = ''/raft/snapshot''"
| "path_of TransferRpc = ''/raft/transfer_leader''"

fun req_codec :: "('q, 'p, 'x) wire \<Rightarrow> rpc \<Rightarrow> 'q codec" where
  "req_codec w AppendRpc = w_append_req w"
| "req_codec w VoteRpc = w_vote_req w"
| "req_codec w SnapshotRpc = w_snapshot_req w"
| "req_codec w TransferRpc = w_transfer_req w"

fun resp_codec :: "('q, 'p, 'x) wire \<Rightarrow> rpc \<Rightarrow> ('x raft_error, 'p) result codec" where
  "resp_codec w AppendRpc = w_append_resp w"
| "resp_codec w VoteRpc = w_vote_resp w"
| "resp_codec w SnapshotRpc = w_snapshot_resp w"
| "resp_codec w TransferRpc = w_transfer_resp w"

fun raft_call :: "('h, 'q, 'p, 'x) raft_ops \<Rightarrow> rpc \<Rightarrow> 'q \<Rightarrow> 'h \<Rightarrow> ('x raft_error, 'p) result \<times> 'h" where
  "raft_call ro AppendRpc q h = ro_append_entries ro q h"
| "raft_call ro VoteRpc q h = ro_vote ro q h"
| "raft_call ro SnapshotRpc q h = (case ro_install_full_snapshot ro q h of (r, h') \<Rightarrow> (map_rpc_err Fatal r, h'))"
| "raft_call ro TransferRpc q h = (case ro_handle_transfer_leader ro q h of (r, h') \<Rightarrow> (map_rpc_err Fatal r, h'))"

lemma dispatch_rpc:
  "dispatch w ro (path_of r) payload h = api_call (req_codec w r) (resp_codec w r) (raft_call ro r) payload h"
  by (cases r) (simp_all add: dispatch_def api_append_def api_vote_def api_snapshot_def api_transfer_leader_def api_call_def
      split: option.split)

text \<open>
  What is relied on of the JSON encoders: round trips, text in UTF-8, and an encoded error
  that does not depend on the type of the value it could have carried.
\<close>

definition wire_ok :: "('q, 'p, 'x) wire \<Rightarrow> bool" where
  "wire_ok w \<longleftrightarrow>
     (\<forall>r. codec_ok (req_codec w r) \<and> codec_ok (resp_codec w r) \<and>
        (\<forall>q b. encode (req_codec w r) q = Some b \<longrightarrow> utf8_valid b) \<and>
        (\<forall>p b. encode (resp_codec w r) p = Some b \<longrightarrow> utf8_valid b) \<and>
        (\<forall>e b. encode (w_unit_resp w) (RPCErr e) = Some b \<longrightarrow> decode (resp_codec w r) b = Some (RPCErr e))) \<and>
     codec_ok (w_unit_resp w) \<and>
     (\<forall>e b. encode (w_unit_resp w) e = Some b \<longrightarrow> utf8_valid b)"

lemma wire_okD:
  assumes "wire_ok w"
  shows "codec_ok (req_codec w r)" "codec_ok (resp_codec w r)" "codec_ok (w_unit_resp w)"
    "encode (req_codec w r) q = Some b \<Longrightarrow> utf8_valid b"
    "encode (resp_codec w r) p = Some b \<Longrightarrow> utf8_valid b"
    "encode (w_unit_resp w) u = Some b \<Longrightarrow> utf8_valid b"
    "encode (w_unit_resp w) (RPCErr e) = Some b \<Longrightarrow> decode (resp_codec w r) b = Some (RPCErr e)"
  using assms by (auto simp: wire_ok_def)

lemma api_call_encoded:
  assumes "wire_ok w" "encode (req_codec w r) q = Some b" "raft_call ro r q h = (res, h')"
  shows "\<exists>out. api_call (req_codec w r) (resp_codec w r) (raft_call ro r) b h = (Some out, h') \<and>
    utf8_valid out \<and> decode (resp_codec w r) out = Some res"
proof -
  obtain out where out: "encode (resp_codec w r) res = Some out"
    by (rule encode_total [OF wire_okD(2) [OF assms(1)]])
  with decode_encode [OF wire_okD(1) [OF assms(1)] assms(2)] decode_encode [OF wire_okD(2) [OF assms(1)] out]
    wire_okD(5) [OF assms(1) out] assms(3)
  show ?thesis by (simp add: api_call_def)
qed

lemma stopped_reply_decodes:
  assumes "wire_ok w"
  shows "\<exists>b. stopped_reply w = Some b \<and> utf8_valid b \<and> decode (resp_codec w r) b = Some (RPCErr (Fatal Stopped))"
proof -
  obtain b where b: "encode (w_unit_resp w) (RPCErr (Fatal Stopped)) = Some b"
    by (rule encode_total [OF wire_okD(3) [OF assms]])
  with wire_okD(6,7) [OF assms] show ?thesis by (auto simp: stopped_reply_def)
qed

text \<open>What the caller of a protocol call gets for a result of the remote operation.\<close>

fun rpc_outcome :: "'x net_env \<Rightarrow> ('x raft_error, 'p) result \<Rightarrow> (unreachable, 'p) outcome" where
  "rpc_outcome ne (RPCOk p) = Ok p"
| "rpc_outcome ne (RPCErr e) = Err (Unreachable (ne_show_raft_error ne e))"

lemma receive_result_decoded:
  "decode cp b = Some res \<Longrightarrow> receive_result (ne_show_raft_error ne) cp b = rpc_outcome ne res"
  by (cases res) (simp_all add: receive_result_def)

text \<open>A call to a group map, as both transports perform it.\<close>

definition serve ::
  "('h, 'q, 'p, 'x) raft_ops \<Rightarrow> rpc \<Rightarrow> group_id \<Rightarrow> 'q \<Rightarrow> 'h group_map \<Rightarrow> ('x raft_error, 'p) result \<times> 'h group_map" where
  "serve ro r g q m =
     (case bt_get m g of
        None \<Rightarrow> (RPCErr (Fatal Stopped), m)
      | Some ga \<Rightarrow> (case raft_call ro r q (ga_raft ga) of (res, h') \<Rightarrow> (res, set_raft g h' m)))"

lemma node_handle_serve:
  assumes "wire_ok w" "encode (req_codec w r) q = Some b" "serve ro r g q (nd_groups nd) = (res, m')"
  shows "\<exists>out. node_handle w ro \<lparr>msg_group_id = g, msg_path = path_of r, msg_payload = b\<rparr> nd =
      (Some out, nd\<lparr>nd_groups := m'\<rparr>) \<and> decode (resp_codec w r) out = Some res"
proof (cases "bt_get (nd_groups nd) g")
  case None
  with assms(3) stopped_reply_decodes [OF assms(1), of r] show ?thesis
    by (auto simp: node_handle_def serve_def)
next
  case (Some ga)
  obtain res' h' where c: "raft_call ro r q (ga_raft ga) = (res', h')" by (metis surj_pair)
  with Some assms(3) api_call_encoded [OF assms(1,2) c] show ?thesis
    by (auto simp: node_handle_def serve_def dispatch_rpc)
qed

lemma demux_serve:
  assumes "wire_ok w" "encode (req_codec w r) q = Some b" "serve ro r g q m = (res, m')"
  shows "\<exists>out. demux_raft_call w ro \<lparr>rq_group_id = g, rq_path = path_of r, rq_payload = b\<rparr> m = (Ok out, m') \<and>
    utf8_valid out \<and> decode (resp_codec w r) out = Some res"
proof (cases "bt_get m g")
  case None
  with assms(3) stopped_reply_decodes [OF assms(1), of r] show ?thesis
    by (auto simp: demux_raft_call_def serve_def replied_def)
next
  case (Some ga)
  obtain res' h' where c: "raft_call ro r q (ga_raft ga) = (res', h')" by (metis surj_pair)
  with Some assms(3) api_call_encoded [OF assms(1,2) c] wire_okD(4) [OF assms(1,2)] show ?thesis
    by (auto simp: demux_raft_call_def serve_def dispatch_rpc replied_def)
qed

lemma router_send_serve:
  assumes "wire_ok w" "bt_get (rr_nodes (fb_router fb)) n = Some c" "fb_chans fb c = Some nd" "nd_running nd"
    and "serve ro r g q (nd_groups nd) = (res, m')"
  shows "router_send ne w ro (req_codec w r) (resp_codec w r) n g (path_of r) q fb =
    (rpc_outcome ne res, fb\<lparr>fb_chans := (fb_chans fb)(c \<mapsto> nd\<lparr>nd_groups := m'\<rparr>)\<rparr>)"
proof -
  obtain b where b: "encode (req_codec w r) q = Some b" by (rule encode_total [OF wire_okD(1) [OF assms(1)]])
  with node_handle_serve [OF assms(1) b assms(5)] assms(2-4) show ?thesis
    by (auto simp: router_send_def Let_def receive_result_decoded)
qed

text \<open>What a call does to the groups of a node.\<close>

lemma serve_groups:
  assumes "bt_wf m" "serve ro r g q m = (res, m')"
  shows "bt_wf m' \<and> (\<forall>g'. g' \<noteq> g \<longrightarrow> bt_get m' g' = bt_get m g') \<and>
    (bt_get m' g = None \<longleftrightarrow> bt_get m g = None)"
  using assms bt.get_insert [OF assms(1)]
  by (auto simp: serve_def set_raft_def bt.invar_insert split: option.splits prod.splits)

fun router_rpc ::
  "'x net_env \<Rightarrow> ('q, 'p, 'x) wire \<Rightarrow> ('h, 'q, 'p, 'x) raft_ops \<Rightarrow> rpc \<Rightarrow> node_id \<Rightarrow> group_id \<Rightarrow> 'q \<Rightarrow> 'h fabric \<Rightarrow>
   (unreachable, 'p) outcome \<times> 'h fabric" where
  "router_rpc ne w ro AppendRpc = router_append_entries ne w ro"
| "router_rpc ne w ro VoteRpc = router_vote ne w ro"
| "router_rpc ne w ro SnapshotRpc = router_full_snapshot ne w ro"
| "router_rpc ne w ro TransferRpc = router_transfer_leader ne w ro"

lemma router_rpc_send:
  "router_rpc ne w ro r n g q fb = router_send ne w ro (req_codec w r) (resp_codec w r) n g (path_of r) q fb"
  by (cases r) (simp_all add: router_append_entries_def router_vote_def router_full_snapshot_def router_transfer_leader_def)

subsection \<open>Concrete parameters\<close>

definition sample_result_pickler :: "'a pickler \<Rightarrow> (unit raft_error, 'a) result pickler" where
  "sample_result_pickler p =
     \<lparr>pickle = (\<lambda>r. case r of RPCOk v \<Rightarrow> 1 # pickle p v | RPCErr (Fatal Stopped) \<Rightarrow> [2] | RPCErr (Fatal (OtherFatal _)) \<Rightarrow> [3]),
      unpickle = (\<lambda>b. case b of
          [] \<Rightarrow> None
        | t # r \<Rightarrow> if t = 1 then map_option (\<lambda>(v, r'). (RPCOk v, r')) (unpickle p r)
                   else Some (RPCErr (Fatal (if t = 2 then Stopped else OtherFatal ())), r))\<rparr>"

lemma sample_result_pickler_ok [simp]: "pickler_ok p \<Longrightarrow> pickler_ok (sample_result_pickler p)"
  by (auto simp: pickler_ok_def sample_result_pickler_def split: result.splits raft_error.splits fatal.splits)

definition sample_wire :: "(u64, u64, unit) wire" where
  "sample_wire =
     (let q = codec_of word_pickler; p = codec_of (sample_result_pickler word_pickler)
      in \<lparr>w_vote_req = q, w_append_req = q, w_snapshot_req = q, w_transfer_req = q, w_vote_resp = p,
          w_append_resp = p, w_snapshot_resp = p, w_transfer_resp = p,
          w_unit_resp = codec_of (sample_result_pickler unit_pickler)\<rparr>)"

lemma sample_wire_codecs:
  shows "req_codec sample_wire r = codec_of word_pickler"
    and "resp_codec sample_wire r = codec_of (sample_result_pickler word_pickler)"
    and "w_unit_resp sample_wire = codec_of (sample_result_pickler unit_pickler)"
proof -
  show "req_codec sample_wire r = codec_of word_pickler" by (cases r) (simp_all add: sample_wire_def Let_def)
  show "resp_codec sample_wire r = codec_of (sample_result_pickler word_pickler)"
    by (cases r) (simp_all add: sample_wire_def Let_def)
  show "w_unit_resp sample_wire = codec_of (sample_result_pickler unit_pickler)" by (simp add: sample_wire_def Let_def)
qed

lemma word_pickle_ascii:
  assumes "b \<in> set (pickle word_pickler (x :: u64))"
  shows "unat b < 128"
proof -
  from assms obtain i where "b = of_bool (bit x i)" unfolding word_pickler_def by auto
  then show ?thesis by (cases "bit x i") simp_all
qed

lemma unit_result_cases:
  obtains v where "x = RPCOk v" | "x = RPCErr (Fatal Stopped)" | "x = RPCErr (Fatal (OtherFatal ()))"
  by (metis (full_types) fatal.exhaust old.unit.exhaust raft_error.exhaust result.exhaust)

lemma result_pickle_ascii:
  assumes "\<And>v b. b \<in> set (pickle p v) \<Longrightarrow> unat b < 128" "b \<in> set (pickle (sample_result_pickler p) x)"
  shows "unat b < 128"
  using assms by (cases x rule: unit_result_cases) (auto simp: sample_result_pickler_def)

lemma encode_codec_of: "encode (codec_of pk) v = Some (pickle pk v)"
  by (simp add: encode_def codec_of_def)

lemma sample_wire_ok: "wire_ok sample_wire"
proof -
  have q: "utf8_valid (pickle word_pickler (x :: u64))" for x by (rule utf8_valid_ascii) (rule word_pickle_ascii)
  have p: "utf8_valid (pickle (sample_result_pickler word_pickler) (x :: (unit raft_error, u64) result))" for x
    by (rule utf8_valid_ascii) (rule result_pickle_ascii [OF word_pickle_ascii])
  have u: "utf8_valid (pickle (sample_result_pickler unit_pickler) x)" for x
    by (rule utf8_valid_ascii) (rule result_pickle_ascii [of unit_pickler], simp_all add: unit_pickler_def)
  have e: "unpickle (sample_result_pickler word_pickler) (pickle (sample_result_pickler unit_pickler) (RPCErr e)) =
      Some (RPCErr e :: (unit raft_error, u64) result, [])" for e
    by (auto simp: sample_result_pickler_def split: raft_error.splits fatal.splits)
  have "\<forall>e. decode (codec_of (sample_result_pickler word_pickler))
      (pickle (sample_result_pickler unit_pickler) (RPCErr e)) = Some (RPCErr e :: (unit raft_error, u64) result)"
    using e by (simp add: decode_def codec_of_def)
  then show ?thesis
    unfolding wire_ok_def sample_wire_codecs encode_codec_of option.inject using q p u by (auto simp: codec_of_ok)
qed

text \<open>A handle that counts and echoes; a node with two groups.\<close>

definition sample_ops :: "(nat, u64, u64, unit) raft_ops" where
  "sample_ops =
     \<lparr>ro_vote = (\<lambda>q h. (RPCOk q, Suc h)), ro_append_entries = (\<lambda>q h. (RPCOk (q + 1), Suc h)),
      ro_install_full_snapshot = (\<lambda>q h. (RPCErr Stopped, h)), ro_handle_transfer_leader = (\<lambda>q h. (RPCOk q, h))\<rparr>"

definition sample_net_env :: "unit net_env" where
  "sample_net_env = \<lparr>ne_show_raft_error = (\<lambda>_. ''stopped''), ne_send_error = ''gone'', ne_canceled = ''canceled'',
     ne_utf8_error = (\<lambda>_. ''utf-8'')\<rparr>"

definition sample_groups :: "nat group_map" where
  "sample_groups = [(1, \<lparr>ga_node_id = 5, ga_group_id = 1, ga_raft = 0\<rparr>), (2, \<lparr>ga_node_id = 5, ga_group_id = 2, ga_raft = 0\<rparr>)]"

definition sample_fabric :: "nat fabric" where
  "sample_fabric = fabric_add_node 5 sample_groups fabric_new"

lemma sample_fabric_sel:
  "bt_get (rr_nodes (fb_router sample_fabric)) 5 = Some 0" "fb_chans sample_fabric 0 = Some (node_new 5 sample_groups)"
  by (simp_all add: sample_fabric_def fabric_add_node_def fabric_new_def register_node_def router_new_def
      Let_def bt_insert_def bt_get_def)

lemma sample_groups_wf: "bt_wf sample_groups"
  by (simp add: sample_groups_def bt_wf_def)

subsection \<open>The claims\<close>

text \<open>
  C17. A protocol call reaches its group and comes back. When the target node is registered
  and running and has the group, each of the four calls runs exactly the openraft
  operation of that call on that group's handle with the request sent, returns its answer
  (an error as unreachable), and leaves every other group of the node, every other node
  and the router as they were.
\<close>

theorem rpc_reaches_group:
  assumes "wire_ok w" and "bt_get (rr_nodes (fb_router fb)) n = Some c"
    and "fb_chans fb c = Some nd" and "nd_running nd" and "bt_wf (nd_groups nd)"
    and "bt_get (nd_groups nd) g = Some ga" and "raft_call ro r q (ga_raft ga) = (res, h')"
  shows "\<exists>nd'. router_rpc ne w ro r n g q fb =
      (rpc_outcome ne res, fb\<lparr>fb_chans := (fb_chans fb)(c \<mapsto> nd')\<rparr>) \<and>
    nd_running nd' \<and> node_get_raft g nd' = Some h' \<and>
    (\<forall>g'. g' \<noteq> g \<longrightarrow> node_get_raft g' nd' = node_get_raft g' nd)"
proof -
  have s: "serve ro r g q (nd_groups nd) = (res, set_raft g h' (nd_groups nd))"
    using assms(6,7) by (simp add: serve_def)
  have "bt_get (set_raft g h' (nd_groups nd)) g' =
      (if g' = g then Some (ga\<lparr>ga_raft := h'\<rparr>) else bt_get (nd_groups nd) g')" for g'
    using assms(5,6) by (simp add: set_raft_def bt.get_insert)
  with router_send_serve [OF assms(1-4) s] assms(4) show ?thesis
    unfolding router_rpc_send
    by (intro exI [of _ "nd\<lparr>nd_groups := set_raft g h' (nd_groups nd)\<rparr>"]) (simp add: node_get_raft_def)
qed

theorem rpc_reaches_group_witness:
  "\<exists>nd'. router_rpc sample_net_env sample_wire sample_ops AppendRpc 5 2 41 sample_fabric =
      (Ok 42, sample_fabric\<lparr>fb_chans := (fb_chans sample_fabric)(0 \<mapsto> nd')\<rparr>) \<and>
     node_get_raft 2 nd' = Some 1 \<and> node_get_raft 1 nd' = Some 0"
proof -
  have g: "bt_get (nd_groups (node_new 5 sample_groups)) 2 = Some \<lparr>ga_node_id = 5, ga_group_id = 2, ga_raft = 0\<rparr>"
    by (simp add: node_new_def sample_groups_def bt_get_def)
  have c: "raft_call sample_ops AppendRpc 41 (ga_raft \<lparr>ga_node_id = 5, ga_group_id = 2, ga_raft = 0\<rparr>) = (RPCOk 42, 1)"
    by (simp add: sample_ops_def)
  have "node_get_raft 1 (node_new 5 sample_groups) = Some 0"
    by (simp add: node_get_raft_def node_new_def sample_groups_def bt_get_def)
  moreover have "nd_running (node_new 5 sample_groups)" "bt_wf (nd_groups (node_new 5 sample_groups))"
    by (simp_all add: node_new_def sample_groups_wf)
  ultimately show ?thesis
    using rpc_reaches_group [OF sample_wire_ok sample_fabric_sel _ _ g c, of sample_net_env] by auto
qed

text \<open>
  A call that cannot be delivered. To a node that is not registered, or whose receive
  loop has ended, or that does not have the group, every call is answered unreachable and
  no handle of any group of any node changes.
\<close>

theorem rpc_undeliverable:
  assumes "wire_ok w"
    and "bt_get (rr_nodes (fb_router fb)) n = None \<or>
      (\<exists>c nd. bt_get (rr_nodes (fb_router fb)) n = Some c \<and> fb_chans fb c = Some nd \<and>
         (\<not> nd_running nd \<or> bt_get (nd_groups nd) g = None))"
  shows "\<exists>m. router_rpc ne w ro r n g q fb = (Err (Unreachable m), fb)"
proof -
  obtain b where b: "encode (req_codec w r) q = Some b" by (rule encode_total [OF wire_okD(1) [OF assms(1)]])
  from assms(2) consider "bt_get (rr_nodes (fb_router fb)) n = None"
    | c nd where "bt_get (rr_nodes (fb_router fb)) n = Some c" "fb_chans fb c = Some nd" "\<not> nd_running nd"
    | c nd where "bt_get (rr_nodes (fb_router fb)) n = Some c" "fb_chans fb c = Some nd" "nd_running nd"
        "bt_get (nd_groups nd) g = None" by metis
  then show ?thesis
  proof cases
    case 3
    then have s: "serve ro r g q (nd_groups nd) = (RPCErr (Fatal Stopped), nd_groups nd)" by (simp add: serve_def)
    have "(fb_chans fb)(c \<mapsto> nd) = fb_chans fb" using 3(2) by auto
    with router_send_serve [OF assms(1) 3(1-3) s] show ?thesis unfolding router_rpc_send by simp
  qed (use b in \<open>auto simp: router_rpc_send router_send_def\<close>)
qed

theorem rpc_undeliverable_witness:
  "\<exists>m. router_rpc sample_net_env sample_wire sample_ops VoteRpc 6 1 7 sample_fabric = (Err (Unreachable m), sample_fabric)"
  by (rule rpc_undeliverable [OF sample_wire_ok])
    (simp add: sample_fabric_def fabric_add_node_def fabric_new_def register_node_def router_new_def Let_def
      bt_insert_def bt_get_def)

text \<open>A remote end served by \<^verbatim>\<open>demux_raft_call\<close>; a bad status or a panic is a failed call.\<close>

definition served_call ::
  "('q, 'p, 'x) wire \<Rightarrow> ('h, 'q, 'p, 'x) raft_ops \<Rightarrow> string \<Rightarrow> 'c \<Rightarrow> raft_request \<Rightarrow> 'h group_map \<Rightarrow>
   (string, bytes) outcome \<times> 'h group_map" where
  "served_call w ro status ch req m =
     (case demux_raft_call w ro req m of
        (Ok b, m') \<Rightarrow> (Ok b, m')
      | (Err _, m') \<Rightarrow> (Err status, m')
      | (Panicked, m') \<Rightarrow> (Err status, m'))"

text \<open>
  C18. The two transports agree. For every protocol call, group and request, calling a
  running node through the in-process router and calling a gRPC server over the same
  groups through a connected channel give the caller the same result and leave the same
  groups behind.
\<close>

theorem transports_agree:
  assumes "wire_ok w" and "bt_get (rr_nodes (fb_router fb)) n = Some c"
    and "fb_chans fb c = Some nd" and "nd_running nd"
    and "channel_for connect n gr = (Ok ch, gr')"
  shows "\<exists>res m'. router_rpc ne w ro r n g q fb =
      (res, fb\<lparr>fb_chans := (fb_chans fb)(c \<mapsto> nd\<lparr>nd_groups := m'\<rparr>)\<rparr>) \<and>
    grpc_send ne connect (served_call w ro status) (req_codec w r) (resp_codec w r) n g (path_of r) q gr (nd_groups nd) =
      (res, gr', m')"
proof -
  obtain b where b: "encode (req_codec w r) q = Some b" by (rule encode_total [OF wire_okD(1) [OF assms(1)]])
  obtain res m' where s: "serve ro r g q (nd_groups nd) = (res, m')" by (metis surj_pair)
  obtain out where "demux_raft_call w ro \<lparr>rq_group_id = g, rq_path = path_of r, rq_payload = b\<rparr> (nd_groups nd) = (Ok out, m')"
    "utf8_valid out" "decode (resp_codec w r) out = Some res" using demux_serve [OF assms(1) b s] by blast
  then have "grpc_send ne connect (served_call w ro status) (req_codec w r) (resp_codec w r) n g (path_of r) q gr (nd_groups nd) =
      (rpc_outcome ne res, gr', m')"
    using b assms(5) by (simp add: grpc_send_def served_call_def receive_result_decoded)
  with router_send_serve [OF assms(1-4) s] show ?thesis unfolding router_rpc_send by blast
qed

theorem transports_agree_witness:
  "\<exists>res m'. router_rpc sample_net_env sample_wire sample_ops SnapshotRpc 5 1 3 sample_fabric =
      (res, sample_fabric\<lparr>fb_chans := (fb_chans sample_fabric)(0 \<mapsto> (node_new 5 sample_groups)\<lparr>nd_groups := m'\<rparr>)\<rparr>) \<and>
    fst (grpc_send sample_net_env (\<lambda>_. Ok ()) (served_call sample_wire sample_ops ''status'') (req_codec sample_wire SnapshotRpc)
      (resp_codec sample_wire SnapshotRpc) 5 1 (path_of SnapshotRpc) 3 (grpc_router_new [(5, loopback 1)] 1) sample_groups) = res"
proof -
  have ch: "\<exists>gr'. channel_for (\<lambda>_. Ok ()) 5 (grpc_router_new [(5, loopback 1)] 1) = (Ok (), gr')"
    by (simp add: channel_for_def cached_channel_def grpc_router_new_def insert_channel_def)
  then obtain gr' where ch: "channel_for (\<lambda>_. Ok ()) 5 (grpc_router_new [(5, loopback 1)] 1) = (Ok (), gr')" by blast
  have run: "nd_running (node_new 5 sample_groups)" and grps: "nd_groups (node_new 5 sample_groups) = sample_groups"
    by (simp_all add: node_new_def)
  from transports_agree [OF sample_wire_ok sample_fabric_sel run ch, of sample_net_env sample_ops SnapshotRpc 1 3 "''status''"]
  show ?thesis unfolding grps by (metis fst_conv)
qed

subsection \<open>Peer links\<close>

datatype link_op = Register node_id chan | Unregister node_id | Bind node_id group_id

fun link_exec :: "link_op \<Rightarrow> router \<Rightarrow> router" where
  "link_exec (Register n c) r = register_node n c r"
| "link_exec (Unregister n) r = snd (unregister_node n r)"
| "link_exec (Bind n g) r = snd (new_client n \<lparr>nf_group_id = g\<rparr> r)"

definition registered :: "link_op list \<Rightarrow> node_id set" where
  "registered ops = {n. \<exists>c. Register n c \<in> set ops}"

lemma link_exec_all:
  assumes "bt_wf (rr_nodes r)"
  shows "bt_wf (rr_nodes (fold link_exec ops r)) \<and>
    rr_metrics (fold link_exec ops r) = rr_metrics r \<union> registered ops \<and>
    ({n. has_node n r} \<subseteq> rr_metrics r \<longrightarrow>
      {n. has_node n (fold link_exec ops r)} \<subseteq> rr_metrics (fold link_exec ops r))"
  using assms
proof (induction ops arbitrary: r)
  case Nil
  then show ?case by (simp add: registered_def)
next
  case (Cons op ops)
  have "bt_wf (rr_nodes (link_exec op r))"
    "rr_metrics (link_exec op r) = rr_metrics r \<union> registered [op]"
    "{n. has_node n r} \<subseteq> rr_metrics r \<longrightarrow> {n. has_node n (link_exec op r)} \<subseteq> rr_metrics (link_exec op r)"
    using Cons.prems
    by (cases op; auto simp: register_node_def unregister_node_def new_client_def record_peer_def registered_def
        has_node_def bt_contains_key_def bt.invar_insert bt.invar_remove bt.get_insert bt.get_remove Let_def)+
  with Cons.IH [of "link_exec op r"] show ?case
    by (auto simp: registered_def)
qed

text \<open>
  Peer links are per node. After any sequence of registrations, removals and client
  bindings of any groups, the number of peer links is the number of distinct nodes ever
  registered: binding clients for more groups never adds one. Every node with an open
  channel is counted; a node that was removed still is.
\<close>

theorem peer_links_per_node:
  "unique_peer_links (fold link_exec ops router_new) = card (registered ops) \<and>
   {n. has_node n (fold link_exec ops router_new)} \<subseteq> registered ops \<and>
   unique_peer_links (fold link_exec (ops @ [Unregister n]) router_new) = card (registered ops) \<and>
   \<not> has_node n (fold link_exec (ops @ [Unregister n]) router_new)"
proof -
  have wf: "bt_wf (rr_nodes router_new)" by (simp add: router_new_def bt_wf_def)
  have 0: "rr_metrics router_new = {}" "{n. has_node n router_new} \<subseteq> rr_metrics router_new"
    by (simp_all add: router_new_def conn_metrics_new_def has_node_def bt_contains_key_def bt_get_def)
  note all = link_exec_all [OF wf, of ops]
  moreover have "registered (ops @ [Unregister n]) = registered ops" by (auto simp: registered_def)
  moreover have "\<not> has_node n (fold link_exec (ops @ [Unregister n]) router_new)"
    using all by (simp add: unregister_node_def has_node_def bt_contains_key_def bt.get_remove)
  ultimately show ?thesis
    using 0 link_exec_all [OF wf, of "ops @ [Unregister n]"]
    by (auto simp: unique_peer_links_def metrics_peer_links_def)
qed

subsection \<open>One channel per peer\<close>

text \<open>
  What holds between the critical sections of concurrent \<^verbatim>\<open>channel_for\<close> calls: a
  call that is done or about to record holds the cached channel, the metrics count exactly
  the cached peers whose recording is not pending, and only configured peers are cached.
\<close>

definition channel_of :: "'c task \<Rightarrow> (node_id \<times> 'c) option" where
  "channel_of t = (case t of Recording p ch \<Rightarrow> Some (p, ch) | Done p ch \<Rightarrow> Some (p, ch) | _ \<Rightarrow> None)"

definition pending_peers :: "'c grpc_state \<Rightarrow> node_id set" where
  "pending_peers s = {p. \<exists>i ch. gs_tasks s i = Some (Recording p ch)}"

definition grpc_inv :: "'c grpc_state \<Rightarrow> bool" where
  "grpc_inv s \<longleftrightarrow>
     (\<forall>i t p ch. gs_tasks s i = Some t \<and> channel_of t = Some (p, ch) \<longrightarrow> gr_channels (gs_router s) p = Some ch) \<and>
     (\<forall>i p. gs_tasks s i = Some (Connecting p) \<or> (\<exists>ch. gs_tasks s i = Some (Connected p ch)) \<longrightarrow>
        gr_peers (gs_router s) p \<noteq> None) \<and>
     dom (gr_channels (gs_router s)) \<subseteq> dom (gr_peers (gs_router s)) \<and>
     gr_metrics (gs_router s) \<subseteq> dom (gr_channels (gs_router s)) \<and>
     dom (gr_channels (gs_router s)) \<subseteq> gr_metrics (gs_router s) \<union> pending_peers s"

lemma grpc_inv_channel:
  "grpc_inv s \<Longrightarrow> gs_tasks s i = Some t \<Longrightarrow> channel_of t = Some (p, ch) \<Longrightarrow> gr_channels (gs_router s) p = Some ch"
  unfolding grpc_inv_def by blast

text \<open>A step of one task that leaves the router alone.\<close>

lemma grpc_inv_task:
  assumes "grpc_inv s" "\<And>p c. gs_tasks s i \<noteq> Some (Recording p c)"
    and "\<And>p ch. channel_of t = Some (p, ch) \<Longrightarrow> gr_channels (gs_router s) p = Some ch"
    and "\<And>p ch. t = Connecting p \<or> t = Connected p ch \<Longrightarrow> gr_peers (gs_router s) p \<noteq> None"
  shows "grpc_inv (s\<lparr>gs_tasks := (gs_tasks s)(i \<mapsto> t)\<rparr>)"
proof -
  let ?s = "s\<lparr>gs_tasks := (gs_tasks s)(i \<mapsto> t)\<rparr>"
  have "gs_tasks s j = Some (Recording x c) \<Longrightarrow> gs_tasks ?s j = Some (Recording x c)" for j x c
    using assms(2) by (cases "j = i") auto
  then have "pending_peers s \<subseteq> pending_peers ?s" unfolding pending_peers_def by blast
  with assms show ?thesis unfolding grpc_inv_def by (auto split: if_splits)
qed

lemma grpc_step_inv:
  assumes "grpc_step s s'" "grpc_inv s"
  shows "grpc_inv s' \<and> gr_peers (gs_router s') = gr_peers (gs_router s) \<and>
    gr_channels (gs_router s) \<subseteq>\<^sub>m gr_channels (gs_router s')"
  using assms(1)
proof (cases rule: grpc_step.cases)
  case (insert_new i peer ch ch' gr)
  have peer: "gr_peers (gs_router s) peer \<noteq> None" using assms(2) insert_new(2) unfolding grpc_inv_def by blast
  from insert_new(3) have gr: "gr = (gs_router s)\<lparr>gr_channels := (gr_channels (gs_router s))(peer \<mapsto> ch)\<rparr>"
    and none: "gr_channels (gs_router s) peer = None" and ch': "ch' = ch"
    by (auto simp: insert_channel_def split: option.splits)
  have "gs_tasks s j = Some (Recording x c) \<Longrightarrow> gs_tasks s' j = Some (Recording x c)" for j x c
    using insert_new(1,2) by (cases "j = i") auto
  moreover have "gs_tasks s' i = Some (Recording peer ch')" by (simp add: insert_new(1))
  ultimately have pend: "pending_peers s \<union> {peer} \<subseteq> pending_peers s'" unfolding pending_peers_def by blast
  show ?thesis
    using assms(2) peer none pend unfolding grpc_inv_def insert_new(1) gr ch'
    by (auto simp: channel_of_def map_le_def split: if_splits) 
next
  case (recorded i peer ch)
  have "channel_of (Recording peer ch) = Some (peer, ch)" by (simp add: channel_of_def)
  with recorded(2) have "gr_channels (gs_router s) peer = Some ch" by (rule grpc_inv_channel [OF assms(2)])
  moreover have "gs_tasks s j = Some (Recording x c) \<Longrightarrow> x = peer \<or> gs_tasks s' j = Some (Recording x c)" for j x c
    using recorded(1,2) by (cases "j = i") auto
  then have "pending_peers s \<subseteq> pending_peers s' \<union> {peer}" unfolding pending_peers_def by blast
  ultimately show ?thesis
    using assms(2) recorded(2) unfolding grpc_inv_def recorded(1)
    by (auto simp: channel_of_def record_channel_def record_peer_def split: if_splits task.splits)
next
  case (hit i peer ch)
  with grpc_inv_task [OF assms(2), of i "Done peer ch"] show ?thesis
    by (auto simp: channel_of_def cached_channel_def)
next
  case (miss i peer addr)
  with grpc_inv_task [OF assms(2), of i "Connecting peer"] show ?thesis by (auto simp: channel_of_def)
next
  case (connect_ok i peer ch)
  moreover from this have "gr_peers (gs_router s) peer \<noteq> None" using assms(2) unfolding grpc_inv_def by blast
  ultimately show ?thesis
    using grpc_inv_task [OF assms(2), of i "Connected peer ch"] by (auto simp: channel_of_def)
next
  case (insert_race i peer ch ch' gr)
  moreover from this have "gr = gs_router s" "gr_channels (gs_router s) peer = Some ch'"
    by (auto simp: insert_channel_def split: option.splits)
  ultimately show ?thesis
    using grpc_inv_task [OF assms(2), of i "Done peer ch'"] by (auto simp: channel_of_def)
qed (auto simp: channel_of_def intro!: grpc_inv_task [OF assms(2)])

lemma grpc_reachable_inv:
  assumes "grpc_reachable s t" "grpc_inv s"
  shows "grpc_inv t \<and> gr_peers (gs_router t) = gr_peers (gs_router s) \<and>
    gr_channels (gs_router s) \<subseteq>\<^sub>m gr_channels (gs_router t)"
  using assms
proof (induction rule: grpc_reachable.induct)
  case refl
  then show ?case by simp
next
  case (step t u)
  with grpc_step_inv [OF step.hyps(2)] show ?case by (auto intro: map_le_trans)
qed

lemma grpc_init_inv: "grpc_inv (grpc_init peers self_id)"
  by (simp add: grpc_inv_def grpc_init_def grpc_router_new_def conn_metrics_new_def)

text \<open>
  C19. Concurrent gRPC callers share one channel per peer. In every state reachable by any
  interleaving of \<^verbatim>\<open>channel_for\<close> calls, all calls for a peer that have completed
  hold the same channel, also those that raced to connect, and go on holding it later;
  only configured peers have channels, and the link count never exceeds the number of
  channels and equals it when no call is between caching and recording.
\<close>

theorem grpc_channel_shared:
  assumes "grpc_reachable (grpc_init peers self_id) s" and "grpc_reachable s s'"
    and "gs_tasks s i = Some (Done p ch)" and "gs_tasks s' j = Some (Done p ch')"
  shows "ch = ch' \<and> p \<in> fst ` set peers \<and>
    grpc_unique_peer_links (gs_router s) \<le> card (dom (gr_channels (gs_router s))) \<and>
    (pending_peers s = {} \<longrightarrow> grpc_unique_peer_links (gs_router s) = card (dom (gr_channels (gs_router s))))"
proof -
  have inv: "grpc_inv s" and peers: "gr_peers (gs_router s) = map_of (rev peers)"
    using grpc_reachable_inv [OF assms(1) grpc_init_inv] by (simp_all add: grpc_init_def grpc_router_new_def)
  have inv': "grpc_inv s'" and le: "gr_channels (gs_router s) \<subseteq>\<^sub>m gr_channels (gs_router s')"
    using grpc_reachable_inv [OF assms(2) inv] by simp_all
  have c: "gr_channels (gs_router s) p = Some ch" and c': "gr_channels (gs_router s') p = Some ch'"
    using grpc_inv_channel [OF inv assms(3)] grpc_inv_channel [OF inv' assms(4)] by (simp_all add: channel_of_def)
  then have "ch = ch'" using le by (metis domI map_le_def option.inject)
  moreover have sub: "dom (gr_channels (gs_router s)) \<subseteq> fst ` set peers"
    using inv unfolding grpc_inv_def peers by (auto simp: dom_map_of_conv_image_fst)
  then have "p \<in> fst ` set peers" using c by blast
  moreover have fin: "finite (dom (gr_channels (gs_router s)))" using sub finite_subset by blast
  moreover have "gr_metrics (gs_router s) \<subseteq> dom (gr_channels (gs_router s))" using inv by (simp add: grpc_inv_def)
  then have "grpc_unique_peer_links (gs_router s) \<le> card (dom (gr_channels (gs_router s)))"
    using card_mono [OF fin] by (simp add: grpc_unique_peer_links_def metrics_peer_links_def)
  moreover have "grpc_unique_peer_links (gs_router s) = card (dom (gr_channels (gs_router s)))" if "pending_peers s = {}"
  proof -
    have "gr_metrics (gs_router s) = dom (gr_channels (gs_router s))" using inv that unfolding grpc_inv_def by blast
    then show ?thesis by (simp add: grpc_unique_peer_links_def metrics_peer_links_def)
  qed
  ultimately show ?thesis by blast
qed

text \<open>Two callers race to connect to peer 5; the loser gets the winner's channel.\<close>

lemma race_reachable:
  "\<exists>s. grpc_reachable (grpc_init [(5, loopback 1)] 1) s \<and>
     gs_tasks s 0 = Some (Done 5 ''a'') \<and> gs_tasks s 1 = Some (Done 5 ''a'')"
proof -
  define s0 :: "string grpc_state" where "s0 = grpc_init [(5, loopback 1)] 1"
  define s1 where "s1 = s0\<lparr>gs_tasks := (gs_tasks s0)(0 \<mapsto> Looking 5)\<rparr>"
  define s2 where "s2 = s1\<lparr>gs_tasks := (gs_tasks s1)(1 \<mapsto> Looking 5)\<rparr>"
  define s3 where "s3 = s2\<lparr>gs_tasks := (gs_tasks s2)(0 \<mapsto> Connecting 5)\<rparr>"
  define s4 where "s4 = s3\<lparr>gs_tasks := (gs_tasks s3)(1 \<mapsto> Connecting 5)\<rparr>"
  define s5 where "s5 = s4\<lparr>gs_tasks := (gs_tasks s4)(0 \<mapsto> Connected 5 ''a'')\<rparr>"
  define s6 where "s6 = s5\<lparr>gs_tasks := (gs_tasks s5)(1 \<mapsto> Connected 5 ''b'')\<rparr>"
  define gr where "gr = (gs_router s6)\<lparr>gr_channels := (gr_channels (gs_router s6))(5 \<mapsto> ''a'')\<rparr>"
  define s7 where "s7 = s6\<lparr>gs_router := gr, gs_tasks := (gs_tasks s6)(0 \<mapsto> Recording 5 ''a'')\<rparr>"
  define s8 where "s8 = s7\<lparr>gs_router := record_channel 5 (gs_router s7), gs_tasks := (gs_tasks s7)(0 \<mapsto> Done 5 ''a'')\<rparr>"
  define s9 where "s9 = s8\<lparr>gs_router := gs_router s8, gs_tasks := (gs_tasks s8)(1 \<mapsto> Done 5 ''a'')\<rparr>"
  note d = s0_def s1_def s2_def s3_def s4_def s5_def s6_def s7_def s8_def gr_def grpc_init_def grpc_router_new_def
    cached_channel_def insert_channel_def record_channel_def
  have "grpc_step s0 s1" unfolding s1_def by (rule grpc_step.start) (simp add: d)
  moreover have "grpc_step s1 s2" unfolding s2_def by (rule grpc_step.start) (simp add: d)
  moreover have "grpc_step s2 s3" unfolding s3_def by (rule grpc_step.miss [where addr = "loopback 1"]) (simp_all add: d)
  moreover have "grpc_step s3 s4" unfolding s4_def by (rule grpc_step.miss [where addr = "loopback 1"]) (simp_all add: d)
  moreover have "grpc_step s4 s5" unfolding s5_def by (rule grpc_step.connect_ok) (simp add: d)
  moreover have "grpc_step s5 s6" unfolding s6_def by (rule grpc_step.connect_ok) (simp add: d)
  moreover have "grpc_step s6 s7" unfolding s7_def by (rule grpc_step.insert_new [where ch = "''a''"]) (simp_all add: d)
  moreover have "grpc_step s7 s8" unfolding s8_def by (rule grpc_step.recorded) (simp add: d)
  moreover have "grpc_step s8 s9" unfolding s9_def by (rule grpc_step.insert_race [where ch = "''b''"]) (simp_all add: d)
  ultimately have "grpc_reachable s0 s9"
    by (meson grpc_reachable.refl grpc_reachable.step)
  moreover have "gs_tasks s9 0 = Some (Done 5 ''a'')" "gs_tasks s9 1 = Some (Done 5 ''a'')"
    by (simp_all add: s9_def s8_def)
  ultimately show ?thesis unfolding s0_def by blast
qed

theorem grpc_channel_shared_witness:
  "\<exists>s ch. grpc_reachable (grpc_init [(5, loopback 1)] 1) s \<and> gs_tasks s 0 = Some (Done 5 ch) \<and>
     gs_tasks s 1 = Some (Done 5 ''a'') \<and> ch = ''a'' \<and> 5 \<in> fst ` set [(5 :: node_id, loopback 1)]"
proof -
  obtain s where s: "grpc_reachable (grpc_init [(5, loopback 1)] 1) s"
    "gs_tasks s 0 = Some (Done 5 ''a'')" "gs_tasks s 1 = Some (Done 5 ''a'')" using race_reachable by blast
  from grpc_channel_shared [OF s(1) grpc_reachable.refl s(2,3)] s show ?thesis by blast
qed

subsection \<open>Malformed payloads\<close>

text \<open>
  C31. One malformed request takes a node off the in-process network. A message to an
  existing group on a known path whose payload does not decode makes the handler panic:
  its sender gets an error, the receive loop ends, and from then on every call of every
  kind to every group of that node is answered unreachable.
\<close>

theorem malformed_payload_stops_node:
  assumes "wire_ok w" and "bt_get (rr_nodes (fb_router fb)) n = Some c"
    and "fb_chans fb c = Some nd" and "nd_running nd" and "bt_get (nd_groups nd) g = Some ga"
    and "encode cq q = Some b" and "\<not> is_ok (from_slice (req_codec w r) b)"
    and "router_send ne w ro cq cp n g (path_of r) q fb = (res, fb')"
  shows "res = Err (Unreachable (ne_canceled ne)) \<and>
    (\<forall>r' g' q'. router_rpc ne w ro r' n g' q' fb' = (Err (Unreachable (ne_send_error ne)), fb'))"
proof -
  have "decode (req_codec w r) b = None" using assms(7) by (cases "from_slice (req_codec w r) b") (auto simp: decode_def)
  then have h: "\<exists>m. node_handle w ro \<lparr>msg_group_id = g, msg_path = path_of r, msg_payload = b\<rparr> nd =
      (None, nd\<lparr>nd_groups := m, nd_running := False\<rparr>)"
    using assms(5) by (intro exI [of _ "set_raft g (ga_raft ga) (nd_groups nd)"])
      (simp add: node_handle_def dispatch_rpc api_call_def)
  with assms(2-4,6,8) have res: "res = Err (Unreachable (ne_canceled ne))"
    and "\<exists>m. fb' = fb\<lparr>fb_chans := (fb_chans fb)(c \<mapsto> nd\<lparr>nd_groups := m, nd_running := False\<rparr>)\<rparr>"
    by (auto simp: router_send_def Let_def)
  then obtain m where fb': "fb' = fb\<lparr>fb_chans := (fb_chans fb)(c \<mapsto> nd\<lparr>nd_groups := m, nd_running := False\<rparr>)\<rparr>" by blast
  have "router_rpc ne w ro r' n g' q' fb' = (Err (Unreachable (ne_send_error ne)), fb')" for r' g' q'
  proof -
    obtain b' where "encode (req_codec w r') q' = Some b'" by (rule encode_total [OF wire_okD(1) [OF assms(1)]])
    with assms(2) show ?thesis by (simp add: router_rpc_send router_send_def fb')
  qed
  with res show ?thesis by blast
qed

definition bad_codec :: "u64 codec" where
  "bad_codec = \<lparr>to_vec = (\<lambda>_. Ok (replicate 65 0)), from_slice = (\<lambda>_. Err ''bad'')\<rparr>"

theorem malformed_payload_stops_node_witness:
  "\<exists>res fb'. router_send sample_net_env sample_wire sample_ops bad_codec (resp_codec sample_wire VoteRpc) 5 1
      (path_of VoteRpc) 0 sample_fabric = (res, fb') \<and>
    router_rpc sample_net_env sample_wire sample_ops AppendRpc 5 2 41 fb' = (Err (Unreachable ''gone''), fb')"
proof -
  obtain res fb' where s: "router_send sample_net_env sample_wire sample_ops bad_codec (resp_codec sample_wire VoteRpc) 5 1
      (path_of VoteRpc) 0 sample_fabric = (res, fb')" by (metis surj_pair)
  have e: "encode bad_codec 0 = Some (replicate 65 0)" by (simp add: encode_def bad_codec_def)
  have "length (drop 64 (replicate 65 0 :: bytes)) = 1" by simp
  then obtain x where "drop 64 (replicate 65 0 :: bytes) = [x]" by (metis One_nat_def Suc_length_conv length_0_conv)
  then have bad: "\<not> is_ok (from_slice (req_codec sample_wire VoteRpc) (replicate 65 0))"
    unfolding sample_wire_codecs by (simp add: codec_of_def word_pickler_def del: drop_replicate)
  have g: "bt_get (nd_groups (node_new 5 sample_groups)) 1 = Some \<lparr>ga_node_id = 5, ga_group_id = 1, ga_raft = 0\<rparr>"
    and run: "nd_running (node_new 5 sample_groups)"
    by (simp_all add: node_new_def sample_groups_def bt_get_def)
  have "router_rpc sample_net_env sample_wire sample_ops AppendRpc 5 2 41 fb' =
      (Err (Unreachable (ne_send_error sample_net_env)), fb')"
    using malformed_payload_stops_node [OF sample_wire_ok sample_fabric_sel run g e bad s] by blast
  moreover have "ne_send_error sample_net_env = ''gone''" by (simp add: sample_net_env_def)
  ultimately show ?thesis using s by (intro exI [of _ res] exI [of _ fb']) simp
qed

end
