(* ===== verification/Solo_Raft.thy ===== *)
theory Solo_Raft
  imports Multi_Raft Sm_Props Net_Props
begin

section \<open>A concrete openraft for the concrete instances\<close>

text \<open>
  A group of one peer that is its own leader once it is initialized: a write is committed
  and applied at once, a snapshot is built after as many entries as the policy of its
  configuration says, and a command that the store rejects stays committed and stops the
  peer. It instantiates the parameter \<open>openraft\<close> in the concrete instances of the
  theorems about \<open>MultiRaft\<close>; none of the theorems is about it.
\<close>

record solo =
  so_node :: node_id
  so_initialized :: bool
  so_stopped :: bool
  so_policy :: snapshot_policy
  so_log :: "(u64 \<times> node_id, node_id list) entry list"

type_synonym solo_group = "(solo, counter_fsm, u64 \<times> node_id, node_id list) raft_group"

definition solo_entry :: "request \<Rightarrow> solo \<Rightarrow> (u64 \<times> node_id, node_id list) entry" where
  "solo_entry req so =
     \<lparr>ent_log_id = LogId (1, so_node so) (of_nat (length (so_log so)) + 1), ent_payload = Normal req\<rparr>"

definition solo_new ::
  "node_id \<Rightarrow> raft_config \<Rightarrow> raft_network \<Rightarrow> (u64 \<times> node_id, node_id list, u64) log_storage \<Rightarrow> sm_options \<Rightarrow>
   (counter_fsm, u64 \<times> node_id, node_id list) sm_inner \<Rightarrow> fs \<Rightarrow> (string, solo_group) outcome \<times> fs" where
  "solo_new nid cfg net store opts inner fs =
     (Ok \<lparr>rg_core = \<lparr>so_node = nid, so_initialized = False, so_stopped = False,
                      so_policy = rc_snapshot_policy cfg, so_log = []\<rparr>,
          rg_opts = opts, rg_inner = inner\<rparr>, fs)"

definition solo_initialize ::
  "(node_id, string) btree_map \<Rightarrow> solo_group \<Rightarrow> fs \<Rightarrow> (initialize_error, unit) outcome \<times> solo_group \<times> fs" where
  "solo_initialize nodes rg fs =
     (if so_initialized (rg_core rg) then (Err NotAllowed, rg, fs)
      else if nodes = [] then (Err (InitializeFailed ''no members''), rg, fs)
      else (Ok (), rg\<lparr>rg_core := (rg_core rg)\<lparr>so_initialized := True\<rparr>\<rparr>, fs))"

definition snapshot_due :: "solo \<Rightarrow> bool" where
  "snapshot_due so =
     (case so_policy so of Never \<Rightarrow> False | LogsSinceLast n \<Rightarrow> length (so_log so) mod unat n = 0)"

definition solo_snapshot :: "solo_group \<Rightarrow> fs \<Rightarrow> solo_group \<times> fs" where
  "solo_snapshot rg fs =
     (if snapshot_due (rg_core rg) then
        (case build_snapshot calm_os (sample_cx Release) (rg_opts rg) (rg_inner rg) fs of
           (_, inner', fs') \<Rightarrow> (rg\<lparr>rg_inner := inner'\<rparr>, fs'))
      else (rg, fs))"

definition solo_write ::
  "request \<Rightarrow> solo_group \<Rightarrow> fs \<Rightarrow> (raft_call_error, (u64 \<times> node_id) log_id) outcome \<times> solo_group \<times> fs" where
  "solo_write req rg fs =
     (if \<not> so_initialized (rg_core rg) then (Err (ForwardToLeader None), rg, fs)
      else if so_stopped (rg_core rg) then (Err (RaftFailed ''stopped''), rg, fs)
      else
        let ent = solo_entry req (rg_core rg);
            core = (rg_core rg)\<lparr>so_log := so_log (rg_core rg) @ [ent]\<rparr> in
        case sm_apply (sample_cx Release) (rg_opts rg) [Ok (ent, None :: nat option)] (rg_inner rg) of
          (Ok _, inner', _, _) \<Rightarrow>
            (Ok (ent_log_id ent), solo_snapshot (rg\<lparr>rg_core := core, rg_inner := inner'\<rparr>) fs)
        | (_, inner', _, _) \<Rightarrow>
            (Err (RaftFailed ''stopped''),
             rg\<lparr>rg_core := core\<lparr>so_stopped := True\<rparr>, rg_inner := inner'\<rparr>, fs))"

definition solo_check :: "solo_group \<Rightarrow> fs \<Rightarrow> (raft_call_error, unit) outcome \<times> solo_group \<times> fs" where
  "solo_check rg fs =
     (if \<not> so_initialized (rg_core rg) then Err (ForwardToLeader None)
      else if so_stopped (rg_core rg) then Err (RaftFailed ''stopped'')
      else Ok (), rg, fs)"

definition solo_raft :: "(solo, counter_fsm, u64 \<times> node_id, node_id list, u64) openraft" where
  "solo_raft =
     \<lparr>or_validate = Ok, or_new = solo_new, or_initialize = solo_initialize,
      or_add_learner = (\<lambda>_ _ _. solo_check), or_client_write = solo_write,
      or_ensure_linearizable = solo_check,
      or_shutdown = (\<lambda>rg fs. (Ok (), rg\<lparr>rg_core := (rg_core rg)\<lparr>so_initialized := False\<rparr>\<rparr>, fs)),
      or_wait_for_recovery = (\<lambda>_ rg fs. (Ok (), rg, fs)),
      or_is_leader = (\<lambda>rg. so_initialized (rg_core rg)),
      or_current_leader = (\<lambda>rg. if so_initialized (rg_core rg) then Some (so_node (rg_core rg)) else None)\<rparr>"

definition ad_pickler :: "snapshot_advertisement pickler" where
  "ad_pickler = iso_pickler
     (\<lambda>a. (ad_group a, ad_last_index a, ad_last_term a, ad_snapshot_id a, ad_size a, ad_sha256_hex a, ad_fetch_url a))
     (\<lambda>(g, i, t, s, z, h, u). \<lparr>ad_group = g, ad_last_index = i, ad_last_term = t, ad_snapshot_id = s,
        ad_size = z, ad_sha256_hex = h, ad_fetch_url = u\<rparr>)
     (pair_pickler word_pickler (pair_pickler word_pickler (pair_pickler word_pickler (pair_pickler string_pickler
       (pair_pickler word_pickler (pair_pickler string_pickler string_pickler))))))"

definition sample_ads_codec :: "snapshot_advertisement list codec" where
  "sample_ads_codec = codec_of (list_pickler ad_pickler)"

lemma sample_ads_codec_ok [simp]: "codec_ok sample_ads_codec"
  by (simp add: sample_ads_codec_def ad_pickler_def codec_of_ok iso_pickler_ok)

text \<open>The log codecs are not used by nodes without a data directory.\<close>

definition no_codec :: "'a codec" where
  "no_codec = \<lparr>to_vec = (\<lambda>_. Err ''unused''), from_slice = (\<lambda>_. Err ''unused'')\<rparr>"

definition solo_env :: "(solo, counter_fsm, counter_error, u64 \<times> node_id, node_id list, u64) mr_env" where
  "solo_env =
     \<lparr>me_os = calm_os, me_sm = sample_cx Release, me_logs = \<lparr>lc_hard = no_codec, lc_log = no_codec\<rparr>,
      me_ads = sample_ads_codec, me_raft = solo_raft, me_make_fsm = (\<lambda>_. counter_new), me_bind = (\<lambda>_. Ok ())\<rparr>"

lemma solo_env_sel [simp]:
  "me_os solo_env = calm_os" "me_sm solo_env = sample_cx Release" "me_ads solo_env = sample_ads_codec"
  "me_raft solo_env = solo_raft" "me_make_fsm solo_env g = counter_new" "me_bind solo_env a = Ok ()"
  by (simp_all add: solo_env_def)

lemma solo_raft_sel [simp]:
  "or_validate solo_raft = Ok" "or_new solo_raft = solo_new" "or_initialize solo_raft = solo_initialize"
  "or_client_write solo_raft = solo_write" "or_ensure_linearizable solo_raft = solo_check"
  "or_is_leader solo_raft rg = so_initialized (rg_core rg)"
  "or_shutdown solo_raft rg fs = (Ok (), rg\<lparr>rg_core := (rg_core rg)\<lparr>so_initialized := False\<rparr>\<rparr>, fs)"
  by (simp_all add: solo_raft_def)

definition sample_config :: "node_id \<Rightarrow> cluster_config" where
  "sample_config n =
     \<lparr>cfg_node_id = n, cfg_peers = [(1, loopback 19001), (2, loopback 19002), (3, loopback 19003)], cfg_data_dir = [],
      cfg_heartbeat_interval_ms = 100, cfg_election_timeout_min_ms = 300, cfg_election_timeout_max_ms = 600,
      cfg_role = Voter, cfg_snapshot_mode = Disabled, cfg_snapshot_keep = 2, cfg_admin_advertise_addr = None\<rparr>"

definition sample_node :: "node_id \<Rightarrow> (solo, counter_fsm, u64 \<times> node_id, node_id list) multi_raft" where
  "sample_node n = fresh_node (sample_config n) InProcess (fst (snapshot_runtime_new calm_os sample_ads_codec (sample_config n) []))"

definition sample_world :: world where
  "sample_world = \<lparr>wd_fabric = shared_fabric_new, wd_fs = []\<rparr>"

lemma sample_node_sel [simp]:
  "mr_node_id (sample_node n) = n" "mr_net (sample_node n) = InProcess" "mr_config (sample_node n) = sample_config n"
  "mr_groups (sample_node n) = []" "cfg_role (sample_config n) = Voter" "cfg_data_dir (sample_config n) = []"
  "cfg_snapshot_mode (sample_config n) = Disabled" "sr_catalog (mr_snapshot_rt (sample_node n)) = None"
  by (simp_all add: sample_node_def fresh_node_def sample_config_def snapshot_runtime_new_def)

lemma sample_world_sel [simp]:
  "sf_glue (wd_fabric sample_world) = cluster_glue_default" "wd_fs sample_world = []"
  by (simp_all add: sample_world_def shared_fabric_new_def)

text \<open>Creating the group on a node: a peer that is not initialized, on plain options.\<close>

definition sample_peer :: "node_id \<Rightarrow> group_id \<Rightarrow> solo_group" where
  "sample_peer n g =
     \<lparr>rg_core = \<lparr>so_node = n, so_initialized = False, so_stopped = False, so_policy = LogsSinceLast 5000, so_log = []\<rparr>,
      rg_opts = sm_default_options,
      rg_inner = sm_inner_new pair_raft_types g counter_new\<rparr>"

lemma spawn_sample:
  assumes "mr_config mr = sample_config n" "mr_node_id mr = n" "sr_catalog (mr_snapshot_rt mr) = None"
  shows "spawn_local_group solo_env g mr w =
    (Ok (), mr\<lparr>mr_groups := bt_insert g \<lparr>ga_node_id = n, ga_group_id = g, ga_raft = sample_peer n g\<rparr> (mr_groups mr),
                mr_watchers := mr_watchers mr @ [g]\<rparr>, w)"
  using assms
  by (simp add: spawn_local_group_def group_options_def open_log_def solo_new_def spawn_leader_watch_def
      sample_peer_def sm_default_options_def raft_config_of_def Let_def)

end
