(* ===== verification/Multi_Raft_Props.thy ===== *)
theory Multi_Raft_Props
  imports Solo_Raft
begin

section \<open>Properties of the MultiRaft facade\<close>

text \<open>
  Initialization through the cluster glue, advertisements across restarts, the path of a
  snapshot from a standby's trigger to a voter, and what a shutdown leaves behind.
\<close>

subsection \<open>Claiming the initialization\<close>

type_synonym claim_call = "group_id \<times> node_id \<times> node_id list"

fun claim_all :: "claim_call list \<Rightarrow> cluster_glue \<Rightarrow> bool list \<times> cluster_glue" where
  "claim_all [] glue = ([], glue)"
| "claim_all ((g, nid, members) # cs) glue =
     (case claim_init g nid members glue of
        (b, glue1) \<Rightarrow> (case claim_all cs glue1 of (bs, glue2) \<Rightarrow> (b # bs, glue2)))"

text \<open>The nodes that called for a group, and calls at which all their members had called.\<close>

definition joined :: "claim_call list \<Rightarrow> group_id \<Rightarrow> node_id set" where
  "joined cs g = {nid. \<exists>ms. (g, nid, ms) \<in> set cs}"

definition complete_at :: "claim_call list \<Rightarrow> nat \<Rightarrow> bool" where
  "complete_at cs i \<longleftrightarrow> (case cs ! i of (g, _, ms) \<Rightarrow> set ms \<subseteq> joined (take (Suc i) cs) g)"

lemma claim_all_snoc:
  "claim_all (cs @ [(g, nid, ms)]) glue =
     (case claim_all cs glue of (bs, glue1) \<Rightarrow>
        case claim_init g nid ms glue1 of (b, glue2) \<Rightarrow> (bs @ [b], glue2))"
  by (induction cs glue rule: claim_all.induct) (auto split: prod.splits)

lemma complete_at_snoc: "i < length cs \<Longrightarrow> complete_at (cs @ [c]) i = complete_at cs i"
  by (simp add: complete_at_def nth_append)

lemma joined_snoc: "joined (cs @ [(h, nid, ms)]) g = joined cs g \<union> (if g = h then {nid} else {})"
  by (auto simp: joined_def)

lemma claim_init_eq:
  assumes "insert nid (case cg_ready glue g of Some s \<Rightarrow> s | None \<Rightarrow> {}) = A"
  shows "claim_init g nid ms glue =
     (set ms \<subseteq> A \<and> g \<notin> cg_claimed_init glue,
      glue\<lparr>cg_ready := (cg_ready glue)(g \<mapsto> A),
           cg_claimed_init := (if set ms \<subseteq> A then insert g (cg_claimed_init glue) else cg_claimed_init glue)\<rparr>)"
  unfolding claim_init_def mark_ready_def try_claim_init_def Let_def assms
  by (auto simp: list_all_iff)

lemma claim_all_invariant:
  assumes "claim_all cs cluster_glue_default = (bs, glue)"
  shows "length bs = length cs"
    and "(case cg_ready glue g of Some s \<Rightarrow> s | None \<Rightarrow> {}) = joined cs g"
    and "g \<in> cg_claimed_init glue \<longleftrightarrow> (\<exists>i < length cs. fst (cs ! i) = g \<and> complete_at cs i)"
  using assms
proof (induction cs arbitrary: bs glue g rule: rev_induct)
  case Nil
  { case 1 then show ?case by simp }
  { case 2 then show ?case by (auto simp: cluster_glue_default_def joined_def) }
  { case 3 then show ?case by (auto simp: cluster_glue_default_def) }
next
  case (snoc c cs)
  obtain h nid ms where c: "c = (h, nid, ms)" by (cases c)
  obtain bs1 glue1 where pre: "claim_all cs cluster_glue_default = (bs1, glue1)" by (metis surj_pair)
  note IH = snoc.IH [OF pre]
  have ready: "insert nid (case cg_ready glue1 h of Some s \<Rightarrow> s | None \<Rightarrow> {}) = joined (cs @ [c]) h"
    using IH(2) [of h] c by (auto simp: joined_snoc)
  have comp: "complete_at (cs @ [c]) (length cs) \<longleftrightarrow> set ms \<subseteq> joined (cs @ [c]) h"
    using c by (simp add: complete_at_def)
  note step = claim_init_eq [OF ready, of ms]
  have res: "bs = bs1 @ [set ms \<subseteq> joined (cs @ [c]) h \<and> h \<notin> cg_claimed_init glue1]"
    "cg_ready glue = (cg_ready glue1)(h \<mapsto> joined (cs @ [c]) h)"
    "cg_claimed_init glue =
      (if complete_at (cs @ [c]) (length cs) then insert h (cg_claimed_init glue1) else cg_claimed_init glue1)"
    if "claim_all (cs @ [c]) cluster_glue_default = (bs, glue)" for bs glue
    using that pre step unfolding c comp [unfolded c] by (simp_all add: claim_all_snoc split: if_splits) auto
  { case 1 then show ?case using res(1) [OF 1] IH(1) by simp }
  { case 2 then show ?case using res(2) [OF 2] IH(2) [of g] c by (simp add: joined_snoc) }
  { case 3
    have old: "(\<exists>i < length cs. fst ((cs @ [c]) ! i) = g \<and> complete_at (cs @ [c]) i) \<longleftrightarrow>
        (\<exists>i < length cs. fst (cs ! i) = g \<and> complete_at cs i)"
      by (intro ex_cong1 conj_cong refl) (simp_all add: nth_append complete_at_snoc)
    have "(\<exists>i < length (cs @ [c]). fst ((cs @ [c]) ! i) = g \<and> complete_at (cs @ [c]) i) \<longleftrightarrow>
        h = g \<and> complete_at (cs @ [c]) (length cs) \<or> (\<exists>i < length cs. fst (cs ! i) = g \<and> complete_at cs i)"
      unfolding old [symmetric] by (simp add: Ex_less_Suc c)
    then show ?case using IH(3) [of g] res(3) [OF 3] by auto }
qed

lemma claim_all_nth:
  assumes "i < length cs"
  shows "fst (claim_all cs cluster_glue_default) ! i \<longleftrightarrow>
    complete_at cs i \<and> \<not> (\<exists>j < i. fst (cs ! j) = fst (cs ! i) \<and> complete_at cs j)"
  using assms
proof (induction cs rule: rev_induct)
  case (snoc c cs)
  obtain h nid ms where c: "c = (h, nid, ms)" by (cases c)
  obtain bs1 glue1 where pre: "claim_all cs cluster_glue_default = (bs1, glue1)" by (metis surj_pair)
  note inv = claim_all_invariant [OF pre]
  obtain b glue2 where 2: "claim_init h nid ms glue1 = (b, glue2)" by (metis surj_pair)
  have all: "fst (claim_all (cs @ [c]) cluster_glue_default) = bs1 @ [b]"
    using pre 2 c by (simp add: claim_all_snoc)
  show ?case
  proof (cases "i < length cs")
    case True
    have "(cs @ [c]) ! i = cs ! i" using True by (simp add: nth_append)
    with True snoc.IH pre inv(1) all show ?thesis
      by (auto simp: nth_append complete_at_snoc)
  next
    case False
    then have i: "i = length cs" using snoc.prems by simp
    have "insert nid (case cg_ready glue1 h of Some s \<Rightarrow> s | None \<Rightarrow> {}) = joined (cs @ [c]) h"
      using inv(2) [of h] c by (simp add: joined_snoc)
    from claim_init_eq [OF this] have "b \<longleftrightarrow> set ms \<subseteq> joined (cs @ [c]) h \<and> h \<notin> cg_claimed_init glue1"
      using 2 by simp
    moreover have "complete_at (cs @ [c]) i \<longleftrightarrow> set ms \<subseteq> joined (cs @ [c]) h"
      using i c by (simp add: complete_at_def)
    ultimately show ?thesis using i all inv(1) inv(3) [of h] c
      by (auto simp: nth_append complete_at_snoc)
  qed
qed simp

subsection \<open>Creating a group on a whole cluster\<close>

text \<open>A sequence of \<^verbatim>\<open>create_group\<close> calls on the nodes of one process.\<close>

fun create_all ::
  "('r, 's, 'e, 'l, 'm, 'v) mr_env \<Rightarrow> claim_call list \<Rightarrow> (node_id \<Rightarrow> ('r, 's, 'l, 'm) multi_raft) \<Rightarrow> world \<Rightarrow>
   (multiraft_error, unit) outcome list \<times> (node_id \<Rightarrow> ('r, 's, 'l, 'm) multi_raft) \<times> world" where
  "create_all env [] c w = ([], c, w)"
| "create_all env ((g, nid, ms) # cs) c w =
     (case create_group env g ms (c nid) w of
        (r, mr', w') \<Rightarrow>
          (case create_all env cs (c(nid := mr')) w' of (rs, c2, w2) \<Rightarrow> (r # rs, c2, w2)))"

text \<open>
  The reference: no shared sets, but the history \<open>h\<close> of the calls that got a local
  peer. A call initializes when it is the first of its group at which every member it
  names has called.
\<close>

definition ensure_group ::
  "('r, 's, 'e, 'l, 'm, 'v) mr_env \<Rightarrow> group_id \<Rightarrow> ('r, 's, 'l, 'm) multi_raft \<Rightarrow> world \<Rightarrow>
   (multiraft_error, unit) outcome \<times> ('r, 's, 'l, 'm) multi_raft \<times> world" where
  "ensure_group env g mr w =
     (if bt_contains_key (mr_groups mr) g then (Ok (), mr, w) else spawn_local_group env g mr w)"

definition first_complete :: "claim_call list \<Rightarrow> nat \<Rightarrow> bool" where
  "first_complete h i \<longleftrightarrow> complete_at h i \<and> \<not> (\<exists>j < i. fst (h ! j) = fst (h ! i) \<and> complete_at h j)"

fun create_spec ::
  "('r, 's, 'e, 'l, 'm, 'v) mr_env \<Rightarrow> claim_call list \<Rightarrow> claim_call list \<Rightarrow> (node_id \<Rightarrow> ('r, 's, 'l, 'm) multi_raft) \<Rightarrow>
   world \<Rightarrow> (multiraft_error, unit) outcome list \<times> (node_id \<Rightarrow> ('r, 's, 'l, 'm) multi_raft) \<times> world" where
  "create_spec env h [] c w = ([], c, w)"
| "create_spec env h ((g, nid, ms) # cs) c w =
     (case ensure_group env g (c nid) w of
        (Ok _, mr1, w1) \<Rightarrow>
          (case (if first_complete (h @ [(g, nid, ms)]) (length h) then try_initialize env g ms mr1 w1
                 else (Ok (), mr1, w1)) of
             (r, mr2, w2) \<Rightarrow>
               (case create_spec env (h @ [(g, nid, ms)]) cs (c(nid := mr2)) w2 of
                  (rs, c3, w3) \<Rightarrow> (r # rs, c3, w3)))
      | (r, mr1, w1) \<Rightarrow>
          (case create_spec env h cs (c(nid := mr1)) w1 of (rs, c3, w3) \<Rightarrow> (r # rs, c3, w3)))"

definition in_process_voters :: "(node_id \<Rightarrow> ('r, 's, 'l, 'm) multi_raft) \<Rightarrow> bool" where
  "in_process_voters c \<longleftrightarrow>
     (\<forall>n. mr_node_id (c n) = n \<and> mr_net (c n) = InProcess \<and> cfg_role (mr_config (c n)) = Voter)"

definition set_glue :: "cluster_glue \<Rightarrow> world \<Rightarrow> world" where
  "set_glue glue w = w\<lparr>wd_fabric := (wd_fabric w)\<lparr>sf_glue := glue\<rparr>\<rparr>"

lemma set_glue_simps [simp]:
  "wd_fs (set_glue glue w) = wd_fs w" "sf_glue (wd_fabric (set_glue glue w)) = glue"
  "set_glue a (set_glue b w) = set_glue a w" "set_glue (sf_glue (wd_fabric w)) w = w"
  "set_glue glue (w\<lparr>wd_fs := fs\<rparr>) = (set_glue glue w)\<lparr>wd_fs := fs\<rparr>"
  by (simp_all add: set_glue_def)

text \<open>Neither spawning nor initializing looks at the glue.\<close>

lemma ensure_group_glue:
  "ensure_group env g mr (set_glue glue w) =
     (case ensure_group env g mr w of (r, mr', w') \<Rightarrow> (r, mr', set_glue glue w'))"
  by (simp add: ensure_group_def spawn_local_group_def Let_def split: outcome.split prod.split)

lemma try_initialize_glue:
  "try_initialize env g ms mr (set_glue glue w) =
     (case try_initialize env g ms mr w of (r, mr', w') \<Rightarrow> (r, mr', set_glue glue w'))"
  by (simp add: try_initialize_def Let_def split: option.split prod.split)

lemma ensure_group_keeps:
  assumes "ensure_group env g mr w = (r, mr', w')"
  shows "mr_node_id mr' = mr_node_id mr" "mr_net mr' = mr_net mr" "mr_config mr' = mr_config mr"
    "wd_fabric w' = wd_fabric w"
  using assms
  by (auto simp: ensure_group_def spawn_local_group_def spawn_leader_watch_def Let_def
      split: if_splits outcome.splits prod.splits)

lemma try_initialize_keeps:
  assumes "try_initialize env g ms mr w = (r, mr', w')"
  shows "mr_node_id mr' = mr_node_id mr" "mr_net mr' = mr_net mr" "mr_config mr' = mr_config mr"
    "wd_fabric w' = wd_fabric w"
  using assms
  by (auto simp: try_initialize_def mr_set_raft_def Let_def split: option.splits prod.splits)

lemma create_group_steps:
  assumes "mr_net mr = InProcess" "cfg_role (mr_config mr) = Voter" "mr_node_id mr \<in> set ms"
  shows "create_group env g ms mr w =
    (case ensure_group env g mr w of
       (Ok _, mr1, w1) \<Rightarrow>
         (case claim_init g (mr_node_id mr) ms (sf_glue (wd_fabric w1)) of
            (claimed, glue') \<Rightarrow>
              if claimed then try_initialize env g ms mr1 (set_glue glue' w1) else (Ok (), mr1, set_glue glue' w1))
     | (r, mr1, w1) \<Rightarrow> (r, mr1, w1))"
proof -
  obtain r mr1 w1 where e: "ensure_group env g mr w = (r, mr1, w1)" by (metis surj_pair)
  have "(if \<not> bt_contains_key (mr_groups mr) g then spawn_local_group env g mr w else (Ok (), mr, w)) = (r, mr1, w1)"
    using e by (simp add: ensure_group_def split: if_splits)
  moreover note ensure_group_keeps [OF e]
  moreover have "ms \<noteq> []" using assms(3) by auto
  ultimately show ?thesis using assms e
    by (simp add: create_group_def Let_def set_glue_def split: outcome.split prod.split)
qed

lemma in_process_voters_upd:
  assumes "in_process_voters c" "mr_node_id mr = nid" "mr_net mr = InProcess" "mr_config mr = mr_config (c nid)"
  shows "in_process_voters (c(nid := mr))"
  using assms by (simp add: in_process_voters_def)

lemma claim_all_step:
  assumes "claim_all h cluster_glue_default = (bs, glue)" "claim_init g nid ms glue = (b, glue')"
  shows "claim_all (h @ [(g, nid, ms)]) cluster_glue_default = (bs @ [b], glue')"
    and "b \<longleftrightarrow> first_complete (h @ [(g, nid, ms)]) (length h)"
proof -
  show 1: "claim_all (h @ [(g, nid, ms)]) cluster_glue_default = (bs @ [b], glue')"
    using assms by (simp add: claim_all_snoc)
  have "length bs = length h" using claim_all_invariant(1) [OF assms(1)] .
  then show "b \<longleftrightarrow> first_complete (h @ [(g, nid, ms)]) (length h)"
    using claim_all_nth [of "length h" "h @ [(g, nid, ms)]"] 1 by (auto simp: first_complete_def nth_append)
qed

lemma create_group_ok:
  assumes "mr_net mr = InProcess" "cfg_role (mr_config mr) = Voter" "mr_node_id mr = nid" "nid \<in> set ms"
    and "ensure_group env g mr w = (Ok (), mr1, w1)" "claim_init g nid ms (sf_glue (wd_fabric w)) = (b, glue')"
    and "(if b then try_initialize env g ms mr1 w1 else (Ok (), mr1, w1)) = (r, mr2, w2)"
  shows "create_group env g ms mr w = (r, mr2, set_glue glue' w2)"
    and "mr_node_id mr2 = nid" and "mr_net mr2 = InProcess" and "mr_config mr2 = mr_config mr"
proof -
  note keep = ensure_group_keeps [OF assms(5)]
  show "create_group env g ms mr w = (r, mr2, set_glue glue' w2)"
    using create_group_steps [of mr ms env g w] assms keep(4) by (auto simp: try_initialize_glue split: if_splits)
  show "mr_node_id mr2 = nid" "mr_net mr2 = InProcess" "mr_config mr2 = mr_config mr"
    using assms(1,3,7) keep by (auto dest: try_initialize_keeps split: if_splits)
qed

lemma create_all_spec:
  assumes "in_process_voters c" "claim_all h cluster_glue_default = (bs, sf_glue (wd_fabric w))"
    and "\<forall>(g, nid, ms) \<in> set cs. nid \<in> set ms"
    and "create_all env cs c w = (rs, c', w')"
  shows "create_spec env h cs c (set_glue glue w) = (rs, c', set_glue glue w')"
  using assms
proof (induction cs arbitrary: h bs c w rs c' w')
  case Nil
  then show ?case by simp
next
  case (Cons call cs)
  obtain g nid ms where call: "call = (g, nid, ms)" by (cases call)
  obtain e mr1 w1 where e: "ensure_group env g (c nid) w = (e, mr1, w1)" by (metis surj_pair)
  note keep = ensure_group_keeps [OF e]
  have c: "mr_net (c nid) = InProcess" "cfg_role (mr_config (c nid)) = Voter" "mr_node_id (c nid) = nid" "nid \<in> set ms"
    using Cons.prems(1,3) call by (auto simp: in_process_voters_def)
  have rest: "\<forall>(g, nid, ms) \<in> set cs. nid \<in> set ms" using Cons.prems(3) by simp
  show ?case
  proof (cases "is_ok e")
    case True
    then have Ok: "e = Ok ()" by (simp add: is_ok_iff)
    obtain b glue' where b: "claim_init g nid ms (sf_glue (wd_fabric w)) = (b, glue')" by (metis surj_pair)
    note st = claim_all_step [OF Cons.prems(2) b]
    obtain r mr2 w2 where t: "(if b then try_initialize env g ms mr1 w1 else (Ok (), mr1, w1)) = (r, mr2, w2)"
      by (metis surj_pair)
    note g2 = create_group_ok(1) [OF c e [unfolded Ok] b t] and k2 = create_group_ok(2-4) [OF c e [unfolded Ok] b t]
    obtain rs2 where rs2: "create_all env cs (c(nid := mr2)) (set_glue glue' w2) = (rs2, c', w')" "rs = r # rs2"
      using Cons.prems(4) call g2 by (auto split: prod.splits)
    have "create_spec env (h @ [(g, nid, ms)]) cs (c(nid := mr2)) (set_glue glue (set_glue glue' w2)) =
        (rs2, c', set_glue glue w')"
      by (rule Cons.IH [OF in_process_voters_upd [OF Cons.prems(1) k2] _ rest rs2(1)]) (simp add: st(1))
    then show ?thesis using call e Ok t rs2(2) st(2)
      by (cases b) (auto simp: ensure_group_glue try_initialize_glue)
  next
    case False
    then have "create_group env g ms (c nid) w = (e, mr1, w1)"
      using create_group_steps [of "c nid" ms env g w] c e by (cases e) simp_all
    then obtain rs2 where rs2: "create_all env cs (c(nid := mr1)) w1 = (rs2, c', w')" "rs = e # rs2"
      using Cons.prems(4) call by (auto split: prod.splits)
    have "create_spec env h cs (c(nid := mr1)) (set_glue glue w1) = (rs2, c', set_glue glue w')"
      by (rule Cons.IH [where bs = bs, OF in_process_voters_upd [OF Cons.prems(1)] _ rest rs2(1)])
        (use keep c Cons.prems(2) in simp_all)
    then show ?thesis using call e False rs2(2) by (cases e) (simp_all add: ensure_group_glue)
  qed
qed

text \<open>
  C13. A group is initialized once. On nodes of one process that start with an empty glue,
  any sequence of \<^verbatim>\<open>create_group\<close> calls, in any order and with repetitions, returns
  the same results and leaves the same nodes and files as the reference in which a call
  hands its peer to \<^verbatim>\<open>initialize\<close> exactly when it is the first call of its group
  at which every member it names has a local peer; no other call initializes anything.
\<close>

theorem create_group_initializes_once:
  assumes "in_process_voters c" and "sf_glue (wd_fabric w) = cluster_glue_default"
    and "\<forall>(g, nid, ms) \<in> set cs. nid \<in> set ms"
  shows "create_spec env [] cs c w =
    (case create_all env cs c w of (rs, c', w') \<Rightarrow> (rs, c', set_glue cluster_glue_default w'))"
proof -
  obtain rs c' w' where run: "create_all env cs c w = (rs, c', w')" by (metis surj_pair)
  have "claim_all [] cluster_glue_default = ([], sf_glue (wd_fabric w))" using assms(2) by simp
  from create_all_spec [OF assms(1) this assms(3) run, of cluster_glue_default]
  show ?thesis using run assms(2) by (metis case_prod_conv set_glue_simps(4))
qed

lemma sample_voters [simp]: "in_process_voters sample_node"
  by (simp add: in_process_voters_def)

definition sample_calls :: "claim_call list" where
  "sample_calls = [(7, 1, [1, 2]), (7, 2, [1, 2]), (7, 1, [1, 2])]"

lemma sample_create_spec:
  "(case create_spec solo_env [] sample_calls sample_node sample_world of (rs, c', _) \<Rightarrow>
      (rs, is_leader solo_env (c' 1) 7, is_leader solo_env (c' 2) 7)) = ([Ok (), Ok (), Ok ()], False, True)"
  by (simp add: sample_calls_def ensure_group_def spawn_sample first_complete_def complete_at_def joined_def
      bt_contains_key_def bt_get_def bt_insert_def try_initialize_def mr_raft_def mr_set_raft_def set_raft_def
      solo_initialize_def sample_peer_def membership_nodes_def is_leader_def numeral_2_eq_2 less_Suc_eq
      nth_append) (rule exI [of _ 1], auto)

theorem create_group_initializes_once_witness:
  "(case create_all solo_env sample_calls sample_node sample_world of (rs, c', _) \<Rightarrow>
      (rs, is_leader solo_env (c' 1) 7, is_leader solo_env (c' 2) 7)) = ([Ok (), Ok (), Ok ()], False, True)"
proof -
  have "\<forall>(g, nid, ms) \<in> set sample_calls. nid \<in> set ms" by (simp add: sample_calls_def)
  note once = create_group_initializes_once [OF sample_voters sample_world_sel(1) this, of solo_env]
  obtain rs c' w' where run: "create_all solo_env sample_calls sample_node sample_world = (rs, c', w')"
    by (metis surj_pair)
  with once sample_create_spec show ?thesis by simp
qed

lemma create_group_after_claim:
  assumes "mr_net mr = InProcess" "cfg_role (mr_config mr) = Voter" "mr_node_id mr \<in> set ms"
    and "bt_contains_key (mr_groups mr) g" "g \<in> cg_claimed_init (sf_glue (wd_fabric w))"
  shows "\<exists>w'. create_group env g ms mr w = (Ok (), mr, w') \<and> g \<in> cg_claimed_init (sf_glue (wd_fabric w'))"
  using assms create_group_steps [OF assms(1-3), of env g w] claim_init_eq [OF HOL.refl, where nid = "mr_node_id mr" and glue = "sf_glue (wd_fabric w)" and g = g and ms = ms]
  by (auto simp: ensure_group_def)

lemma create_all_after_claim:
  assumes "in_process_voters c" "g \<in> cg_claimed_init (sf_glue (wd_fabric w))"
    and "\<forall>(h, nid, ms) \<in> set cs. h = g \<and> nid \<in> set ms \<and> bt_contains_key (mr_groups (c nid)) g"
  shows "\<exists>w'. create_all env cs c w = (replicate (length cs) (Ok ()), c, w')"
  using assms(2,3)
proof (induction cs arbitrary: w)
  case (Cons call cs)
  obtain nid ms where call: "call = (g, nid, ms)" using Cons.prems(2) by (cases call) auto
  obtain w1 where w1: "create_group env g ms (c nid) w = (Ok (), c nid, w1)" "g \<in> cg_claimed_init (sf_glue (wd_fabric w1))"
    using create_group_after_claim [of "c nid" ms g w env] assms(1) Cons.prems call
    by (auto simp: in_process_voters_def)
  obtain w2 where "create_all env cs c w1 = (replicate (length cs) (Ok ()), c, w2)"
    using Cons.IH [OF w1(2)] Cons.prems(2) by auto
  with call w1(1) show ?case by simp
qed simp

text \<open>
  C32. A failed initialization is final. When the call that claims the initialization gets an
  error from \<^verbatim>\<open>initialize\<close>, it returns that error; but from then on every sequence of
  \<^verbatim>\<open>create_group\<close> calls for the group, from any of the nodes that have a peer of it,
  reports success on every call and changes no node: nothing initializes the group again.
\<close>

theorem failed_initialize_is_final:
  assumes "in_process_voters c" and "nid \<in> set ms"
    and "ensure_group env g (c nid) w = (Ok (), mr1, w1)" and "mr_raft mr1 g = Some rg"
    and "fst (claim_init g nid ms (sf_glue (wd_fabric w)))"
    and "or_initialize (me_raft env) (membership_nodes (mr_config (c nid)) ms) rg (wd_fs w1) =
           (Err (InitializeFailed e), rg', fs')"
  shows "\<exists>mr' w'. create_group env g ms (c nid) w = (Err (Other (''initialize group: '' @ e)), mr', w') \<and>
    (\<forall>c' cs. in_process_voters c' \<longrightarrow>
       (\<forall>(h, n, members) \<in> set cs. h = g \<and> n \<in> set members \<and> bt_contains_key (mr_groups (c' n)) g) \<longrightarrow>
       (\<exists>w2. create_all env cs c' w' = (replicate (length cs) (Ok ()), c', w2)))"
proof -
  note keep = ensure_group_keeps [OF assms(3)]
  obtain glue' where cl: "claim_init g nid ms (sf_glue (wd_fabric w)) = (True, glue')"
    using assms(5) by (metis prod.collapse)
  then have glue': "g \<in> cg_claimed_init glue'"
    using claim_init_eq [OF HOL.refl, where nid = nid and glue = "sf_glue (wd_fabric w)" and g = g and ms = ms] by auto
  let ?w = "(set_glue glue' w1)\<lparr>wd_fs := fs'\<rparr>"
  have "create_group env g ms (c nid) w = (Err (Other (''initialize group: '' @ e)), mr_set_raft g rg' mr1, ?w)"
    using create_group_steps [of "c nid" ms env g w] assms(1-4,6) cl keep
    by (simp add: in_process_voters_def try_initialize_def)
  moreover have "g \<in> cg_claimed_init (sf_glue (wd_fabric ?w))" using glue' by simp
  ultimately show ?thesis using create_all_after_claim by fast
qed

definition failing_env :: "(solo, counter_fsm, counter_error, u64 \<times> node_id, node_id list, u64) mr_env" where
  "failing_env = solo_env\<lparr>me_raft := solo_raft\<lparr>or_initialize := (\<lambda>_ rg fs. (Err (InitializeFailed ''disk full''), rg, fs))\<rparr>\<rparr>"

definition sample_joined :: "node_id \<Rightarrow> (solo, counter_fsm, u64 \<times> node_id, node_id list) multi_raft" where
  "sample_joined n = (sample_node n)\<lparr>mr_groups := [(7, \<lparr>ga_node_id = n, ga_group_id = 7, ga_raft = sample_peer n 7\<rparr>)],
     mr_watchers := mr_watchers (sample_node n) @ [7]\<rparr>"

lemma sample_joined_voters: "in_process_voters sample_joined"
  by (simp add: in_process_voters_def sample_joined_def)

lemma failing_ensure: "ensure_group failing_env 7 (sample_node n) w = (Ok (), sample_joined n, w)"
  by (simp add: failing_env_def ensure_group_def bt_contains_key_def bt_get_def spawn_local_group_def group_options_def
      open_log_def solo_new_def spawn_leader_watch_def sample_peer_def sm_default_options_def sample_joined_def
      bt_insert_def raft_config_of_def Let_def)

theorem failed_initialize_is_final_witness:
  "\<exists>mr' w' w2. create_group failing_env 7 [1] (sample_node 1) sample_world =
       (Err (Other ''initialize group: disk full''), mr', w') \<and>
     create_all failing_env [(7, 1, [1]), (7, 1, [1])] sample_joined w' = ([Ok (), Ok ()], sample_joined, w2)"
proof -
  have raft: "mr_raft (sample_joined 1) 7 = Some (sample_peer 1 7)"
    by (simp add: mr_raft_def sample_joined_def bt_get_def)
  have claim: "fst (claim_init 7 1 [1] (sf_glue (wd_fabric sample_world)))"
    by (simp add: claim_init_def mark_ready_def try_claim_init_def cluster_glue_default_def)
  have init: "or_initialize (me_raft failing_env) (membership_nodes (mr_config (sample_node 1)) [1])
      (sample_peer 1 7) (wd_fs sample_world) = (Err (InitializeFailed ''disk full''), sample_peer 1 7, [])"
    by (simp add: failing_env_def)
  have "(1::node_id) \<in> set [1]" by simp
  from failed_initialize_is_final [OF sample_voters this failing_ensure raft claim init]
  obtain mr' w' where w': "create_group failing_env 7 [1] (sample_node 1) sample_world =
      (Err (Other ''initialize group: disk full''), mr', w')"
    and later: "\<And>c' cs. in_process_voters c' \<Longrightarrow>
      \<forall>(h, n, members) \<in> set cs. h = 7 \<and> n \<in> set members \<and> bt_contains_key (mr_groups (c' n)) 7 \<Longrightarrow>
      \<exists>w2. create_all failing_env cs c' w' = (replicate (length cs) (Ok ()), c', w2)"
    by auto
  have "\<forall>(h, n, members) \<in> set [(7, 1, [1]), (7, 1, [1])]. h = 7 \<and> n \<in> set members \<and>
      bt_contains_key (mr_groups (sample_joined n)) 7"
    by (simp add: sample_joined_def bt_contains_key_def bt_get_def)
  from later [OF sample_joined_voters this] w' show ?thesis by auto
qed

subsection \<open>Advertisements\<close>

text \<open>The advertisements recorded last for each key, on top of those known before.\<close>

lemma latest_ad_record_all:
  assumes "record_all os ac ads rt fs = (rt', fs')"
  shows "latest_ad (sr_ads rt') g sid =
    (case latest_ad ads g sid of Some a \<Rightarrow> Some a | None \<Rightarrow> latest_ad (sr_ads rt) g sid)"
  using assms
proof (induction ads arbitrary: rt fs)
  case Nil
  then show ?case by (simp add: latest_ad_def)
next
  case (Cons ad ads)
  obtain rt1 fs1 calls where r: "record_ad os ac ad rt fs = (rt1, fs1, calls)" by (metis surj_pair)
  then have rt1: "sr_ads rt1 = push_ad ad (sr_ads rt)" by (auto simp: record_ad_def Let_def)
  have "latest_ad (ad # ads) g sid = (case latest_ad ads g sid of Some a \<Rightarrow> Some a
      | None \<Rightarrow> if ad_group ad = g \<and> ad_snapshot_id ad = sid then Some ad else None)"
    by (simp add: latest_ad_def find_append split: option.split)
  with Cons.IH [of rt1 fs1] Cons.prems r rt1 show ?case by (simp add: latest_ad_push split: option.splits)
qed

lemma record_all_keeps:
  assumes "record_all os ac ads rt fs = (rt', fs')"
  shows "sr_data_dir rt' = sr_data_dir rt \<and> (ads_unique (sr_ads rt) \<longrightarrow> ads_unique (sr_ads rt'))"
  using assms
proof (induction ads arbitrary: rt fs)
  case (Cons ad ads)
  obtain rt1 fs1 calls where r: "record_ad os ac ad rt fs = (rt1, fs1, calls)" by (metis surj_pair)
  then have "sr_ads rt1 = push_ad ad (sr_ads rt)" "sr_data_dir rt1 = sr_data_dir rt"
    by (auto simp: record_ad_def Let_def)
  with Cons.IH [of rt1 fs1] Cons.prems r show ?case by (simp add: ads_unique_push)
qed simp

text \<open>On a healthy disk the file holds what the node knows after every record.\<close>

definition ads_on_disk :: "snapshot_advertisement list codec \<Rightarrow> snapshot_runtime \<Rightarrow> fs \<Rightarrow> bool" where
  "ads_on_disk ac rt fs \<longleftrightarrow>
     (\<exists>b. node_at fs (ads_file (sr_data_dir rt)) = Some (File b) \<and> from_slice ac b = Ok (sr_ads rt))"

definition ads_writable :: "path \<Rightarrow> fs \<Rightarrow> bool" where
  "ads_writable dir fs \<longleftrightarrow> dir \<noteq> [] \<and> is_dir fs dir \<and> node_at fs (ads_file dir) \<noteq> Some Dir"

lemma record_ad_on_disk:
  assumes "os_healthy os" "codec_ok ac" "ads_writable (sr_data_dir rt) fs"
    and "record_ad os ac ad rt fs = (rt', fs', calls)"
  shows "ads_on_disk ac rt' fs' \<and> ads_writable (sr_data_dir rt') fs' \<and>
    (\<forall>q. q \<noteq> ads_file (sr_data_dir rt) \<longrightarrow> node_at fs' q = node_at fs q)"
proof -
  let ?p = "ads_file (sr_data_dir rt)" and ?ads = "push_ad ad (sr_ads rt)"
  obtain b where b: "to_vec ac ?ads = Ok b" "from_slice ac b = Ok ?ads"
    using assms(2) by (rule codec_okE)
  have rt': "rt' = rt\<lparr>sr_ads := ?ads\<rparr>" "fs' = snd (fs_write os ?p b fs)"
    using assms(3,4) b by (auto simp: record_ad_def persist_ads_def ads_writable_def Let_def)
  have "fs' = set_node ?p (File b) fs"
    using rt'(2) assms(1,3) by (auto simp: fs_write_def ads_writable_def ads_file_def)
  then show ?thesis using rt'(1) b assms(3) by (auto simp: ads_on_disk_def ads_writable_def is_dir_def ads_file_def)
qed

lemma record_all_on_disk:
  assumes "os_healthy os" "codec_ok ac" "ads_writable (sr_data_dir rt) fs" "ads_on_disk ac rt fs \<or> ads \<noteq> []"
    and "record_all os ac ads rt fs = (rt', fs')"
  shows "ads_on_disk ac rt' fs'"
  using assms(3-)
proof (induction ads arbitrary: rt fs)
  case (Cons ad ads)
  obtain rt1 fs1 calls where r: "record_ad os ac ad rt fs = (rt1, fs1, calls)" by (metis surj_pair)
  note disk = record_ad_on_disk [OF assms(1,2) Cons.prems(1) r]
  with Cons.IH [of rt1 fs1] Cons.prems r show ?case by simp
qed simp

lemma load_ads_on_disk:
  assumes "os_healthy os" "ads_on_disk ac rt fs" "sr_data_dir rt \<noteq> []"
  shows "load_ads os ac (sr_data_dir rt) fs = sr_ads rt"
  using assms by (auto simp: load_ads_def fs_read_def ads_on_disk_def)

lemma create_snapshots_dir:
  "node_at (snd (fs_create_dir_all os (d @ [''snapshots'']) fs)) (ads_file d) = node_at fs (ads_file d)"
proof (rule withinD)
  show "within (\<lambda>q. prefix q (d @ [''snapshots'']) \<and> q \<noteq> []) (fs_create_dir_all os (d @ [''snapshots'']))"
    by (rule within_create_dir) simp
qed (auto simp: ads_file_def prefix_def append_eq_append_conv2 append_eq_Cons_conv)

text \<open>
  C33. Advertisements. Recording any sequence of advertisements keeps at most one per group
  and snapshot id; for each of them the node then knows the one recorded last, and keeps
  what it knew for the others. On a healthy disk a node that starts again on the same data
  directory knows exactly the same advertisements, in the same order.
\<close>

theorem advertisements_survive_restart:
  assumes "os_healthy os" "codec_ok ac" "ads_writable (sr_data_dir rt) fs" "ads_unique (sr_ads rt)"
    and "ads \<noteq> []" "record_all os ac ads rt fs = (rt', fs')" and "cfg_data_dir cfg = sr_data_dir rt"
  shows "ads_unique (sr_ads rt') \<and>
    latest_ad (sr_ads rt') g sid =
      (case latest_ad ads g sid of Some a \<Rightarrow> Some a | None \<Rightarrow> latest_ad (sr_ads rt) g sid) \<and>
    sr_ads (fst (snapshot_runtime_new os ac cfg fs')) = sr_ads rt'"
proof -
  note keep = record_all_keeps [OF assms(6)]
  have "ads_on_disk ac rt' fs'" using record_all_on_disk [OF assms(1-3) _ assms(6)] assms(5) by simp
  then have "ads_on_disk ac rt' (snd (snapshot_runtime_new os ac cfg fs'))"
    using assms(7) keep by (simp add: ads_on_disk_def snapshot_runtime_new_def create_snapshots_dir Let_def)
  from load_ads_on_disk [OF assms(1) this] have
    "load_ads os ac (cfg_data_dir cfg) (snd (snapshot_runtime_new os ac cfg fs')) = sr_ads rt'"
    using assms(3,7) keep by (simp add: ads_writable_def)
  then show ?thesis using keep assms(4) latest_ad_record_all [OF assms(6)]
    by (simp add: snapshot_runtime_new_def Let_def)
qed

definition sample_ad :: "string \<Rightarrow> u64 \<Rightarrow> snapshot_advertisement" where
  "sample_ad sid sz =
     \<lparr>ad_group = 7, ad_last_index = 3, ad_last_term = 1, ad_snapshot_id = sid, ad_size = sz,
      ad_sha256_hex = ''00'', ad_fetch_url = []\<rparr>"

definition sample_runtime :: snapshot_runtime where
  "sample_runtime =
     \<lparr>sr_catalog = None, sr_ads = [], sr_serialize_delay = None, sr_data_dir = [''data''],
      sr_admin_advertise_addr = None, sr_on_snapshot_ready = False\<rparr>"

theorem advertisements_survive_restart_witness:
  "\<exists>rt' fs'. record_all calm_os sample_ads_codec [sample_ad ''3-1'' 5, sample_ad ''9-1'' 6, sample_ad ''3-1'' 8]
       sample_runtime [([''data''], Dir)] = (rt', fs') \<and>
     latest_ad (sr_ads rt') 7 ''3-1'' = Some (sample_ad ''3-1'' 8) \<and>
     sr_ads (fst (snapshot_runtime_new calm_os sample_ads_codec ((sample_config 1)\<lparr>cfg_data_dir := [''data'']\<rparr>) fs')) =
       sr_ads rt'"
proof -
  let ?ads = "[sample_ad ''3-1'' 5, sample_ad ''9-1'' 6, sample_ad ''3-1'' 8]"
  obtain rt' fs' where run: "record_all calm_os sample_ads_codec ?ads sample_runtime [([''data''], Dir)] = (rt', fs')"
    by (metis surj_pair)
  have hyps: "ads_writable (sr_data_dir sample_runtime) [([''data''], Dir)]" "ads_unique (sr_ads sample_runtime)"
    "?ads \<noteq> []" "cfg_data_dir ((sample_config 1)\<lparr>cfg_data_dir := [''data'']\<rparr>) = sr_data_dir sample_runtime"
    by (simp_all add: sample_runtime_def ads_writable_def is_dir_def node_at_def ads_file_def ads_unique_def)
  from advertisements_survive_restart [OF calm_os_healthy sample_ads_codec_ok hyps(1-3) run hyps(4), of 7 "''3-1''"] run
  show ?thesis by (simp add: latest_ad_def sample_ad_def)
qed

subsection \<open>From the trigger on a standby to a voter\<close>

lemma record_ad_elsewhere:
  assumes "record_ad os ac ad rt fs = (rt', fs', calls)"
  shows "sr_ads rt' = push_ad ad (sr_ads rt)" "wf_fs fs \<Longrightarrow> wf_fs fs'"
    "q \<noteq> ads_file (sr_data_dir rt) \<Longrightarrow> node_at fs' q = node_at fs q"
proof -
  let ?p = "ads_file (sr_data_dir rt)"
  have w: "within (\<lambda>x. x = ?p) (fs_write os ?p b)" for b by (rule within_write) simp
  show "sr_ads rt' = push_ad ad (sr_ads rt)" using assms by (auto simp: record_ad_def Let_def)
  show "wf_fs fs'" if "wf_fs fs"
    using assms within_wf [OF w that] that by (auto simp: record_ad_def persist_ads_def Let_def split: outcome.splits)
  show "node_at fs' q = node_at fs q" if "q \<noteq> ?p"
    using assms withinD [OF w that] by (auto simp: record_ad_def persist_ads_def Let_def split: outcome.splits)
qed

lemma mr_raft_set_raft:
  "mr_raft mr g = Some rg \<Longrightarrow> mr_raft (mr_set_raft g rg' mr) h = (if h = g then Some rg' else mr_raft mr h)"
  by (auto simp: mr_raft_def mr_set_raft_def set_raft_def bt_get_insert)

lemma ads_file_elsewhere:
  assumes "sc_root cat = d @ [''snapshots'']" "prefix q (group_dir cat g) \<or> prefix (group_dir cat g) q"
  shows "q \<noteq> ads_file d"
proof
  assume "q = ads_file d"
  then have "prefix (d @ [''snapshot_ads.json'']) (d @ [''snapshots'', show_u64 g]) \<or>
      prefix (d @ [''snapshots'', show_u64 g]) (d @ [''snapshot_ads.json''])"
    using assms by (simp add: ads_file_def group_dir_def)
  then show False by auto
qed

lemma standby_trigger_ok:
  assumes "counter_env_ok cenv" "sx_ops (me_sm env) = counter_ops cenv"
    and "os_healthy (me_os env)" "codec_ok (cat_meta (sx_catalog (me_sm env)))"
    and "catalog_ok (sx_catalog (me_sm env)) cat g fs" "0 < unat (sc_keep cat)"
    and "none_newer (sx_catalog (me_sm env)) cat g (index, tm) fs"
    and "gaps_keep_entry (sx_catalog (me_sm env)) cat g (index, tm) gaps"
    and "sc_root cat = sr_data_dir rt @ [''snapshots'']"
    and "standby_trigger_task env gaps cat g index tm rt a fs = (rt', a', fs', calls)"
  shows "\<exists>data. counter_snapshot cenv g (sm_fsm a) = Ok data \<and>
    sr_ads rt' = push_ad (advertisement_of rt g (entry_of_meta (entry_dir cat g (index, tm))
      (new_meta (sx_catalog (me_sm env)) g (index, tm) (entry_name index tm) data))) (sr_ads rt) \<and>
    catalog_ok (sx_catalog (me_sm env)) cat g fs' \<and>
    catalog_map (sx_catalog (me_sm env)) cat g fs' (index, tm) = Some (entry_name index tm, data) \<and>
    none_newer (sx_catalog (me_sm env)) cat g (index, tm) fs'"
proof -
  let ?ce = "sx_catalog (me_sm env)"
  obtain data where d: "counter_snapshot cenv g (sm_fsm a) = Ok data"
    using counter_snapshot_total [OF assms(1)] by blast
  then have fr: "standby_freeze (me_sm env) g a = Ok data"
    by (simp add: standby_freeze_def assms(2) fsm_io_def counter_ops_def default_freeze_def)
  obtain r a1 fs1 where b: "build_standby_snapshot_async (me_os env) (me_sm env) gaps cat g index tm a fs = (r, a1, fs1)"
    by (metis prod_cases3)
  note build = standby_build_ok [OF assms(3-8) fr b]
  let ?ad = "advertisement_of rt g (entry_of_meta (entry_dir cat g (index, tm)) (new_meta ?ce g (index, tm) (entry_name index tm) data))"
  obtain rt2 fs2 calls2 where ra: "record_ad (me_os env) (me_ads env) ?ad rt fs1 = (rt2, fs2, calls2)"
    by (metis prod_cases3)
  then have same: "rt2 = rt'" "fs2 = fs'" using assms(10) b build(1) by (simp_all add: standby_trigger_task_def)
  have wf: "wf_fs fs1" using build(2) by (simp add: catalog_ok_def)
  have "node_at fs2 q = node_at fs1 q" if "prefix q (group_dir cat g) \<or> prefix (group_dir cat g) q" for q
    using record_ad_elsewhere(3) [OF ra] ads_file_elsewhere [OF assms(9) that] .
  note other = catalog_elsewhere [OF build(2) record_ad_elsewhere(2) [OF ra wf] this]
  show ?thesis
  proof (intro exI conjI)
    have "catalog_map ?ce cat g fs' = catalog_map ?ce cat g fs1" using other(2) same(2) by blast
    with build(4) show "none_newer ?ce cat g (index, tm) fs'" by (simp only: none_newer_def)
  qed (use d record_ad_elsewhere(1) [OF ra] other build(3) same in simp_all)
qed

text \<open>
  C34. A snapshot reaches a voter. A standby with a healthy disk whose catalog holds nothing
  newer, and gets nothing newer while the task runs, handles a trigger: it freezes its counter as it is when the task runs, stores the
  image under the trigger's index and term and advertises it with the size and digest of
  the image. A voter that then pulls from that catalog finds this snapshot as the latest
  one and installs it: its counter and seen keys for the group equal those the standby
  froze and its applied position is the trigger's; without a catalog of its own the pull
  reports success.
\<close>

theorem standby_snapshot_reaches_voter:
  assumes "counter_env_ok cenv" "sx_ops (me_sm env) = counter_ops cenv"
    and "os_healthy (me_os env)" "codec_ok (cat_meta (sx_catalog (me_sm env)))"
    and "catalog_ok (sx_catalog (me_sm env)) cat g fs" "0 < unat (sc_keep cat)"
    and "none_newer (sx_catalog (me_sm env)) cat g (index, tm) fs"
    and "gaps_keep_entry (sx_catalog (me_sm env)) cat g (index, tm) gaps"
    and "sc_root cat = sr_data_dir rt @ [''snapshots'']"
    and "standby_trigger_task env gaps cat g index tm rt a fs = (rt', a', fs', calls)"
    and "mr_raft mr g = Some rg" "sm_group_id (rg_inner rg) = g" "wd_fs w = fs'"
    and "try_install_from_standby_catalog env g cat mr w = (r, mr', w')"
  shows "\<exists>data ad rg'. counter_snapshot cenv g (sm_fsm a) = Ok data \<and>
    ad \<in> set (sr_ads rt') \<and> ad_group ad = g \<and> (ad_last_index ad, ad_last_term ad) = (index, tm) \<and>
    ad_size ad = of_nat (length data) \<and> ad_sha256_hex ad = hex_sha256 (sx_catalog (me_sm env)) data \<and>
    mr_raft mr' g = Some rg' \<and>
    counter_view (sm_fsm (rg_inner rg')) g = counter_view (sm_fsm a) g \<and>
    sm_last_applied_log (rg_inner rg') = Some (durable_log_id (sx_types (me_sm env)) index tm) \<and>
    (opt_catalog (rg_opts rg) = None \<longrightarrow> r = Ok ())"
proof -
  let ?ce = "sx_catalog (me_sm env)"
  obtain data where d: "counter_snapshot cenv g (sm_fsm a) = Ok data"
    and ads: "sr_ads rt' = push_ad (advertisement_of rt g (entry_of_meta (entry_dir cat g (index, tm))
        (new_meta ?ce g (index, tm) (entry_name index tm) data))) (sr_ads rt)"
    and ok: "catalog_ok ?ce cat g fs'" "catalog_map ?ce cat g fs' (index, tm) = Some (entry_name index tm, data)"
      "none_newer ?ce cat g (index, tm) fs'"
    using standby_trigger_ok [OF assms(1-10)] by blast
  obtain e where e: "catalog_latest (me_os env) ?ce cat g fs' = (Ok (Some e), fs')" "entry_key e = (index, tm)"
    "ce_snapshot_id e = entry_name index tm" "catalog_read (me_os env) ?ce cat g (entry_name index tm) fs' = (Ok (Some data), fs')"
    using newest_readable [OF assms(3) ok] by blast
  let ?meta = "\<lparr>meta_last_log_id = Some (durable_log_id (sx_types (me_sm env)) index tm),
    meta_last_membership = default_stored_membership (sx_types (me_sm env)), meta_snapshot_id = entry_name index tm\<rparr>"
  obtain f where f: "fsm_restore (counter_ops cenv) g data (sm_fsm (rg_inner rg)) = (Ok (), f)"
    "counter_view f g = counter_view (sm_fsm a) g"
    using counter.restore_snapshot [OF assms(1), of g "sm_fsm a" data "sm_fsm (rg_inner rg)"] d
    by (metis (no_types, lifting) counter_ops_def fsm_ops.select_convs(2) prod.collapse)
  have "w\<lparr>wd_fs := fs'\<rparr> = w" using assms(13) by (cases w) simp
  then have install: "try_install_from_standby_catalog env g cat mr w =
      mr_install_durable_snapshot env g index tm data mr w"
    unfolding try_install_from_standby_catalog_def assms(13) using e by (simp add: entry_key_def)
  obtain inner1 where i1: "restore_and_set (me_sm env) ?meta data (rg_inner rg) = (Ok (), inner1)"
    "sm_fsm inner1 = f" "sm_last_applied_log inner1 = meta_last_log_id ?meta"
    using f(1) assms(12) by (simp add: restore_and_set_def fsm_io_def assms(2))
  then have "mr_raft mr' g = Some (rg\<lparr>rg_inner := inner1\<rparr>)" "opt_catalog (rg_opts rg) = None \<longrightarrow> r = Ok ()"
    using assms(11,14) unfolding install mr_install_durable_snapshot_def on_raft_def
    by (auto simp: install_durable_snapshot_def Let_def store_in_catalog_def mr_raft_set_raft split: prod.splits)
  moreover have "\<exists>ad \<in> set (sr_ads rt'). ad_group ad = g \<and> (ad_last_index ad, ad_last_term ad) = (index, tm) \<and>
      ad_size ad = of_nat (length data) \<and> ad_sha256_hex ad = hex_sha256 ?ce data"
    unfolding ads set_push_ad by (simp add: advertisement_of_def entry_of_meta_def new_meta_def)
  ultimately show ?thesis using d f(2) i1(2,3) by auto
qed

theorem standby_snapshot_reaches_voter_witness:
  "\<exists>rt' a' fs' calls r mr' w' rg'.
     standby_trigger_task solo_env no_gaps (catalog_new [''data'', ''snapshots''] 2) 7 4 1 sample_runtime sample_inner [] =
       (rt', a', fs', calls) \<and>
     try_install_from_standby_catalog solo_env 7 (catalog_new [''data'', ''snapshots''] 2) (sample_joined 1)
       (sample_world\<lparr>wd_fs := fs'\<rparr>) = (r, mr', w') \<and> r = Ok () \<and>
     mr_raft mr' 7 = Some rg' \<and> sm_last_applied_log (rg_inner rg') = Some (LogId (1, 0) 4) \<and> sr_ads rt' \<noteq> []"
proof -
  let ?cat = "catalog_new [''data'', ''snapshots''] 2"
  obtain rt' a' fs' calls where t: "standby_trigger_task solo_env no_gaps ?cat 7 4 1 sample_runtime sample_inner [] =
      (rt', a', fs', calls)" by (metis prod_cases4)
  obtain r mr' w' where p: "try_install_from_standby_catalog solo_env 7 ?cat (sample_joined 1)
      (sample_world\<lparr>wd_fs := fs'\<rparr>) = (r, mr', w')" by (metis prod_cases3)
  have hyps: "sx_ops (me_sm solo_env) = counter_ops (sample_env Release)" "os_healthy (me_os solo_env)"
    "codec_ok (cat_meta (sx_catalog (me_sm solo_env)))" "0 < unat (sc_keep ?cat)"
    "sc_root ?cat = sr_data_dir sample_runtime @ [''snapshots'']" "wd_fs (sample_world\<lparr>wd_fs := fs'\<rparr>) = fs'"
    by (simp_all add: catalog_new_def sample_runtime_def max_def word_le_nat_alt)
  have nn: "none_newer (sx_catalog (me_sm solo_env)) ?cat 7 (4, 1) []"
    by (simp add: none_newer_def catalog_map_empty)
  have rg: "mr_raft (sample_joined 1) 7 = Some (sample_peer 1 7)" "sm_group_id (rg_inner (sample_peer 1 7)) = 7"
    "opt_catalog (rg_opts (sample_peer 1 7)) = None"
    by (simp_all add: mr_raft_def sample_joined_def sample_peer_def bt_get_def sm_inner_new_def sm_default_options_def)
  from standby_snapshot_reaches_voter [OF sample_env_ok hyps(1-3) catalog_ok_empty hyps(4) nn gaps_keep_entry_none hyps(5) t rg(1,2) hyps(6) p]
  obtain rg' ad where "mr_raft mr' 7 = Some rg'"
    "sm_last_applied_log (rg_inner rg') = Some (durable_log_id (sx_types (me_sm solo_env)) 4 1)"
    "r = Ok ()" "ad \<in> set (sr_ads rt')" using rg(3) by blast
  moreover have "durable_log_id (sx_types (me_sm solo_env)) 4 1 = LogId (1, 0) 4"
    by (simp add: durable_log_id_def pair_raft_types_def)
  moreover have "sr_ads rt' \<noteq> []" using calculation(4) by auto
  ultimately show ?thesis using t p by (intro exI conjI) simp_all
qed

subsection \<open>Shutting down\<close>

lemma set_raft_keys:
  assumes "bt_get m g \<noteq> None" shows "bt_contains_key (set_raft g rg m) h \<longleftrightarrow> bt_contains_key m h"
  using assms by (auto simp: set_raft_def bt_contains_key_def bt_get_insert split: option.split)

lemma shutdown_rafts_keeps:
  assumes "shutdown_rafts env rafts mr fs = (r, mr', fs')"
    and "\<And>g raft. (g, raft) \<in> set rafts \<Longrightarrow> bt_contains_key (mr_groups mr) g"
  shows "mr_net mr' = mr_net mr \<and> mr_node_id mr' = mr_node_id mr \<and>
    (\<forall>h. bt_contains_key (mr_groups mr') h \<longleftrightarrow> bt_contains_key (mr_groups mr) h)"
  using assms
proof (induction rafts arbitrary: mr fs)
  case (Cons x rafts)
  obtain g raft where x: "x = (g, raft)" by (cases x)
  obtain q raft' fs1 where q: "or_shutdown (me_raft env) raft fs = (q, raft', fs1)" by (metis prod_cases3)
  let ?mr = "mr_set_raft g raft' mr"
  have keys: "bt_contains_key (mr_groups ?mr) h \<longleftrightarrow> bt_contains_key (mr_groups mr) h" for h
    using Cons.prems(2) [of g raft] x set_raft_keys [of "mr_groups mr" g raft' h]
    by (simp add: mr_set_raft_def bt_contains_key_def)
  have same: "mr_net ?mr = mr_net mr" "mr_node_id ?mr = mr_node_id mr" by (simp_all add: mr_set_raft_def)
  show ?case
  proof (cases q)
    case (Ok u)
    with Cons.prems(1) x q have "shutdown_rafts env rafts ?mr fs1 = (r, mr', fs')" by simp
    moreover have "bt_contains_key (mr_groups ?mr) h" if "(h, rf) \<in> set rafts" for h rf
      using Cons.prems(2) [of h rf] that keys by simp
    ultimately show ?thesis using Cons.IH [of ?mr fs1] keys same by simp
  qed (use Cons.prems(1) x q keys same in auto)
qed simp

lemma shutdown_groups_mem:
  assumes "(g, raft) \<in> set (map (\<lambda>(g, app). (g, ga_raft app)) m)"
  shows "bt_contains_key m g"
  using assms by (force simp: bt_contains_key_def bt_get_def map_of_eq_None_iff)

lemma has_node_unregister: "has_node n (snd (unregister_node m rt)) \<longleftrightarrow> n \<noteq> m \<and> has_node n rt"
  by (simp add: has_node_def unregister_node_def bt_contains_key_def bt_get_remove)

lemma has_node_register: "has_node n (register_node m tx rt) \<longleftrightarrow> n = m \<or> has_node n rt"
  by (simp add: has_node_def register_node_def bt_contains_key_def bt_get_insert Let_def)

lemma start_inner_router:
  "sf_router (wd_fabric (snd (start_inner env cfg w))) =
     register_node (cfg_node_id cfg) (sf_next (wd_fabric w)) (sf_router (wd_fabric w))"
  by (simp add: start_inner_def Let_def split: prod.split)

lemma router_send_not_connected:
  assumes "\<not> has_node n (fb_router fb)" "encode cq req \<noteq> None"
  shows "router_send ne wr ro cq cp n g path req fb = (Err (Unreachable (''node '' @ show_u64 n @ '' not connected'')), fb)"
  using assms by (auto simp: router_send_def has_node_def bt_contains_key_def)

text \<open>
  C35. Shutting down. When an in-process node shuts down successfully it has no groups left,
  so every proposal to it is answered with the unknown group, and it is gone from the
  router: every call of another node to it fails as not connected, while the other nodes
  stay registered. Starting it again registers it again. When some group fails to stop,
  the node keeps all its groups and stays registered.
\<close>

theorem shutdown_unreachable:
  assumes "mr_net mr = InProcess" "shutdown env mr w = (r, mr', w')"
  shows "(r = Ok () \<longrightarrow>
      (\<forall>g data w1. fst (propose env g data mr' w1) = Err (UnknownGroup g)) \<and>
      \<not> has_node (mr_node_id mr) (sf_router (wd_fabric w')) \<and>
      (\<forall>n. n \<noteq> mr_node_id mr \<longrightarrow> has_node n (sf_router (wd_fabric w')) = has_node n (sf_router (wd_fabric w))) \<and>
      (\<forall>fb ne wr ro cq cp g path req. fb_router fb = sf_router (wd_fabric w') \<longrightarrow> encode cq req \<noteq> None \<longrightarrow>
         router_send ne wr ro cq cp (mr_node_id mr) g path req fb =
           (Err (Unreachable (''node '' @ show_u64 (mr_node_id mr) @ '' not connected'')), fb)) \<and>
      (\<forall>cfg. cfg_node_id cfg = mr_node_id mr \<longrightarrow>
         has_node (mr_node_id mr) (sf_router (wd_fabric (snd (start_inner env cfg w')))))) \<and>
    (\<not> is_ok r \<longrightarrow>
      (\<forall>g. bt_contains_key (mr_groups mr') g \<longleftrightarrow> bt_contains_key (mr_groups mr) g) \<and>
      sf_router (wd_fabric w') = sf_router (wd_fabric w))"
proof -
  obtain q mr1 fs1 where q: "shutdown_rafts env (map (\<lambda>(g, app). (g, ga_raft app)) (mr_groups mr)) mr (wd_fs w) = (q, mr1, fs1)"
    by (metis prod_cases3)
  note keep = shutdown_rafts_keeps [OF q shutdown_groups_mem]
  show ?thesis
  proof (cases q)
    case (Ok u)
    then have res: "r = Ok ()" "mr_groups mr' = []"
      "sf_router (wd_fabric w') = snd (unregister_node (mr_node_id mr) (sf_router (wd_fabric w)))"
      using assms q keep by (auto simp: shutdown_def Let_def)
    have gone: "\<not> has_node (mr_node_id mr) (sf_router (wd_fabric w'))" by (simp add: res(3) has_node_unregister)
    with res show ?thesis
      by (intro conjI impI allI)
        (simp_all add: propose_def on_raft_def mr_raft_def bt.get_empty has_node_unregister has_node_register
          start_inner_router router_send_not_connected)
  qed (use assms q keep in \<open>auto simp: shutdown_def\<close>)
qed

theorem shutdown_unreachable_witness:
  "\<exists>mr' w'. shutdown solo_env (sample_joined 1) (snd (start_inner solo_env (sample_config 1) sample_world)) = (Ok (), mr', w') \<and>
     fst (propose solo_env 7 [] mr' w') = Err (UnknownGroup 7) \<and>
     \<not> has_node 1 (sf_router (wd_fabric w')) \<and>
     has_node 1 (sf_router (wd_fabric (snd (start_inner solo_env (sample_config 1) w'))))"
proof -
  obtain r mr' w' where s: "shutdown solo_env (sample_joined 1)
      (snd (start_inner solo_env (sample_config 1) sample_world)) = (r, mr', w')" by (metis prod_cases3)
  have net: "mr_net (sample_joined 1) = InProcess" "mr_node_id (sample_joined 1) = 1" "cfg_node_id (sample_config 1) = 1"
    by (simp_all add: sample_joined_def sample_config_def)
  have "r = Ok ()" using s by (simp add: shutdown_def sample_joined_def Let_def)
  with shutdown_unreachable [OF net(1) s] net(2,3) s show ?thesis by auto
qed

subsection \<open>Watching the leader\<close>

text \<open>Each callback is told every change of leader, once and in order, and nothing else.\<close>

lemma leader_watch_changes:
  "leader_watch g seen (map (\<lambda>l. (l, cbs)) ls) =
     concat (map (\<lambda>l. map (\<lambda>cb. (cb, g, l)) cbs)
       (case seen of None \<Rightarrow> remdups_adj ls | Some l \<Rightarrow> tl (remdups_adj (l # ls))))"
proof (induction ls arbitrary: seen)
  case (Cons l ls)
  have "remdups_adj (l # ls) = l # tl (remdups_adj (l # ls))" by (cases ls) (simp_all add: remdups_adj_Cons split: list.split)
  with Cons show ?case by (auto simp: remdups_adj_Cons split: option.splits list.splits)
qed (simp split: option.split)

end
