(* ===== verification/Raft_Contract.thy ===== *)
theory Raft_Contract
  imports Multi_Raft_Props
begin

section \<open>What is relied on of openraft\<close>

text \<open>
  openraft is a parameter of the model. What the end-to-end properties of \<open>CounterFsm\<close>
  rely on is stated here over a history: the entries the group has committed, how many of
  them this peer's machine has accepted, and whether the peer has stopped after a failure
  of its store. The history is an auxiliary variable of the peer, read off its state by a
  \<open>raft_view\<close>.

  openraft works on the store only through the methods of the state machine bridge
  (\<open>store_step\<close>): it hands it the next committed entries in order, in batches of any
  size; a batch in which an entry is rejected, or whose stream breaks, leaves the store as
  the bridge leaves it and stops the peer; it builds snapshots of the running machine when
  its policy says so; and it installs snapshots that another store of the group built over
  a longer part of the log. Groups under standby offload are outside this contract: their
  snapshots come from a catalog and hold more than their label says.
\<close>

record ('l, 'm) raft_history =
  rh_committed :: "('l, 'm) entry list"
  rh_applied :: nat
  rh_stopped :: bool

definition accepted :: "('l, 'm) raft_history \<Rightarrow> ('l, 'm) entry list" where
  "accepted h = take (rh_applied h) (rh_committed h)"

subsection \<open>Stores of other peers\<close>

text \<open>
  A store of the group that was driven over the entries \<open>log\<close>, through the methods of
  the bridge only. All peers run the same machine, on disks and with options of their own.
\<close>

inductive peer_store ::
  "counter_env \<Rightarrow> group_id \<Rightarrow> ('l, 'm) entry list \<Rightarrow> (counter_fsm, 'l, 'm) sm_inner \<Rightarrow> bool" for cenv g where
  fresh: "peer_store cenv g [] (sm_inner_new rt g counter_new)"
| applied: "peer_store cenv g log a \<Longrightarrow> sx_ops (cx :: (counter_fsm, counter_error, 'l, 'm) sm_ctx) = counter_ops cenv \<Longrightarrow>
     sm_apply cx opts (map Ok (xs :: (('l, 'm) entry \<times> nat option) list)) a = (Ok (), a', sent, trig) \<Longrightarrow>
     peer_store cenv g (log @ map fst xs) a'"
| built: "peer_store cenv g log a \<Longrightarrow> sx_ops (cx :: (counter_fsm, counter_error, 'l, 'm) sm_ctx) = counter_ops cenv \<Longrightarrow>
     build_snapshot os cx opts a fs = (r, a', fs') \<Longrightarrow> peer_store cenv g log a'"
| installed: "peer_store cenv g log a \<Longrightarrow> peer_store cenv g log' b \<Longrightarrow>
     sx_ops (cx :: (counter_fsm, counter_error, 'l, 'm) sm_ctx) = counter_ops cenv \<Longrightarrow>
     sx_ops (cx' :: (counter_fsm, counter_error, 'l, 'm) sm_ctx) = counter_ops cenv \<Longrightarrow>
     opt_allow_hot_build opts \<Longrightarrow> build_snapshot os cx opts b fs = (Ok snap, b', fs') \<Longrightarrow>
     install_snapshot os' cx' opts' (snap_meta snap) (snap_data snap) a fs1 = (r, a', fs2) \<Longrightarrow>
     peer_store cenv g log' a'"

subsection \<open>The store of this peer\<close>

text \<open>
  In \<open>fails\<close> the batch is \<open>xs\<close>, which the machine accepts, then the item that it
  rejects or at which the stream breaks, then anything; the store is left as \<open>sm_apply\<close>
  leaves it. A snapshot that was restored but could not be written to the catalog stops the
  peer too (\<open>installs\<close>). What the peers have committed may grow at any time, and the peer
  may stop at any time.
\<close>

inductive store_step ::
  "('r, counter_fsm, counter_error, 'l, 'm, 'v) mr_env \<Rightarrow> counter_env \<Rightarrow> sm_options \<Rightarrow>
   ('l, 'm) raft_history \<times> (counter_fsm, 'l, 'm) sm_inner \<Rightarrow> ('l, 'm) raft_history \<times> (counter_fsm, 'l, 'm) sm_inner \<Rightarrow> bool"
  for env cenv opts where
  commits: "store_step env cenv opts (h, a) (h\<lparr>rh_committed := rh_committed h @ es\<rparr>, a)"
| stops: "store_step env cenv opts (h, a) (h\<lparr>rh_stopped := True\<rparr>, a)"
| applies: "\<not> rh_stopped h \<Longrightarrow>
     map fst (xs :: (('l, 'm) entry \<times> nat option) list) = take (length xs) (drop (rh_applied h) (rh_committed h)) \<Longrightarrow>
     sm_apply (me_sm env) opts (map Ok xs) a = (Ok (), a', sent, trig) \<Longrightarrow>
     store_step env cenv opts (h, a) (h\<lparr>rh_applied := rh_applied h + length xs\<rparr>, a')"
| fails: "\<not> rh_stopped h \<Longrightarrow>
     map fst (xs :: (('l, 'm) entry \<times> nat option) list) = take (length xs) (drop (rh_applied h) (rh_committed h)) \<Longrightarrow>
     sm_apply (me_sm env) opts (map Ok xs) a = (Ok (), a1, sent1, trig1) \<Longrightarrow>
     \<not> is_ok (fst (sm_apply (me_sm env) opts [item] a1)) \<Longrightarrow>
     sm_apply (me_sm env) opts (map Ok xs @ item # items) a = (r, a', sent, trig) \<Longrightarrow>
     store_step env cenv opts (h, a) (h\<lparr>rh_applied := rh_applied h + length xs, rh_stopped := True\<rparr>, a')"
| builds: "build_snapshot (me_os env) (me_sm env) opts a fs = (r, a', fs') \<Longrightarrow> store_step env cenv opts (h, a) (h, a')"
| installs: "\<not> rh_stopped h \<Longrightarrow> rh_applied h \<le> k \<Longrightarrow> k \<le> length (rh_committed h) \<Longrightarrow>
     peer_store cenv (sm_group_id a) (take k (rh_committed h)) b \<Longrightarrow>
     sx_ops (cx :: (counter_fsm, counter_error, 'l, 'm) sm_ctx) = counter_ops cenv \<Longrightarrow> opt_allow_hot_build bopts \<Longrightarrow>
     build_snapshot os cx bopts b fs = (Ok snap, b', fs') \<Longrightarrow>
     install_snapshot (me_os env) (me_sm env) opts (snap_meta snap) (snap_data snap) a fs1 = (r, a', fs2) \<Longrightarrow>
     store_step env cenv opts (h, a) (h\<lparr>rh_applied := k, rh_stopped := \<not> is_ok r\<rparr>, a')"

subsection \<open>The contract\<close>

text \<open>
  \<open>rv_ok\<close> singles out the states openraft can be in. A call, and whatever openraft does
  in the background, moves the peer by a run of store steps.
\<close>

record ('r, 'l, 'm) raft_view =
  rv_history :: "'r \<Rightarrow> ('l, 'm) raft_history"
  rv_ok :: "'r \<Rightarrow> bool"

abbreviation committed_log :: "('r, 'l, 'm) raft_view \<Rightarrow> ('r, 's, 'l, 'm) raft_group \<Rightarrow> ('l, 'm) entry list" where
  "committed_log v rg \<equiv> rh_committed (rv_history v (rg_core rg))"

abbreviation accepted_log :: "('r, 'l, 'm) raft_view \<Rightarrow> ('r, 's, 'l, 'm) raft_group \<Rightarrow> ('l, 'm) entry list" where
  "accepted_log v rg \<equiv> accepted (rv_history v (rg_core rg))"

definition peer_moves ::
  "('r, counter_fsm, counter_error, 'l, 'm, 'v) mr_env \<Rightarrow> counter_env \<Rightarrow> ('r, 'l, 'm) raft_view \<Rightarrow>
   ('r, counter_fsm, 'l, 'm) raft_group \<Rightarrow> ('r, counter_fsm, 'l, 'm) raft_group \<Rightarrow> bool" where
  "peer_moves env cenv v rg rg' \<longleftrightarrow>
     rg_opts rg' = rg_opts rg \<and> rv_ok v (rg_core rg') \<and>
     (store_step env cenv (rg_opts rg))\<^sup>*\<^sup>*
       (rv_history v (rg_core rg), rg_inner rg) (rv_history v (rg_core rg'), rg_inner rg')"

text \<open>
  \<^verbatim>\<open>client_write\<close> returns the log id of its entry once the entry is committed and
  this peer has applied it; \<^verbatim>\<open>ensure_linearizable\<close> succeeds once everything the
  group had committed when it was called is applied here. Whatever else they return, and
  however long they take, they only move the peer.
\<close>

definition raft_contract ::
  "('r, counter_fsm, counter_error, 'l, 'm, 'v) mr_env \<Rightarrow> counter_env \<Rightarrow> ('r, 'l, 'm) raft_view \<Rightarrow> bool" where
  "raft_contract env cenv v \<longleftrightarrow>
     (\<forall>req rg fs r rg' fs'. rv_ok v (rg_core rg) \<longrightarrow> or_client_write (me_raft env) req rg fs = (r, rg', fs') \<longrightarrow>
        peer_moves env cenv v rg rg' \<and>
        (\<forall>lid. r = Ok lid \<longrightarrow> \<lparr>ent_log_id = lid, ent_payload = Normal req\<rparr> \<in> set (accepted_log v rg'))) \<and>
     (\<forall>rg fs r rg' fs'. rv_ok v (rg_core rg) \<longrightarrow> or_ensure_linearizable (me_raft env) rg fs = (r, rg', fs') \<longrightarrow>
        peer_moves env cenv v rg rg' \<and>
        (r = Ok () \<longrightarrow> length (committed_log v rg) \<le> rh_applied (rv_history v (rg_core rg'))))"

subsection \<open>What every store step keeps\<close>

lemma build_keeps_machine:
  assumes "build_snapshot os cx opts a fs = (r, a', fs')"
  shows "sm_group_id a' = sm_group_id a" "sm_fsm a' = sm_fsm a"
  using assms
  by (auto simp: build_snapshot_def next_snapshot_idx_def Let_def split: if_splits option.splits outcome.splits prod.splits)

text \<open>The entries and the run after one more accepted batch.\<close>

lemma accepted_batch:
  assumes "map fst xs = take (length xs) (drop (rh_applied h) (rh_committed h))"
  shows "take (rh_applied h + length xs) (rh_committed h) = accepted h @ map fst xs"
    and "rh_applied h \<le> length (rh_committed h) \<Longrightarrow> rh_applied h + length xs \<le> length (rh_committed h)"
proof -
  show "take (rh_applied h + length xs) (rh_committed h) = accepted h @ map fst xs"
    unfolding assms accepted_def by (rule take_add)
  have "length xs \<le> length (rh_committed h) - rh_applied h"
    using arg_cong [OF assms, of length] by simp
  then show "rh_applied h + length xs \<le> length (rh_committed h)" if "rh_applied h \<le> length (rh_committed h)"
    using that by linarith
qed

lemma accepted_run:
  assumes "counter_env_ok cenv" "fsm_run (counter_ops cenv) g (commands log) counter_new = (Ok (), f)"
    and "counter_view m g = counter_view f g" "fsm_run (counter_ops cenv) g (commands es) m = (Ok (), m')"
  shows "\<exists>f'. fsm_run (counter_ops cenv) g (commands (log @ es)) counter_new = (Ok (), f') \<and>
    counter_view m' g = counter_view f' g"
proof -
  obtain f' where "fsm_run (counter_ops cenv) g (commands es) f = (Ok (), f')" "counter_view m' g = counter_view f' g"
    using counter.run_cong [OF assms(1,3), of "commands es"] assms(4) by (metis fst_conv prod.collapse snd_conv)
  with assms(2) show ?thesis by (simp add: fsm_run_append)
qed

lemma peer_store_replay:
  assumes "peer_store cenv g log a" "counter_env_ok cenv"
  shows "sm_group_id a = g \<and> (\<exists>f. fsm_run (counter_ops cenv) g (commands log) counter_new = (Ok (), f) \<and>
    counter_view (sm_fsm a) g = counter_view f g)"
  using assms(1)
proof induction
  case (fresh rt)
  then show ?case by (simp add: sm_inner_new_def)
next
  case (applied log a cx opts xs a' sent trig)
  then obtain f where f: "sm_group_id a = g" "fsm_run (counter_ops cenv) g (commands log) counter_new = (Ok (), f)"
    "counter_view (sm_fsm a) g = counter_view f g" by blast
  note run = sm_apply_Ok [OF applied.hyps(3)]
  have "fsm_run (counter_ops cenv) g (commands (map fst xs)) (sm_fsm a) = (Ok (), sm_fsm a')"
    using run(1) f(1) applied.hyps(2) by simp
  from accepted_run [OF assms(2) f(2,3) this] obtain f' where
    "fsm_run (counter_ops cenv) g (commands (log @ map fst xs)) counter_new = (Ok (), f')"
    "counter_view (sm_fsm a') g = counter_view f' g" by blast
  moreover have "sm_group_id a' = g" using f(1) by (subst run(2)) (simp add: batch_result_def)
  ultimately show ?case by blast
next
  case (built log a cx os opts fs r a' fs')
  then show ?case using build_keeps_machine [OF built.hyps(3)] by simp
next
  case (installed log a log' b cx cx' opts os fs snap b' fs' os' opts' fs1 r a' fs2)
  then have "sm_group_id a = sm_group_id b" by simp
  from counter.hot_snapshot_agree [OF assms(2) installed.hyps(3,4,5,6) this installed.hyps(7)] installed.IH(2)
  show ?case by (auto simp: agree_def)
qed

definition replica_ok ::
  "counter_env \<Rightarrow> group_id \<Rightarrow> ('l, 'm) raft_history \<times> (counter_fsm, 'l, 'm) sm_inner \<Rightarrow> bool" where
  "replica_ok cenv g s \<longleftrightarrow> (case s of (h, a) \<Rightarrow>
     sm_group_id a = g \<and> rh_applied h \<le> length (rh_committed h) \<and>
     (\<exists>f. fsm_run (counter_ops cenv) g (commands (accepted h)) counter_new = (Ok (), f) \<and>
          counter_value (sm_fsm a) g = counter_value f g \<and>
          (\<not> rh_stopped h \<longrightarrow> counter_view (sm_fsm a) g = counter_view f g)))"

text \<open>A command the machine does not accept leaves the value as it was.\<close>

lemma counter_rejects_value:
  assumes "counter_apply cenv g i d f = (r, f')" "\<not> is_ok r"
  shows "counter_value f' g = counter_value f g"
proof (cases "from_slice (env_cmd cenv) d")
  case (Ok c)
  then show ?thesis using counter_apply_view [OF Ok, of g i f] assms
    by (auto simp: counter_view_def split: if_splits option.splits)
qed (use assms counter_apply_failed in auto)

lemma map_err_fails: "map_err f r = Err e \<Longrightarrow> \<not> is_ok r" "map_err f r = Panicked \<Longrightarrow> \<not> is_ok r"
  by (cases r; simp)+

lemma apply_item_rejected:
  assumes "sx_ops cx = counter_ops cenv" "\<not> is_ok (fst (apply_loop cx opts [item] s))" "ap_inner t = ap_inner s"
    and "apply_loop cx opts (item # items) t = (r, t')"
  shows "\<not> is_ok r \<and> sm_group_id (ap_inner t') = sm_group_id (ap_inner s) \<and>
    counter_value (sm_fsm (ap_inner t')) (sm_group_id (ap_inner s)) = counter_value (sm_fsm (ap_inner s)) (sm_group_id (ap_inner s))"
proof (cases item)
  case (Ok x)
  obtain ent resp where x: "x = (ent, resp)" by (cases x)
  obtain p s1 where s1: "apply_payload cx opts ent s = (p, s1)" by (metis surj_pair)
  obtain q t1 where t1: "apply_payload cx opts ent t = (q, t1)" by (metis surj_pair)
  have p: "\<not> is_ok p" using assms(2) Ok x s1 by (cases p) auto
  then have rej: "\<not> is_ok q \<and> sm_group_id (ap_inner t1) = sm_group_id (ap_inner s) \<and>
      counter_value (sm_fsm (ap_inner t1)) (sm_group_id (ap_inner s)) = counter_value (sm_fsm (ap_inner s)) (sm_group_id (ap_inner s))"
    using s1 t1 assms(1,3)
    by (auto simp: apply_payload_def Let_def fsm_io_def counter_ops_def
        split: entry_payload.splits if_splits prod.splits outcome.splits dest: counter_rejects_value map_err_fails)
  then show ?thesis using assms(4) Ok x t1 by (cases q) auto
qed (use assms(3,4) in auto)

lemma sm_apply_rejected_tail:
  assumes "sx_ops cx = counter_ops cenv" "sm_apply cx opts (map Ok xs) a = (Ok (), a1, sent1, trig1)"
    and "\<not> is_ok (fst (sm_apply cx opts [item] a1))"
    and "sm_apply cx opts (map Ok xs @ item # items) a = (r, a', sent, trig)"
  shows "sm_group_id a' = sm_group_id a1 \<and>
    counter_value (sm_fsm a') (sm_group_id a1) = counter_value (sm_fsm a1) (sm_group_id a1)"
proof -
  let ?st = "\<lambda>i. \<lparr>ap_inner = i, ap_sent = [], ap_pending = []\<rparr>"
  note run = sm_apply_Ok [OF assms(2)]
  obtain t where t: "apply_loop cx opts (map Ok xs @ item # items) (?st a) = apply_loop cx opts (item # items) t"
    "ap_inner t = batch_result (map fst xs) (sm_fsm a1) a"
    using apply_loop_ok [of cx "?st a" xs "sm_fsm a1" opts "item # items"] run(1) by auto
  then have inner: "ap_inner t = ap_inner (?st a1)" using run(2) by simp
  have rej: "\<not> is_ok (fst (apply_loop cx opts [item] (?st a1)))"
    using assms(3) by (auto simp: sm_apply_def split: prod.splits outcome.splits)
  obtain q t' where t': "apply_loop cx opts (item # items) t = (q, t')" by (metis surj_pair)
  have "a' = ap_inner t'"
    using assms(4) t(1) t' by (cases q) (simp_all add: sm_apply_def)
  with apply_item_rejected [OF assms(1) rej inner t'] show ?thesis by simp
qed

lemma replica_ok_step:
  assumes "counter_env_ok cenv" "sx_ops (me_sm env) = counter_ops cenv"
    and "store_step env cenv opts s s'" "replica_ok cenv g s"
  shows "replica_ok cenv g s'"
  using assms(3,4)
proof induction
  case (commits h a es)
  then show ?case by (simp add: replica_ok_def accepted_def)
next
  case (stops h a)
  then show ?case by (auto simp: replica_ok_def accepted_def)
next
  case (applies h xs a a' sent trig)
  then obtain f where f: "sm_group_id a = g" "fsm_run (counter_ops cenv) g (commands (accepted h)) counter_new = (Ok (), f)"
    "counter_view (sm_fsm a) g = counter_view f g" by (auto simp: replica_ok_def)
  note run = sm_apply_Ok [OF applies.hyps(3)]
  note batch = accepted_batch [OF applies.hyps(2)]
  have "fsm_run (counter_ops cenv) g (commands (map fst xs)) (sm_fsm a) = (Ok (), sm_fsm a')"
    using run(1) f(1) assms(2) by simp
  from accepted_run [OF assms(1) f(2,3) this] obtain f' where
    "fsm_run (counter_ops cenv) g (commands (accepted h @ map fst xs)) counter_new = (Ok (), f')"
    "counter_view (sm_fsm a') g = counter_view f' g" by blast
  moreover have "sm_group_id a' = g" using f(1) by (subst run(2)) (simp add: batch_result_def)
  ultimately show ?case using batch applies.prems
    by (auto simp: replica_ok_def accepted_def counter_view_def)
next
  case (fails h xs a a1 sent1 trig1 item items r a' sent trig)
  then obtain f where f: "sm_group_id a = g" "fsm_run (counter_ops cenv) g (commands (accepted h)) counter_new = (Ok (), f)"
    "counter_view (sm_fsm a) g = counter_view f g" by (auto simp: replica_ok_def)
  note run = sm_apply_Ok [OF fails.hyps(3)]
  note batch = accepted_batch [OF fails.hyps(2)]
  have "fsm_run (counter_ops cenv) g (commands (map fst xs)) (sm_fsm a) = (Ok (), sm_fsm a1)"
    using run(1) f(1) assms(2) by simp
  from accepted_run [OF assms(1) f(2,3) this] obtain f' where
    "fsm_run (counter_ops cenv) g (commands (accepted h @ map fst xs)) counter_new = (Ok (), f')"
    "counter_view (sm_fsm a1) g = counter_view f' g" by blast
  moreover have "sm_group_id a1 = g" using f(1) by (subst run(2)) (simp add: batch_result_def)
  ultimately show ?case using batch fails.prems sm_apply_rejected_tail [OF assms(2) fails.hyps(3-5)]
    by (auto simp: replica_ok_def accepted_def counter_view_def)
next
  case (builds a fs r a' fs' h)
  then show ?case using build_keeps_machine [OF builds.hyps] by (simp add: replica_ok_def)
next
  case (installs h k a b cx bopts os fs snap b' fs' fs1 r a' fs2)
  then have g: "sm_group_id a = g" by (simp add: replica_ok_def)
  from peer_store_replay [OF installs.hyps(4) assms(1)] g obtain f where f: "sm_group_id b = g"
    "fsm_run (counter_ops cenv) g (commands (take k (rh_committed h))) counter_new = (Ok (), f)"
    "counter_view (sm_fsm b) g = counter_view f g" by auto
  then have "sm_group_id a = sm_group_id b" using g by simp
  from counter.hot_snapshot_agree [OF assms(1) installs.hyps(5) assms(2) installs.hyps(6,7) this installs.hyps(8)] f installs.hyps(3)
  show ?case by (auto simp: replica_ok_def accepted_def agree_def counter_view_def)
qed

lemma store_step_grows:
  assumes "store_step env cenv opts s s'" "rh_applied (fst s) \<le> length (rh_committed (fst s))"
  shows "prefix (rh_committed (fst s)) (rh_committed (fst s')) \<and> rh_applied (fst s) \<le> rh_applied (fst s')"
  using assms by induction auto

lemma accepted_prefix:
  assumes "prefix (rh_committed h) (rh_committed h')" "rh_applied h \<le> rh_applied h'"
  shows "prefix (accepted h) (accepted h')"
proof -
  obtain z where z: "rh_committed h' = rh_committed h @ z" using assms(1) by (auto elim: prefixE)
  have "prefix (take (rh_applied h) (rh_committed h)) (take (rh_applied h') (rh_committed h))"
    using assms(2) by (metis min.absorb1 take_is_prefix take_take)
  then show ?thesis unfolding accepted_def z by (simp add: prefix_prefix)
qed

lemma peer_moves_replica:
  assumes "counter_env_ok cenv" "sx_ops (me_sm env) = counter_ops cenv"
    and "peer_moves env cenv v rg rg'" "replica_ok cenv g (rv_history v (rg_core rg), rg_inner rg)"
  shows "replica_ok cenv g (rv_history v (rg_core rg'), rg_inner rg')"
    and "prefix (committed_log v rg) (committed_log v rg')"
    and "prefix (accepted_log v rg) (accepted_log v rg')"
proof -
  let ?s = "(rv_history v (rg_core rg), rg_inner rg)"
  have "replica_ok cenv g s' \<and> prefix (rh_committed (fst ?s)) (rh_committed (fst s')) \<and> rh_applied (fst ?s) \<le> rh_applied (fst s')"
    if "(store_step env cenv (rg_opts rg))\<^sup>*\<^sup>* ?s s'" for s'
    using that
  proof induction
    case (step s1 s2)
    have "rh_applied (fst s1) \<le> length (rh_committed (fst s1))" using step.IH by (cases s1) (simp add: replica_ok_def)
    from replica_ok_step [OF assms(1,2) step.hyps(2)] store_step_grows [OF step.hyps(2) this] step.IH show ?case
      by (auto intro: prefix_order.trans)
  qed (use assms(4) in simp)
  from this [of "(rv_history v (rg_core rg'), rg_inner rg')"] assms(3)
  show "replica_ok cenv g (rv_history v (rg_core rg'), rg_inner rg')" "prefix (committed_log v rg) (committed_log v rg')"
    "prefix (accepted_log v rg) (accepted_log v rg')"
    by (auto simp: peer_moves_def intro: accepted_prefix)
qed

text \<open>The value of a replica: of the accepted commands with one key only the first counts.\<close>

lemma replica_value:
  assumes "replica_ok cenv g (h, a)"
  shows "\<exists>cs. decodes cenv (commands (accepted h)) cs \<and>
    counter_value (sm_fsm a) g = sum_list (map cmd_delta (fresh_cmds {} cs))"
proof -
  obtain f where f: "fsm_run (counter_ops cenv) g (commands (accepted h)) counter_new = (Ok (), f)"
    "counter_value (sm_fsm a) g = counter_value f g" using assms by (auto simp: replica_ok_def)
  obtain cs where "decodes cenv (commands (accepted h)) cs" using accepted_decodes [OF f(1)] by blast
  with counter_run_decodes [OF this f(1)] f(2) show ?thesis by (auto simp: counted_def)
qed

lemma replica_fresh:
  "sm_group_id a = g \<Longrightarrow> sm_fsm a = counter_new \<Longrightarrow> rh_applied h = 0 \<Longrightarrow> replica_ok cenv g (h, a)"
  by (simp add: replica_ok_def accepted_def)

end
