(* ===== verification/Linear_Read.thy ===== *)
theory Linear_Read
  imports Raft_Contract
begin

section \<open>Writes and linearizable reads of a group\<close>

text \<open>
  What a client of \<^verbatim>\<open>propose\<close> and \<^verbatim>\<open>read_linearizable\<close> sees, end to end:
  through openraft (\<open>raft_contract\<close>), the state machine bridge and the counter. A
  client's session is any interleaving of its proposals and reads with background work of
  openraft on the local peer and with changes elsewhere. \<open>read_linearizable\<close> confirms
  leadership and then looks at the machine; what is applied between the two is part of the
  run that the confirmation makes, since a run of the contract may go on past the point at
  which the read is safe.
\<close>

subsection \<open>Steps of the local peer\<close>

lemma on_raft_some:
  assumes "mr_raft mr g = Some rg" "call rg (wd_fs w) = (res, rg', fs')"
  shows "on_raft call conv g mr w = (conv res, mr_set_raft g rg' mr, w\<lparr>wd_fs := fs'\<rparr>)"
    and "mr_raft (mr_set_raft g rg' mr) g = Some rg'"
  using assms by (simp_all add: on_raft_def mr_raft_set_raft)

text \<open>The peer of the group on a node, a replica of its history.\<close>

definition holds_replica ::
  "counter_env \<Rightarrow> ('r, 'l, 'm) raft_view \<Rightarrow> group_id \<Rightarrow> ('r, counter_fsm, 'l, 'm) raft_group \<Rightarrow> bool" where
  "holds_replica cenv v g rg \<longleftrightarrow> rv_ok v (rg_core rg) \<and> replica_ok cenv g (rv_history v (rg_core rg), rg_inner rg)"

text \<open>The peer has moved on: both logs have grown, and it still is a replica.\<close>

definition moved_on ::
  "counter_env \<Rightarrow> ('r, 'l, 'm) raft_view \<Rightarrow> group_id \<Rightarrow> ('r, counter_fsm, 'l, 'm) raft_group \<Rightarrow>
   ('r, counter_fsm, 'l, 'm) raft_group \<Rightarrow> bool" where
  "moved_on cenv v g rg rg' \<longleftrightarrow> holds_replica cenv v g rg' \<and>
     prefix (committed_log v rg) (committed_log v rg') \<and> prefix (accepted_log v rg) (accepted_log v rg')"

lemma moved_on_refl: "holds_replica cenv v g rg \<Longrightarrow> moved_on cenv v g rg rg"
  by (simp add: moved_on_def)

lemma moved_on_trans: "moved_on cenv v g a b \<Longrightarrow> moved_on cenv v g b c \<Longrightarrow> moved_on cenv v g a c"
  by (auto simp: moved_on_def intro: prefix_order.trans)

lemma peer_moves_on:
  assumes "counter_env_ok cenv" "sx_ops (me_sm env) = counter_ops cenv" "holds_replica cenv v g rg"
    and "peer_moves env cenv v rg rg'"
  shows "moved_on cenv v g rg rg'"
  using peer_moves_replica [OF assms(1,2,4), of g] assms(3,4) by (simp add: moved_on_def holds_replica_def peer_moves_def)

definition in_log :: "('r, 'l, 'm) raft_view \<Rightarrow> bytes \<Rightarrow> ('r, 's, 'l, 'm) raft_group \<Rightarrow> bool" where
  "in_log v d rg \<longleftrightarrow> (\<exists>lid. \<lparr>ent_log_id = lid, ent_payload = Normal \<lparr>req_data = d\<rparr>\<rparr> \<in> set (accepted_log v rg))"

lemma in_log_moved: "in_log v d rg \<Longrightarrow> moved_on cenv v g rg rg' \<Longrightarrow> in_log v d rg'"
  unfolding in_log_def moved_on_def by (metis set_mono_prefix subsetD)

lemma propose_moves:
  assumes "counter_env_ok cenv" "sx_ops (me_sm env) = counter_ops cenv" "raft_contract env cenv v"
    and "mr_raft mr g = Some rg" "holds_replica cenv v g rg" "propose env g d mr w = (r, mr', w')"
  shows "\<exists>rg'. mr_raft mr' g = Some rg' \<and> moved_on cenv v g rg rg' \<and> (is_ok r \<longrightarrow> in_log v d rg')"
proof -
  obtain q rg' fs' where q: "or_client_write (me_raft env) (request_new d) rg (wd_fs w) = (q, rg', fs')"
    by (metis prod_cases3)
  note st = on_raft_some [OF assms(4), where call = "or_client_write (me_raft env) (request_new d)" and w = w, OF q]
  have adv: "peer_moves env cenv v rg rg'"
    "\<forall>lid. q = Ok lid \<longrightarrow> \<lparr>ent_log_id = lid, ent_payload = Normal (request_new d)\<rparr> \<in> set (accepted_log v rg')"
    using assms(3,5) q unfolding raft_contract_def holds_replica_def by blast+
  have "mr_raft mr' g = Some rg'" "r = propose_result (sx_types (me_sm env)) q"
    using assms(6) st(2) by (auto simp: propose_def st(1))
  moreover have "\<exists>lid. q = Ok lid" if "is_ok r" using that calculation(2) by (cases q) auto
  ultimately show ?thesis using adv(2) peer_moves_on [OF assms(1,2,5) adv(1)]
    by (auto simp: in_log_def request_new_def)
qed

lemma read_moves:
  assumes "counter_env_ok cenv" "sx_ops (me_sm env) = counter_ops cenv" "raft_contract env cenv v"
    and "mr_raft mr g = Some rg" "holds_replica cenv v g rg" "read_linearizable env g f mr w = (r, mr', w')"
  shows "\<exists>rg'. mr_raft mr' g = Some rg' \<and> moved_on cenv v g rg rg' \<and>
    (\<forall>val. r = Ok val \<longrightarrow> val = f (sm_fsm (rg_inner rg')) \<and> prefix (committed_log v rg) (accepted_log v rg'))"
proof -
  obtain q rg' fs' where q: "or_ensure_linearizable (me_raft env) rg (wd_fs w) = (q, rg', fs')" by (metis prod_cases3)
  note st = on_raft_some [OF assms(4), where call = "or_ensure_linearizable (me_raft env)" and w = w, OF q]
  have wf: "with_fsm (mr_set_raft g rg' mr) g f = Some (f (sm_fsm (rg_inner rg')))"
    using st(2) by (auto simp: with_fsm_def mr_raft_def)
  have res: "mr' = mr_set_raft g rg' mr" "\<And>val. r = Ok val \<Longrightarrow> q = Ok () \<and> val = f (sm_fsm (rg_inner rg'))"
    using assms(6) by (cases q; simp add: read_linearizable_def st(1) wf)+
  have adv: "peer_moves env cenv v rg rg'"
    "q = Ok () \<longrightarrow> length (committed_log v rg) \<le> rh_applied (rv_history v (rg_core rg'))"
    using assms(3,5) q unfolding raft_contract_def holds_replica_def by blast+
  note moved = peer_moves_on [OF assms(1,2,5) adv(1)]
  have "prefix (committed_log v rg) (accepted_log v rg')" if "q = Ok ()"
  proof -
    obtain z where "committed_log v rg' = committed_log v rg @ z" using moved by (auto simp: moved_on_def elim: prefixE)
    with adv(2) that show ?thesis by (simp add: accepted_def)
  qed
  with res st(2) moved show ?thesis by blast
qed

text \<open>What a replica says, and what is in it.\<close>

lemma holds_replica_value:
  assumes "holds_replica cenv v g rg"
  shows "\<exists>cs. decodes cenv (commands (accepted_log v rg)) cs \<and>
    counter_value (sm_fsm (rg_inner rg)) g = sum_list (map cmd_delta (fresh_cmds {} cs))"
  using assms replica_value unfolding holds_replica_def by blast

lemma holds_replica_fresh:
  "rv_ok v (rg_core rg) \<Longrightarrow> sm_group_id (rg_inner rg) = g \<Longrightarrow> sm_fsm (rg_inner rg) = counter_new \<Longrightarrow>
   rh_applied (rv_history v (rg_core rg)) = 0 \<Longrightarrow> holds_replica cenv v g rg"
  by (simp add: holds_replica_def replica_fresh)

lemma commands_mem:
  assumes "\<lparr>ent_log_id = lid, ent_payload = Normal \<lparr>req_data = d\<rparr>\<rparr> \<in> set log" "\<not> is_standby_snapshot_trigger d"
  shows "d \<in> snd ` set (commands log)"
  using assms by (induction log) (auto simp: commands.simps(2) split: entry_payload.split)

lemma in_log_commands: "in_log v d rg \<Longrightarrow> \<not> is_standby_snapshot_trigger d \<Longrightarrow> d \<in> snd ` set (commands (accepted_log v rg))"
  unfolding in_log_def by (elim exE) (rule commands_mem)

subsection \<open>Sessions\<close>

text \<open>
  A session of a client with a node, with the proposals acknowledged so far: proposals,
  linearizable reads, background work of openraft on the local peer (replication,
  application, snapshots), and any change to the node and the world that leaves the peer
  of the group alone. Pulling a standby's snapshot into the group is not part of a session.
\<close>

inductive client_session ::
  "('r, counter_fsm, counter_error, 'l, 'm, 'v) mr_env \<Rightarrow> counter_env \<Rightarrow> ('r, 'l, 'm) raft_view \<Rightarrow> group_id \<Rightarrow>
   ('r, counter_fsm, 'l, 'm) multi_raft \<Rightarrow> world \<Rightarrow> bytes list \<Rightarrow> ('r, counter_fsm, 'l, 'm) multi_raft \<Rightarrow> world \<Rightarrow> bool"
  for env cenv v g mr0 w0 where
  begins: "client_session env cenv v g mr0 w0 [] mr0 w0"
| proposes: "client_session env cenv v g mr0 w0 acked mr w \<Longrightarrow> propose env g d mr w = (r, mr', w') \<Longrightarrow>
     client_session env cenv v g mr0 w0 (if is_ok r then d # acked else acked) mr' w'"
| reads: "client_session env cenv v g mr0 w0 acked mr w \<Longrightarrow>
     read_linearizable env g (f :: counter_fsm \<Rightarrow> i64) mr w = (r, mr', w') \<Longrightarrow> client_session env cenv v g mr0 w0 acked mr' w'"
| background: "client_session env cenv v g mr0 w0 acked mr w \<Longrightarrow> mr_raft mr g = Some rg \<Longrightarrow> peer_moves env cenv v rg rg' \<Longrightarrow>
     client_session env cenv v g mr0 w0 acked (mr_set_raft g rg' mr) w'"
| elsewhere: "client_session env cenv v g mr0 w0 acked mr w \<Longrightarrow> mr_raft mr' g = mr_raft mr g \<Longrightarrow>
     client_session env cenv v g mr0 w0 acked mr' w'"

lemma session_moves:
  assumes "counter_env_ok cenv" "sx_ops (me_sm env) = counter_ops cenv" "raft_contract env cenv v"
    and "mr_raft mr0 g = Some rg" "holds_replica cenv v g rg" "client_session env cenv v g mr0 w0 acked mr w"
  shows "\<exists>rg'. mr_raft mr g = Some rg' \<and> moved_on cenv v g rg rg' \<and> (\<forall>d \<in> set acked. in_log v d rg')"
  using assms(6)
proof induction
  case begins
  then show ?case using assms(4) moved_on_refl [OF assms(5)] by simp
next
  case (proposes acked mr w d r mr' w')
  then obtain rg1 where rg1: "mr_raft mr g = Some rg1" "moved_on cenv v g rg rg1" "\<forall>d \<in> set acked. in_log v d rg1" by blast
  have rep: "holds_replica cenv v g rg1" using rg1(2) by (simp add: moved_on_def)
  obtain rg' where rg': "mr_raft mr' g = Some rg'" "moved_on cenv v g rg1 rg'" "is_ok r \<longrightarrow> in_log v d rg'"
    using propose_moves [OF assms(1-3) rg1(1) rep proposes.hyps(2)] by blast
  then show ?case using moved_on_trans [OF rg1(2) rg'(2)] rg1(3) in_log_moved [OF _ rg'(2)] by auto
next
  case (reads acked mr w f r mr' w')
  then obtain rg1 where rg1: "mr_raft mr g = Some rg1" "moved_on cenv v g rg rg1" "\<forall>d \<in> set acked. in_log v d rg1" by blast
  have rep: "holds_replica cenv v g rg1" using rg1(2) by (simp add: moved_on_def)
  obtain rg' where rg': "mr_raft mr' g = Some rg'" "moved_on cenv v g rg1 rg'"
    using read_moves [OF assms(1-3) rg1(1) rep reads.hyps(2)] by blast
  then show ?case using moved_on_trans [OF rg1(2) rg'(2)] rg1(3) in_log_moved [OF _ rg'(2)] by auto
next
  case (background acked mr w rg1 rg' w')
  then have rg1: "moved_on cenv v g rg rg1" "\<forall>d \<in> set acked. in_log v d rg1" by auto
  have rep: "holds_replica cenv v g rg1" using rg1(1) by (simp add: moved_on_def)
  note m = peer_moves_on [OF assms(1,2) rep background.hyps(3)]
  then show ?case using moved_on_trans [OF rg1(1) m] rg1(2) in_log_moved [OF _ m] mr_raft_set_raft [OF background.hyps(2)] by auto
qed simp

text \<open>
  C1. Acknowledged writes are read, once. A node holds a peer of a group that has applied
  nothing yet, freshly created or restarted without a snapshot; the group may have
  committed entries. A client's session with it is any interleaving of proposals, some of
  which fail, reads, background work of openraft (replication, batches, snapshots built and
  installed, a batch that the machine rejects) and changes elsewhere. When a linearizable
  read then succeeds, the accepted log of the peer contains every acknowledged proposal
  (triggers apart) and everything the group had committed before the read; it decodes, and
  the value read is the sum of its deltas, where of the commands with the same idempotency
  key only the first counts. So a proposal that was retried with its key counts once,
  however often it was committed. This holds for groups without standby offload.
\<close>

theorem acknowledged_writes_read_once:
  assumes "counter_env_ok cenv" "sx_ops (me_sm env) = counter_ops cenv" "raft_contract env cenv v"
    and "mr_raft mr g = Some rg" "rv_ok v (rg_core rg)" "sm_group_id (rg_inner rg) = g"
      "sm_fsm (rg_inner rg) = counter_new" "rh_applied (rv_history v (rg_core rg)) = 0"
    and "client_session env cenv v g mr w acked mr1 w1"
    and "read_linearizable env g (\<lambda>f. counter_value f g) mr1 w1 = (Ok val, mr2, w2)"
  shows "\<exists>rg1 rg2 cs. mr_raft mr1 g = Some rg1 \<and> mr_raft mr2 g = Some rg2 \<and>
    prefix (committed_log v rg) (committed_log v rg1) \<and> prefix (committed_log v rg1) (accepted_log v rg2) \<and>
    (\<forall>d \<in> set acked. \<not> is_standby_snapshot_trigger d \<longrightarrow> d \<in> snd ` set (commands (accepted_log v rg2))) \<and>
    decodes cenv (commands (accepted_log v rg2)) cs \<and>
    val = sum_list (map cmd_delta (fresh_cmds {} cs))"
proof -
  note rep = holds_replica_fresh [OF assms(5-8)]
  obtain rg1 where rg1: "mr_raft mr1 g = Some rg1" "moved_on cenv v g rg rg1" "\<forall>d \<in> set acked. in_log v d rg1"
    using session_moves [OF assms(1-4) rep assms(9)] by blast
  have rep1: "holds_replica cenv v g rg1" using rg1(2) by (simp add: moved_on_def)
  obtain rg2 where rg2: "mr_raft mr2 g = Some rg2" "moved_on cenv v g rg1 rg2"
    "val = counter_value (sm_fsm (rg_inner rg2)) g" "prefix (committed_log v rg1) (accepted_log v rg2)"
    using read_moves [OF assms(1-3) rg1(1) rep1 assms(10)] by blast
  have "holds_replica cenv v g rg2" using rg2(2) by (simp add: moved_on_def)
  from holds_replica_value [OF this] obtain cs where "decodes cenv (commands (accepted_log v rg2)) cs"
    "val = sum_list (map cmd_delta (fresh_cmds {} cs))" using rg2(3) by blast
  moreover have "d \<in> snd ` set (commands (accepted_log v rg2))" if "d \<in> set acked" "\<not> is_standby_snapshot_trigger d" for d
    using in_log_commands [OF in_log_moved [OF _ rg2(2)] that(2)] rg1(3) that(1) by blast
  ultimately show ?thesis using rg1(1,2) rg2(1,4) unfolding moved_on_def by blast
qed

subsection \<open>A concrete group\<close>

text \<open>
  The peer that is its own leader meets the contract: its history is its log, of which the
  last entry is not accepted when the peer has stopped.
\<close>

definition solo_view :: "(solo, u64 \<times> node_id, node_id list) raft_view" where
  "solo_view =
     \<lparr>rv_history = (\<lambda>so. \<lparr>rh_committed = so_log so,
                          rh_applied = (if so_stopped so then length (so_log so) - 1 else length (so_log so)),
                          rh_stopped = so_stopped so\<rparr>),
      rv_ok = (\<lambda>so. so_stopped so \<longrightarrow> so_log so \<noteq> [])\<rparr>"

lemma solo_view_sel [simp]:
  "rh_committed (rv_history solo_view so) = so_log so" "rh_stopped (rv_history solo_view so) = so_stopped so"
  "rh_applied (rv_history solo_view so) = (if so_stopped so then length (so_log so) - 1 else length (so_log so))"
  "rv_ok solo_view so \<longleftrightarrow> (so_stopped so \<longrightarrow> so_log so \<noteq> [])"
  by (simp_all add: solo_view_def)

lemma solo_snapshot_keeps:
  assumes "solo_snapshot rg fs = (rg', fs')"
  shows "rg_core rg' = rg_core rg" "rg_opts rg' = rg_opts rg" "sm_fsm (rg_inner rg') = sm_fsm (rg_inner rg)"
    "sm_group_id (rg_inner rg') = sm_group_id (rg_inner rg)"
    "(store_step solo_env cenv (rg_opts rg))\<^sup>*\<^sup>* (h, rg_inner rg) (h, rg_inner rg')"
  using assms build_keeps_machine store_step.builds [of solo_env "rg_opts rg" "rg_inner rg" fs]
  by (fastforce simp: solo_snapshot_def split: if_splits prod.splits)+

lemma sm_apply_nothing [simp]: "sm_apply cx opts [] a = (Ok (), a, [], [])"
  by (simp add: sm_apply_def)

lemma solo_write_moves:
  assumes "rv_ok solo_view (rg_core rg)" "solo_write req rg fs = (r, rg', fs')"
  shows "peer_moves solo_env cenv solo_view rg rg' \<and>
    (\<forall>lid. r = Ok lid \<longrightarrow> \<lparr>ent_log_id = lid, ent_payload = Normal req\<rparr> \<in> set (accepted_log solo_view rg'))"
proof (cases "so_initialized (rg_core rg) \<and> \<not> so_stopped (rg_core rg)")
  case False
  then have "rg' = rg" "\<not> is_ok r" using assms(2) by (auto simp: solo_write_def split: if_splits)
  then show ?thesis using assms(1) by (auto simp: peer_moves_def)
next
  case True
  let ?ent = "solo_entry req (rg_core rg)" and ?h = "rv_history solo_view (rg_core rg)" and ?a = "rg_inner rg"
  let ?core = "(rg_core rg)\<lparr>so_log := so_log (rg_core rg) @ [?ent]\<rparr>"
  let ?h1 = "?h\<lparr>rh_committed := rh_committed ?h @ [?ent]\<rparr>"
  let ?step = "store_step solo_env cenv (rg_opts rg)"
  obtain q inner' sent trig where a: "sm_apply (sample_cx Release) (rg_opts rg) [Ok (?ent, None :: nat option)] ?a =
      (q, inner', sent, trig)" by (metis prod_cases4)
  have c: "?step (?h, ?a) (?h1, ?a)" by (rule store_step.commits)
  show ?thesis
  proof (cases "is_ok q")
    case ok: True
    then have Ok: "q = Ok ()" by (simp add: is_ok_iff)
    obtain rg2 fs2 where s: "solo_snapshot (rg\<lparr>rg_core := ?core, rg_inner := inner'\<rparr>) fs = (rg2, fs2)" by (metis surj_pair)
    have r: "r = Ok (ent_log_id ?ent)" "rg' = rg2"
      using assms(2) True a Ok s by (simp_all add: solo_write_def Let_def)
    note k = solo_snapshot_keeps [OF s]
    let ?h2 = "?h1\<lparr>rh_applied := rh_applied ?h1 + length [(?ent, None :: nat option)]\<rparr>"
    have ap: "?step (?h1, ?a) (?h2, inner')"
      using True a Ok by (intro store_step.applies [of _ "[(?ent, None)]" _ _ _ _ sent trig]) simp_all
    have h2: "?h2 = rv_history solo_view ?core" using True by (simp add: solo_view_def)
    have "?step\<^sup>*\<^sup>* (?h2, inner') (?h2, rg_inner rg2)" using k(5) by simp
    from converse_rtranclp_into_rtranclp [OF c converse_rtranclp_into_rtranclp [OF ap this]]
    have "?step\<^sup>*\<^sup>* (?h, ?a) (rv_history solo_view (rg_core rg'), rg_inner rg')"
      unfolding h2 using k(1) r(2) by simp
    then show ?thesis using k(1,2) r True
      by (simp add: peer_moves_def accepted_def solo_entry_def)
  next
    case rej: False
    have "solo_write req rg fs =
        (Err (RaftFailed ''stopped''), rg\<lparr>rg_core := ?core\<lparr>so_stopped := True\<rparr>, rg_inner := inner'\<rparr>, fs)"
      using rej True a by (cases q) (simp_all add: solo_write_def Let_def)
    then have r: "rg' = rg\<lparr>rg_core := ?core\<lparr>so_stopped := True\<rparr>, rg_inner := inner'\<rparr>" "\<not> is_ok r"
      using assms(2) by simp_all
    let ?h2 = "?h1\<lparr>rh_applied := rh_applied ?h1 + length ([] :: ((u64 \<times> node_id, node_id list) entry \<times> nat option) list), rh_stopped := True\<rparr>"
    have f: "?step (?h1, ?a) (?h2, inner')"
      using True a rej by (intro store_step.fails [of _ "[]" _ _ ?a ?a "[]" "[]" "Ok (?ent, None)" "[]" q _ sent trig]) simp_all
    have "(rv_history solo_view (rg_core rg'), rg_inner rg') = (?h2, inner')" using r(1) True by (simp add: solo_view_def)
    then have "?step\<^sup>*\<^sup>* (?h, ?a) (rv_history solo_view (rg_core rg'), rg_inner rg')"
      using c f by (simp only: converse_rtranclp_into_rtranclp r_into_rtranclp)
    then show ?thesis using r by (auto simp: peer_moves_def)
  qed
qed

lemma solo_contract: "raft_contract solo_env cenv solo_view"
  unfolding raft_contract_def
proof (intro conjI allI impI)
  fix req rg fs r rg' fs'
  assume ok: "rv_ok solo_view (rg_core rg)" and "or_client_write (me_raft solo_env) req rg fs = (r, rg', fs')"
  then have w: "solo_write req rg fs = (r, rg', fs')" by simp
  show "peer_moves solo_env cenv solo_view rg rg'"
    and "r = Ok lid \<Longrightarrow> \<lparr>ent_log_id = lid, ent_payload = Normal req\<rparr> \<in> set (accepted_log solo_view rg')" for lid
    using solo_write_moves [OF ok w, of cenv] by blast+
next
  fix rg fs r rg' fs'
  assume ok: "rv_ok solo_view (rg_core rg)" and "or_ensure_linearizable (me_raft solo_env) rg fs = (r, rg', fs')"
  then have w: "rg' = rg" "r = Ok () \<Longrightarrow> \<not> so_stopped (rg_core rg)" by (auto simp: solo_check_def split: if_splits)
  show "peer_moves solo_env cenv solo_view rg rg'" using w(1) ok by (simp add: peer_moves_def)
  show "length (committed_log solo_view rg) \<le> rh_applied (rv_history solo_view (rg_core rg'))" if "r = Ok ()"
    using w that by simp
qed

text \<open>A node that serves the group to clients, with what its counter holds.\<close>

definition solo_serves ::
  "(solo, counter_fsm, u64 \<times> node_id, node_id list) multi_raft \<Rightarrow> group_id \<Rightarrow> solo_group \<Rightarrow> i64 \<times> u64 set \<Rightarrow> bool" where
  "solo_serves mr g rg c \<longleftrightarrow>
     mr_raft mr g = Some rg \<and> so_initialized (rg_core rg) \<and> \<not> so_stopped (rg_core rg) \<and>
     sm_group_id (rg_inner rg) = g \<and> opt_allow_hot_build (rg_opts rg) \<and> counter_view (sm_fsm (rg_inner rg)) g = c"

fun counts :: "i64 \<Rightarrow> u64 \<Rightarrow> i64 \<times> u64 set \<Rightarrow> i64 \<times> u64 set" where
  "counts delta idem (v, s) = (if idem \<in> s then (v, s) else (v + delta, insert idem s))"

lemma hot_build_files:
  "build_snapshot os cx opts a fs = (r, a', fs') \<Longrightarrow> opt_allow_hot_build opts \<Longrightarrow> fs' = fs"
  by (auto simp: build_snapshot_def next_snapshot_idx_def Let_def split: option.splits outcome.splits)

lemma solo_propose:
  assumes "solo_serves mr g rg c"
  shows "\<exists>p mr' rg'. propose solo_env g (sample_add delta idem) mr w = (Ok p, mr', w) \<and>
    solo_serves mr' g rg' (counts delta idem c)"
proof -
  let ?ent = "solo_entry \<lparr>req_data = sample_add delta idem\<rparr> (rg_core rg)"
  let ?i = "lid_index (ent_log_id ?ent)"
  have rg: "mr_raft mr g = Some rg" "so_initialized (rg_core rg)" "\<not> so_stopped (rg_core rg)"
    "sm_group_id (rg_inner rg) = g" "opt_allow_hot_build (rg_opts rg)" "counter_view (sm_fsm (rg_inner rg)) g = c"
    using assms by (simp_all add: solo_serves_def)
  have cmd: "commands [?ent] = [(?i, sample_add delta idem)]"
    by (simp add: commands.simps(2) solo_entry_def sample_add_no_trigger)
  obtain a f where a: "counter_apply (sample_env Release) g ?i (sample_add delta idem) (sm_fsm (rg_inner rg)) = (a, f)"
    by (metis surj_pair)
  have f: "a = Ok apply_out_default" "counter_view f g = counts delta idem c"
    using counter_apply_view [OF decode_sample_add, of Release g ?i delta idem "sm_fsm (rg_inner rg)"] a rg(6)
    by (auto simp: counter_view_def add_i64_def split: if_splits)
  have "fsm_run (sx_ops (sample_cx Release)) (sm_group_id (rg_inner rg)) (commands (map fst [(?ent, None :: nat option)]))
      (sm_fsm (rg_inner rg)) = (Ok (), f)"
    using rg(4) a f(1) by (simp only: list.map fst_conv cmd) (simp add: counter_ops_def)
  from sm_apply_run_Ok [OF this, of "rg_opts rg"] obtain sent trig where
    ap: "sm_apply (sample_cx Release) (rg_opts rg) [Ok (?ent, None :: nat option)] (rg_inner rg) =
      (Ok (), batch_result [?ent] f (rg_inner rg), sent, trig)" by auto
  let ?rg = "rg\<lparr>rg_core := (rg_core rg)\<lparr>so_log := so_log (rg_core rg) @ [?ent]\<rparr>, rg_inner := batch_result [?ent] f (rg_inner rg)\<rparr>"
  obtain rg' fs' where s: "solo_snapshot ?rg (wd_fs w) = (rg', fs')" by (metis surj_pair)
  note k = solo_snapshot_keeps(1-4) [OF s]
  have "fs' = wd_fs w" using s rg(5) by (auto simp: solo_snapshot_def split: if_splits prod.splits dest: hot_build_files)
  then have call: "solo_write (request_new (sample_add delta idem)) rg (wd_fs w) = (Ok (ent_log_id ?ent), rg', wd_fs w)"
    using rg(2,3) ap s by (simp add: solo_write_def request_new_def Let_def)
  note st = on_raft_some [OF rg(1), where call = "solo_write (request_new (sample_add delta idem))" and w = w, OF call]
  have "propose solo_env g (sample_add delta idem) mr w =
      (propose_result pair_raft_types (Ok (ent_log_id ?ent)), mr_set_raft g rg' mr, w)"
    by (simp add: propose_def st(1))
  moreover have "solo_serves (mr_set_raft g rg' mr) g rg' (counts delta idem c)"
    using st(2) k f(2) rg by (simp add: solo_serves_def batch_result_def)
  ultimately show ?thesis by auto
qed

text \<open>A snapshot built in the background.\<close>

lemma solo_build:
  assumes "solo_serves mr g rg c"
  shows "\<exists>rg'. peer_moves solo_env cenv solo_view rg rg' \<and> solo_serves (mr_set_raft g rg' mr) g rg' c \<and>
    sm_snapshot_idx (rg_inner rg') = sm_snapshot_idx (rg_inner rg) + 1"
proof -
  obtain data where "counter_snapshot (sample_env Release) g (sm_fsm (rg_inner rg)) = Ok data"
    using counter_snapshot_total sample_env_ok by blast
  then have "\<exists>snap a'. build_snapshot calm_os (sample_cx Release) (rg_opts rg) (rg_inner rg) [] = (Ok snap, a', []) \<and>
      sm_snapshot_idx a' = sm_snapshot_idx (rg_inner rg) + 1"
    using assms by (auto simp: solo_serves_def build_snapshot_def fsm_io_def counter_ops_def default_freeze_def
        next_snapshot_idx_def add_u64_def Let_def)
  then obtain snap a' where b: "build_snapshot calm_os (sample_cx Release) (rg_opts rg) (rg_inner rg) [] = (Ok snap, a', [])"
    "sm_snapshot_idx a' = sm_snapshot_idx (rg_inner rg) + 1" by blast
  note k = build_keeps_machine [OF b(1)]
  have "store_step solo_env cenv (rg_opts rg) (rv_history solo_view (rg_core rg), rg_inner rg)
      (rv_history solo_view (rg_core rg), a')"
    by (rule store_step.builds [of solo_env, unfolded solo_env_sel]) (rule b(1))
  then have "peer_moves solo_env cenv solo_view rg (rg\<lparr>rg_inner := a'\<rparr>)"
    using assms by (simp add: peer_moves_def solo_serves_def)
  moreover have "mr_raft (mr_set_raft g (rg\<lparr>rg_inner := a'\<rparr>) mr) g = Some (rg\<lparr>rg_inner := a'\<rparr>)"
    using assms by (simp add: solo_serves_def mr_raft_set_raft [of _ _ rg])
  ultimately show ?thesis using assms k b(2) by (intro exI [of _ "rg\<lparr>rg_inner := a'\<rparr>"]) (simp add: solo_serves_def)
qed

lemma solo_read:
  assumes "solo_serves mr g rg c"
  shows "\<exists>mr'. read_linearizable solo_env g (\<lambda>f. counter_value f g) mr w = (Ok (fst c), mr', w) \<and> solo_serves mr' g rg c"
proof -
  have call: "solo_check rg (wd_fs w) = (Ok (), rg, wd_fs w)" using assms by (simp add: solo_check_def solo_serves_def)
  have rg: "mr_raft mr g = Some rg" using assms by (simp add: solo_serves_def)
  note st = on_raft_some [OF rg, where call = solo_check and w = w, OF call]
  have "with_fsm (mr_set_raft g rg mr) g (\<lambda>f. counter_value f g) = Some (fst c)"
    using st(2) assms by (auto simp: with_fsm_def mr_raft_def counter_view_def solo_serves_def)
  then have "read_linearizable solo_env g (\<lambda>f. counter_value f g) mr w = (Ok (fst c), mr_set_raft g rg mr, w)"
    by (simp add: read_linearizable_def st(1))
  with st(2) assms show ?thesis by (auto simp: solo_serves_def)
qed

definition sample_leader :: "(solo, counter_fsm, u64 \<times> node_id, node_id list) multi_raft" where
  "sample_leader = fst (snd (create_group solo_env 7 [1] (sample_node 1) sample_world))"

definition sample_leader_group :: solo_group where
  "sample_leader_group = (sample_peer 1 7)\<lparr>rg_core :=
     \<lparr>so_node = 1, so_initialized = True, so_stopped = False, so_policy = LogsSinceLast 5000, so_log = []\<rparr>\<rparr>"

lemma sample_leader_raft: "mr_raft sample_leader 7 = Some sample_leader_group"
proof -
  have "bt_contains_key (mr_groups (sample_node 1)) 7 = False" by (simp add: bt_contains_key_def bt_get_def)
  then show ?thesis
    by (simp add: sample_leader_def create_group_def spawn_sample claim_init_def mark_ready_def try_claim_init_def
        cluster_glue_default_def try_initialize_def mr_raft_def mr_set_raft_def set_raft_def bt_get_insert
        solo_initialize_def sample_peer_def membership_nodes_def bt_insert_def Let_def bt_get_def sample_leader_group_def)
qed

lemma sample_leader_fresh:
  "rv_ok solo_view (rg_core sample_leader_group)" "sm_group_id (rg_inner sample_leader_group) = 7"
  "sm_fsm (rg_inner sample_leader_group) = counter_new" "rh_applied (rv_history solo_view (rg_core sample_leader_group)) = 0"
  "solo_serves sample_leader 7 sample_leader_group (0, {})"
  by (simp_all add: solo_serves_def sample_leader_raft)
    (simp_all add: sample_leader_group_def sample_peer_def sm_inner_new_def sm_default_options_def counter_view_def)

theorem acknowledged_writes_read_once_witness:
  "\<exists>mr1 w1 mr2 w2 rg2 cs.
     client_session solo_env (sample_env Release) solo_view 7 sample_leader sample_world
       [sample_add 5 43, sample_add 10 42, sample_add 10 42] mr1 w1 \<and>
     read_linearizable solo_env 7 (\<lambda>f. counter_value f 7) mr1 w1 = (Ok 15, mr2, w2) \<and>
     mr_raft mr2 7 = Some rg2 \<and> sample_add 10 42 \<in> snd ` set (commands (accepted_log solo_view rg2)) \<and>
     decodes (sample_env Release) (commands (accepted_log solo_view rg2)) cs \<and>
     15 = sum_list (map cmd_delta (fresh_cmds {} cs))"
proof -
  let ?w = sample_world and ?s = "client_session solo_env (sample_env Release) solo_view 7 sample_leader sample_world"
  obtain p1 m1 r1 where s1: "propose solo_env 7 (sample_add 10 42) sample_leader ?w = (Ok p1, m1, ?w)"
    "solo_serves m1 7 r1 (10, {42})"
    using solo_propose [OF sample_leader_fresh(5), of 10 42 ?w] by auto
  obtain r2 where s2: "peer_moves solo_env (sample_env Release) solo_view r1 r2" "solo_serves (mr_set_raft 7 r2 m1) 7 r2 (10, {42})"
    using solo_build [OF s1(2)] by blast
  obtain p3 m3 r3 where s3: "propose solo_env 7 (sample_add 10 42) (mr_set_raft 7 r2 m1) ?w = (Ok p3, m3, ?w)"
    "solo_serves m3 7 r3 (10, {42})"
    using solo_propose [OF s2(2), of 10 42 ?w] by auto
  obtain p4 m4 r4 where s4: "propose solo_env 7 (sample_add 5 43) m3 ?w = (Ok p4, m4, ?w)"
    "solo_serves m4 7 r4 (15, {43, 42})"
    using solo_propose [OF s3(2), of 5 43 ?w] by auto
  obtain m5 where s5: "read_linearizable solo_env 7 (\<lambda>f. counter_value f 7) m4 ?w = (Ok 15, m5, ?w)"
    using solo_read [OF s4(2)] by auto
  have "?s [sample_add 10 42] m1 ?w"
    using client_session.proposes [OF client_session.begins s1(1)] by simp
  then have "?s [sample_add 10 42] (mr_set_raft 7 r2 m1) ?w"
    by (rule client_session.background [OF _ _ s2(1)]) (use s1(2) in \<open>simp add: solo_serves_def\<close>)
  from client_session.proposes [OF client_session.proposes [OF this s3(1)] s4(1)]
  have session: "?s [sample_add 5 43, sample_add 10 42, sample_add 10 42] m4 ?w" by simp
  have ops: "sx_ops (me_sm solo_env) = counter_ops (sample_env Release)" by simp
  from acknowledged_writes_read_once [OF sample_env_ok ops solo_contract sample_leader_raft sample_leader_fresh(1-4) session s5]
  obtain rg2 cs where "mr_raft m5 7 = Some rg2" "sample_add 10 42 \<in> snd ` set (commands (accepted_log solo_view rg2))"
    "decodes (sample_env Release) (commands (accepted_log solo_view rg2)) cs" "15 = sum_list (map cmd_delta (fresh_cmds {} cs))"
    using sample_add_no_trigger by auto
  with session s5 show ?thesis by blast
qed

end
