(* ===== verification/Demo_Props.thy ===== *)
theory Demo_Props
  imports Demo Linear_Read
begin

unbundle bit_operations_syntax

section \<open>Properties of the demo\<close>

text \<open>
  Idempotency keys, waiting for leaders, and ports.
\<close>

subsection \<open>Idempotency keys\<close>

fun idem_keys :: "nat \<Rightarrow> ('r, 'l, 'm) demo_state \<Rightarrow> u64 list" where
  "idem_keys 0 st = []"
| "idem_keys (Suc k) st = (case next_idem st of (key, st') \<Rightarrow> key # idem_keys k st')"

definition idem_key :: "u64 \<Rightarrow> u64 \<Rightarrow> u64" where
  "idem_key base local = base OR take_bit 32 local"

lemma next_idem_key: "next_idem st = (idem_key (ds_node_id_base st) (ds_idem st), st\<lparr>ds_idem := ds_idem st + 1\<rparr>)"
proof -
  have "(0xffffffff :: u64) = mask 32" by (simp add: mask_eq_exp_minus_1)
  then show ?thesis by (simp add: next_idem_def idem_key_def take_bit_eq_mask Let_def del: mask_numeral)
qed

lemma idem_keys_nth:
  "idem_keys k st = map (\<lambda>i. idem_key (ds_node_id_base st) (ds_idem st + of_nat i)) [0..<k]"
proof (induction k arbitrary: st)
  case (Suc k)
  have "[0..<Suc k] = 0 # map Suc [0..<k]" by (simp add: upt_conv_Cons map_Suc_upt del: upt_Suc)
  with Suc show ?case by (simp add: next_idem_key comp_def add.assoc del: upt_Suc)
qed simp

lemma idem_key_parts:
  "drop_bit 32 (idem_key (push_bit 32 nid) local) = take_bit 32 nid"
  "take_bit 32 (idem_key (push_bit 32 nid) local) = take_bit 32 local"
  by (rule bit_word_eqI; auto simp: idem_key_def bit_simps)+

lemma take_bit_counter_inj:
  assumes "i < 2 ^ 32" "j < 2 ^ 32" "take_bit 32 (1 + of_nat i :: u64) = take_bit 32 (1 + of_nat j)"
  shows "i = j"
proof -
  have "unat (take_bit 32 (1 + of_nat m :: u64)) = Suc m mod 2 ^ 32" if "m < 2 ^ 32" for m
  proof -
    have "unat (of_nat (Suc m) :: u64) = Suc m" using that by (simp add: unat_of_nat take_bit_nat_eq_self del: of_nat_Suc)
    then show ?thesis unfolding unsigned_take_bit_eq by (simp add: take_bit_nat_def)
  qed
  with assms have "Suc i mod 2 ^ 32 = Suc j mod (2 ^ 32 :: nat)" by metis
  then show ?thesis using assms(1,2) by (cases "Suc i = 2 ^ 32"; cases "Suc j = 2 ^ 32"; simp)
qed

lemma idem_keys_distinct:
  assumes "ds_node_id_base st = push_bit 32 nid" "ds_idem st = 1" "k \<le> 2 ^ 32"
  shows "distinct (idem_keys k st)"
proof -
  let ?key = "\<lambda>i. idem_key (push_bit 32 nid) (1 + of_nat i)"
  have "inj_on ?key {0..<k}"
  proof (rule inj_onI)
    fix i l :: nat assume h: "i \<in> {0..<k}" "l \<in> {0..<k}" "?key i = ?key l"
    have "take_bit 32 (1 + of_nat i :: u64) = take_bit 32 (1 + of_nat l)"
      using arg_cong [OF h(3), of "take_bit 32"] unfolding idem_key_parts .
    moreover have "i < 2 ^ 32" "l < 2 ^ 32" using h(1,2) assms(3) by auto
    ultimately show "i = l" by (intro take_bit_counter_inj)
  qed
  then show ?thesis unfolding idem_keys_nth assms(1,2) distinct_map set_upt by (simp only: distinct_upt simp_thms)
qed

text \<open>
  C37. Idempotency keys are unique, within bounds. Two node processes with different ids
  below 2 to the 32 never draw the same key, however long they run. One process draws
  distinct keys for 2 to the 32 draws; the next draw repeats its first key.
\<close>

theorem idem_keys_unique:
  assumes "unat a < 2 ^ 32" "unat b < 2 ^ 32" "a \<noteq> b"
  shows "set (idem_keys j (node_state args a n)) \<inter> set (idem_keys k (node_state args' b m)) = {} \<and>
    distinct (idem_keys (2 ^ 32) (node_state args a n)) \<and>
    idem_keys (Suc (2 ^ 32)) (node_state args a n) ! (2 ^ 32) = hd (idem_keys 1 (node_state args a n))"
proof -
  let ?key = "\<lambda>nid i. idem_key (push_bit 32 nid) (1 + of_nat i)"
  have keys: "idem_keys l (node_state x nid y) = map (?key nid) [0..<l]" for l x nid and y :: "('x, counter_fsm, 'y, 'z) multi_raft"
    by (simp add: idem_keys_nth node_state_def)
  have small: "take_bit 32 nid = nid" if "unat nid < 2 ^ 32" for nid :: u64
    by (metis that take_bit_nat_eq_self unsigned_take_bit_eq unsigned_word_eqI)
  have "?key a i \<noteq> ?key b l" for i l
    using idem_key_parts(1) [of a "1 + of_nat i"] idem_key_parts(1) [of b "1 + of_nat l"] small assms by metis
  then have "set (map (?key a) [0..<j]) \<inter> set (map (?key b) [0..<k]) = {}" by auto
  moreover have "distinct (map (?key a) [0..<2 ^ 32])"
    unfolding keys [symmetric, where x = args and y = n]
    by (rule idem_keys_distinct) (simp_all only: node_state_def demo_state.select_convs order_refl)
  moreover have "?key a (2 ^ 32) = ?key a 0"
  proof -
    have "take_bit 32 (1 + of_nat (2 ^ 32) :: u64) = take_bit 32 1" by (simp add: take_bit_eq_mod)
    then show ?thesis by (simp add: idem_key_def)
  qed
  moreover have "map (?key a) [0..<Suc (2 ^ 32)] ! (2 ^ 32) = ?key a (2 ^ 32)"
    by (simp only: nth_map length_upt nth_upt lessI add_0 diff_zero)
  moreover have "hd (map (?key a) [0..<1]) = ?key a 0" by simp
  ultimately show ?thesis unfolding keys by (simp only: conj_assoc simp_thms)
qed

theorem idem_keys_unique_witness:
  "set (idem_keys 3 (node_state args_default 1 (sample_node 1))) \<inter>
     set (idem_keys 3 (node_state args_default 2 (sample_node 2))) = {} \<and>
   distinct (idem_keys (2 ^ 32) (node_state args_default 1 (sample_node 1)))"
  using idem_keys_unique [of 1 2 3 args_default "sample_node 1" 3 args_default "sample_node 2"] by simp

text \<open>
  C38. A restarted process repeats its keys. The counter behind the keys starts at 1
  again and the high bits are the node id, so a process that is restarted under its id
  draws the keys of its former run. When the first \<open>k\<close> of them are in the log of a group,
  the next \<open>j \<le> k\<close> increments of the new process are committed and acknowledged, but
  leave value and seen keys of the group as they are.
\<close>

theorem restart_drops_increments:
  assumes "counter_env_ok env" "encoded env xs cs" "encoded env ys ds"
    and "set (idem_keys k (node_state a nid n)) \<subseteq> cmd_idem ` set cs"
    and "map cmd_idem ds = idem_keys j (node_state a' nid n')" "j \<le> k"
    and "fsm_run (counter_ops env) g xs f = (Ok (), f1)"
  shows "fst (fsm_run (counter_ops env) g ys f1) = Ok () \<and>
    counter_view (snd (fsm_run (counter_ops env) g ys f1)) g = counter_view f1 g"
proof -
  have keys: "idem_keys l (node_state x nid y) = map (\<lambda>i. idem_key (push_bit 32 nid) (1 + of_nat i)) [0..<l]"
    for l x and y :: "('x, counter_fsm, 'y, 'z) multi_raft"
    by (simp add: idem_keys_nth node_state_def)
  have sub: "set (idem_keys j (node_state a' nid n')) \<subseteq> set (idem_keys k (node_state a nid n))"
    unfolding keys set_map set_upt using assms(6) by (intro image_mono) auto
  have "cmd_idem ` set ds = set (idem_keys j (node_state a' nid n'))" unfolding assms(5) [symmetric] set_map ..
  then have "cmd_idem ` set ds \<subseteq> cmd_idem ` set cs" using sub assms(4) by blast
  moreover have "counter_seen f1 g = counter_seen f g \<union> cmd_idem ` set cs"
    using counter_run_cases [OF assms(1,2), of g f] assms(7) by (simp add: counter_view_def)
  ultimately have "cmd_idem ` set ds \<subseteq> counter_seen f1 g" by (simp add: le_supI2)
  then show ?thesis by (rule counter_run_seen [OF assms(1,3)])
qed

theorem restart_drops_increments_witness:
  "\<exists>f1 key1 key2. fsm_run (counter_ops (sample_env Debug)) 1 [(1, sample_add 10 key1), (2, sample_add 5 key2)] counter_new = (Ok (), f1) \<and>
     counter_value f1 1 = 15 \<and>
     counter_value (snd (fsm_run (counter_ops (sample_env Debug)) 1 [(3, sample_add 7 key1)] f1)) 1 = 15"
proof -
  let ?keys = "idem_keys 2 (node_state args_default 1 (sample_node 1))"
  have keys: "?keys = [2 ^ 32 + 1, 2 ^ 32 + 2]" "idem_keys 1 (node_state args_default 1 (sample_node 1)) = [2 ^ 32 + 1]"
    by (simp_all add: idem_keys_nth idem_key_def node_state_def upt_rec)
  let ?xs = "[(1, sample_add 10 (2 ^ 32 + 1)), (2, sample_add 5 (2 ^ 32 + 2))]"
  obtain f1 where run: "fsm_run (counter_ops (sample_env Debug)) 1 ?xs counter_new = (Ok (), f1)" "counter_value f1 1 = 15"
    by (simp add: counter_ops_def counter_apply_def add_i64_def counter_value_def counter_seen_def counter_new_def)
  have enc: "encoded (sample_env Debug) ?xs [\<lparr>cmd_idem = 2 ^ 32 + 1, cmd_delta = 10\<rparr>, \<lparr>cmd_idem = 2 ^ 32 + 2, cmd_delta = 5\<rparr>]"
    "encoded (sample_env Debug) [(3, sample_add 7 (2 ^ 32 + 1))] [\<lparr>cmd_idem = 2 ^ 32 + 1, cmd_delta = 7\<rparr>]"
    by (simp_all add: encoded_Cons)
  have old: "set ?keys \<subseteq> cmd_idem ` set [\<lparr>cmd_idem = 2 ^ 32 + 1, cmd_delta = 10\<rparr>, \<lparr>cmd_idem = 2 ^ 32 + 2, cmd_delta = 5\<rparr>]"
    unfolding keys by simp
  have again: "map cmd_idem [\<lparr>cmd_idem = 2 ^ 32 + 1, cmd_delta = 7\<rparr>] = idem_keys 1 (node_state args_default 1 (sample_node 1))"
    unfolding keys by simp
  have "counter_view (snd (fsm_run (counter_ops (sample_env Debug)) 1 [(3, sample_add 7 (2 ^ 32 + 1))] f1)) 1 = counter_view f1 1"
    using restart_drops_increments [OF sample_env_ok enc old again _ run(1)] by (simp only: one_le_numeral simp_thms)
  then have "counter_value (snd (fsm_run (counter_ops (sample_env Debug)) 1 [(3, sample_add 7 (2 ^ 32 + 1))] f1)) 1 = 15"
    using run(2) by (simp only: counter_view_def prod.inject)
  with run show ?thesis by blast
qed

subsection \<open>Waiting for leaders\<close>

lemma wait_group_ends:
  assumes "late T" "t \<le> T" "T - t < fuel"
  shows "\<exists>e. t \<le> e \<and> e \<le> T \<and>
    (wait_group fuel seen late gid t = Some (Ok e) \<and> seen e gid \<noteq> None \<or>
     wait_group fuel seen late gid t = Some (Err gid) \<and> late e \<and> (\<forall>u\<in>{t..e}. seen u gid = None))"
  using assms(2,3)
proof (induction fuel arbitrary: t)
  case (Suc fuel)
  show ?case
  proof (cases "seen t gid \<noteq> None \<or> late t")
    case True
    then show ?thesis using Suc.prems by (intro exI [of _ t]) auto
  next
    case False
    with assms(1) Suc.prems have "t < T" by (metis order_le_less)
    then have "Suc t \<le> T" "T - Suc t < fuel" using Suc.prems by auto
    from Suc.IH [OF this] obtain e where e: "Suc t \<le> e" "e \<le> T"
      "wait_group fuel seen late gid (Suc t) = Some (Ok e) \<and> seen e gid \<noteq> None \<or>
       wait_group fuel seen late gid (Suc t) = Some (Err gid) \<and> late e \<and> (\<forall>u\<in>{Suc t..e}. seen u gid = None)"
      by blast
    have "{t..e} = insert t {Suc t..e}" using e(1) by auto
    with False e show ?thesis by (intro exI [of _ e]) auto
  qed
qed simp

lemma wait_local_ends:
  assumes "late T" "t \<le> T" "T - t < fuel"
  shows "(\<exists>e. wait_local_sees_leaders fuel seen late gids t = Some (Ok e) \<and> t \<le> e \<and> e \<le> T \<and>
       (\<forall>g\<in>set gids. \<exists>u\<in>{t..e}. seen u g \<noteq> None)) \<or>
    (\<exists>g s e. wait_local_sees_leaders fuel seen late gids t = Some (Err g) \<and> g \<in> set gids \<and>
       t \<le> s \<and> s \<le> e \<and> e \<le> T \<and> late e \<and> (\<forall>u\<in>{s..e}. seen u g = None))"
  using assms(2,3)
proof (induction gids arbitrary: t)
  case (Cons gid gids)
  obtain e where e: "t \<le> e" "e \<le> T" "wait_group fuel seen late gid t = Some (Ok e) \<and> seen e gid \<noteq> None \<or>
     wait_group fuel seen late gid t = Some (Err gid) \<and> late e \<and> (\<forall>u\<in>{t..e}. seen u gid = None)"
    using wait_group_ends [of late, OF assms(1) Cons.prems] by blast
  show ?case
  proof (cases "wait_group fuel seen late gid t = Some (Ok e)")
    case True
    then have ok: "seen e gid \<noteq> None" using e(3) by auto
    have "e \<le> T" "T - e < fuel" using e(1,2) Cons.prems(2) by auto
    from Cons.IH [OF this] show ?thesis
    proof (elim disjE exE conjE)
      fix e' assume i: "wait_local_sees_leaders fuel seen late gids e = Some (Ok e')" "e \<le> e'" "e' \<le> T"
        "\<forall>g\<in>set gids. \<exists>u\<in>{e..e'}. seen u g \<noteq> None"
      have "\<exists>u\<in>{t..e'}. seen u g \<noteq> None" if "g \<in> set (gid # gids)" for g
      proof (cases "g = gid")
        case True
        with ok e(1) i(2) show ?thesis by (intro bexI [of _ e]) auto
      next
        case False
        with that i(4) obtain u where "u \<in> {e..e'}" "seen u g \<noteq> None" by auto
        with e(1) show ?thesis by (intro bexI [of _ u]) auto
      qed
      with True i e(1) show ?thesis by simp
    next
      fix g s e' assume "wait_local_sees_leaders fuel seen late gids e = Some (Err g)" "g \<in> set gids"
        "e \<le> s" "s \<le> e'" "e' \<le> T" "late e'" "\<forall>u\<in>{s..e'}. seen u g = None"
      with True e(1) show ?thesis by (intro disjI2 exI [of _ g] exI [of _ s] exI [of _ e']) simp
    qed
  next
    case False
    then show ?thesis using e by (intro disjI2 exI [of _ gid] exI [of _ t] exI [of _ e]) auto
  qed
qed simp

text \<open>
  C39. Waiting for leaders ends. With the deadline passed at tick \<open>T\<close>, the wait of a
  voter returns within \<open>T\<close> ticks. When it succeeds, a leader was seen for every group; when
  it fails, it names a group for which none was seen at a tick after the deadline. And it does succeed when from some tick before the deadline on every group has
  a leader.
\<close>

theorem wait_local_sees_leaders_ends:
  assumes "late T" "T < fuel"
  shows "\<exists>r. wait_local_sees_leaders fuel seen late gids 0 = Some r \<and> r \<noteq> Panicked \<and>
    (\<forall>e. r = Ok e \<longrightarrow> e \<le> T \<and> (\<forall>g\<in>set gids. \<exists>u\<le>e. seen u g \<noteq> None)) \<and>
    (\<forall>g. r = Err g \<longrightarrow> g \<in> set gids \<and> (\<exists>s e. s \<le> e \<and> e \<le> T \<and> late e \<and> (\<forall>u\<in>{s..e}. seen u g = None))) \<and>
    (\<forall>s. (\<forall>u < s. \<not> late u) \<and> (\<forall>u\<ge>s. \<forall>g\<in>set gids. seen u g \<noteq> None) \<longrightarrow> is_ok r)"
proof -
  have "T - 0 < fuel" using assms(2) by simp
  from wait_local_ends [of late, OF assms(1) le0 this, of seen gids] show ?thesis
  proof (elim disjE exE conjE)
    fix e assume "wait_local_sees_leaders fuel seen late gids 0 = Some (Ok e)" "e \<le> T"
      "\<forall>g\<in>set gids. \<exists>u\<in>{0..e}. seen u g \<noteq> None"
    then show ?thesis by (intro exI [of _ "Ok e"]) (simp add: Bex_def atMost_iff; blast)
  next
    fix g s e assume i: "wait_local_sees_leaders fuel seen late gids 0 = Some (Err g)" "g \<in> set gids"
      "s \<le> e" "e \<le> T" "late e" "\<forall>u\<in>{s..e}. seen u g = None"
    have "\<not> ((\<forall>u < s0. \<not> late u) \<and> (\<forall>u\<ge>s0. \<forall>g\<in>set gids. seen u g \<noteq> None))" for s0
      using i by (meson atLeastAtMost_iff linorder_not_less order_refl)
    with i show ?thesis by (intro exI [of _ "Err g"]) auto
  qed
qed

theorem wait_local_sees_leaders_ends_witness:
  "wait_local_sees_leaders 301 (\<lambda>t g. if t < 5 then None else Some 1) (\<lambda>t. 300 \<le> t) [0, 1] 0 = Some (Ok 5) \<and>
   (\<exists>r. wait_local_sees_leaders 301 (\<lambda>t g. if t < 5 then None else Some 1) (\<lambda>t. 300 \<le> t) [0, 1] 0 = Some r \<and> is_ok r)"
proof
  show "wait_local_sees_leaders 301 (\<lambda>t g. if t < 5 then None else Some 1) (\<lambda>t. 300 \<le> t) [0, 1] 0 = Some (Ok 5)"
    by (simp add: numeral_eq_Suc)
  have "300 \<le> (300 :: nat)" "300 < (301 :: nat)" by simp_all
  from wait_local_sees_leaders_ends [of "\<lambda>t. 300 \<le> t", OF this, of "\<lambda>t g. if t < 5 then None else Some 1" "[0, 1]"]
  obtain r where r: "wait_local_sees_leaders 301 (\<lambda>t g. if t < 5 then None else Some 1) (\<lambda>t. 300 \<le> t) [0, 1] 0 = Some r"
    "\<forall>s :: nat. (\<forall>u < s. \<not> 300 \<le> u) \<and> (\<forall>u\<ge>s. \<forall>g\<in>set [0, 1 :: group_id]. (if u < 5 then None else Some (1 :: node_id)) \<noteq> None) \<longrightarrow> is_ok r"
    by blast
  then have "is_ok r" by (auto dest!: spec [of _ 5])
  with r(1) show "\<exists>r. wait_local_sees_leaders 301 (\<lambda>t g. if t < 5 then None else Some 1) (\<lambda>t. 300 \<le> t) [0, 1] 0 = Some r \<and> is_ok r"
    by blast
qed

subsection \<open>Ports\<close>

definition local_port :: "u16 \<Rightarrow> nat \<Rightarrow> socket_addr" where
  "local_port base k = loopback (of_nat (unat base + k))"

lemma local_port_inj:
  assumes "unat base + j < 2 ^ 16" "unat base + k < 2 ^ 16" "local_port base j = local_port base k"
  shows "j = k"
proof -
  have "unat (of_nat (unat base + m) :: u16) = unat base + m" if "unat base + m < 2 ^ 16" for m
    using that by (simp add: unat_of_nat take_bit_nat_eq_self del: of_nat_add)
  with assms(1,2) have "unat base + j = unat base + k"
    using assms(3) unfolding local_port_def loopback_def by (metis socket_addr.inject(1))
  then show ?thesis by simp
qed

lemma node_port:
  assumes "unat base + off + i < 2 ^ 16" "unat m = off" "Suc i < 2 ^ 16"
  shows "loopback (saturating_add_u16 (saturating_add_u16 base m) (saturating_sub_u16 (ucast (of_nat (Suc i) :: u64)) 1)) =
    local_port base (off + i)"
proof -
  have "unat (ucast (of_nat (Suc i) :: u64) :: u16) = Suc i"
    using assms(3) by (simp add: unsigned_ucast_eq unat_of_nat take_bit_nat_eq_self del: of_nat_Suc)
  then have "unat (saturating_add_u16 (saturating_add_u16 base m) (saturating_sub_u16 (ucast (of_nat (Suc i) :: u64)) 1)) =
      unat base + (off + i)"
    using assms by (simp add: unat_saturating_add_u16 unat_saturating_sub_u16)
  moreover have "unat (of_nat (unat base + (off + i)) :: u16) = unat base + (off + i)"
    using assms(1) by (simp add: unat_of_nat take_bit_nat_eq_self del: of_nat_add)
  ultimately show ?thesis unfolding local_port_def by (metis unsigned_word_eqI)
qed

lemma saturating_add_0 [simp]: "saturating_add_u16 base 0 = base"
  using unsigned_less [where ?'a = nat, of base] by (simp add: saturating_add_u16_def)

lemma one_to_Suc: "one_to nodes = map (\<lambda>i. of_nat (Suc i)) [0..<unat nodes]"
  by (simp add: one_to_def map_Suc_upt [symmetric] comp_def del: upt_Suc of_nat_Suc)

lemma peer_ports:
  assumes "unat base + 99 + unat nodes < 2 ^ 16"
  shows "map snd (peer_addrs base nodes) = map (local_port base) [0..<unat nodes]"
    and "map (admin_addr_for_node base) (one_to nodes) = map (\<lambda>i. local_port base (100 + i)) [0..<unat nodes]"
  using node_port [of base 0 _ 0] node_port [of base 100 _ 100] assms
  by (auto simp: peer_addrs_def admin_addr_for_node_def one_to_Suc simp del: of_nat_Suc)

lemma peer_addrs_at:
  assumes "unat base + 99 + unat nodes < 2 ^ 16" "i < unat nodes"
  shows "peer_addrs base nodes ! i = (of_nat (Suc i), local_port base i)"
    and "admin_addr_for_node base (of_nat (Suc i)) = local_port base (100 + i)"
  using node_port [of base 0 i 0] node_port [of base 100 i 100] assms
  by (auto simp: peer_addrs_def admin_addr_for_node_def one_to_Suc simp del: of_nat_Suc)

lemma local_port_number:
  assumes "unat base + j < 2 ^ 16" shows "\<exists>p. local_port base j = loopback p \<and> unat p = unat base + j"
  using assms unfolding local_port_def
  by (intro exI [of _ "of_nat (unat base + j)"]) (simp add: unat_of_nat take_bit_nat_eq_self del: of_nat_add)

lemma node_port_numbers:
  assumes "unat base + 99 + unat nodes < 2 ^ 16" "1 \<le> unat k" "unat k \<le> unat nodes"
  shows "\<exists>p q. (k, loopback p) \<in> set (peer_addrs base nodes) \<and> unat p = unat base + unat k - 1 \<and>
    admin_addr_for_node base k = loopback q \<and> unat q = unat base + 100 + unat k - 1"
proof -
  define i where "i = unat k - 1"
  have k: "k = of_nat (Suc i)" "i < unat nodes" using assms(2,3) by (simp_all add: i_def del: of_nat_Suc)
  obtain p where p: "local_port base i = loopback p" "unat p = unat base + i"
    using local_port_number [of base i] assms(1) k(2) by auto
  obtain q where q: "local_port base (100 + i) = loopback q" "unat q = unat base + (100 + i)"
    using local_port_number [of base "100 + i"] assms(1) k(2) by auto
  have "length (peer_addrs base nodes) = unat nodes" by (simp add: peer_addrs_def one_to_Suc)
  then have "(k, local_port base i) \<in> set (peer_addrs base nodes)"
    using peer_addrs_at(1) [OF assms(1) k(2)] k by (metis nth_mem)
  moreover have "admin_addr_for_node base k = loopback q"
    using peer_addrs_at(2) [OF assms(1) k(2)] q(1) unfolding k(1) by (simp only:)
  ultimately show ?thesis using p q assms(2) by (intro exI [of _ p] exI [of _ q]) (simp add: i_def)
qed

text \<open>
  C36. Ports. While the port numbers fit into 16 bits, the peers are the nodes 1 to
  \<open>nodes\<close>; node \<open>k\<close> gets the Raft port \<^verbatim>\<open>base_port + k - 1\<close> and the
  admin port \<^verbatim>\<open>base_port + 100 + k - 1\<close> on the loopback address, so the
  peers have distinct addresses and so have the admin servers. The two ranges are disjoint
  exactly for at most 100 nodes: with more, the admin server of a node has the Raft
  address of another.
\<close>

theorem node_ports_distinct:
  assumes "unat base + 99 + unat nodes < 2 ^ 16"
  shows "map fst (peer_addrs base nodes) = one_to nodes \<and>
    (\<forall>k. 1 \<le> unat k \<longrightarrow> unat k \<le> unat nodes \<longrightarrow>
       (\<exists>p q. (k, loopback p) \<in> set (peer_addrs base nodes) \<and> unat p = unat base + unat k - 1 \<and>
          admin_addr_for_node base k = loopback q \<and> unat q = unat base + 100 + unat k - 1)) \<and>
    distinct (map snd (peer_addrs base nodes)) \<and>
    distinct (map (admin_addr_for_node base) (one_to nodes)) \<and>
    (set (map snd (peer_addrs base nodes)) \<inter> set (map (admin_addr_for_node base) (one_to nodes)) = {} \<longleftrightarrow> unat nodes \<le> 100)"
proof -
  have inj: "inj_on (local_port base) {..<100 + unat nodes}"
    using assms by (intro inj_onI local_port_inj [of base]) auto
  have "inj_on (\<lambda>i. local_port base (100 + i)) {0..<unat nodes}"
    by (rule inj_onI) (use inj in \<open>auto dest!: inj_onD\<close>)
  moreover have "inj_on (local_port base) {0..<unat nodes}" by (rule inj_on_subset [OF inj]) auto
  moreover have "local_port base ` {0..<unat nodes} \<inter> (\<lambda>i. local_port base (100 + i)) ` {0..<unat nodes} = {} \<longleftrightarrow> unat nodes \<le> 100"
  proof
    assume "unat nodes \<le> 100"
    then show "local_port base ` {0..<unat nodes} \<inter> (\<lambda>i. local_port base (100 + i)) ` {0..<unat nodes} = {}"
      using inj by (auto dest!: inj_onD)
  next
    assume e: "local_port base ` {0..<unat nodes} \<inter> (\<lambda>i. local_port base (100 + i)) ` {0..<unat nodes} = {}"
    show "unat nodes \<le> 100"
    proof (rule ccontr)
      assume "\<not> unat nodes \<le> 100"
      then have "local_port base 100 \<in> local_port base ` {0..<unat nodes}" by auto
      moreover have "local_port base (100 + 0) \<in> (\<lambda>i. local_port base (100 + i)) ` {0..<unat nodes}"
        by (rule imageI) (use \<open>\<not> unat nodes \<le> 100\<close> in simp)
      ultimately show False using e by auto
    qed
  qed
  moreover have "map fst (peer_addrs base nodes) = one_to nodes" by (simp add: peer_addrs_def comp_def)
  ultimately show ?thesis using node_port_numbers [OF assms] unfolding peer_ports [OF assms] by (simp add: distinct_map)
qed

theorem node_ports_distinct_witness:
  "(\<exists>p q. (2, loopback p) \<in> set (peer_addrs 21000 3) \<and> unat p = 21001 \<and>
     admin_addr_for_node 21000 2 = loopback q \<and> unat q = 21101) \<and>
   distinct (map snd (peer_addrs 21000 3)) \<and>
   set (map snd (peer_addrs 21000 3)) \<inter> set (map (admin_addr_for_node 21000) (one_to 3)) = {} \<and>
   set (map snd (peer_addrs 21000 101)) \<inter> set (map (admin_addr_for_node 21000) (one_to 101)) \<noteq> {}"
proof -
  have "unat (21000 :: u16) + 99 + unat (3 :: u64) < 2 ^ 16" "unat (21000 :: u16) + 99 + unat (101 :: u64) < 2 ^ 16"
    by simp_all
  note a = node_ports_distinct [OF this(1)] and b = node_ports_distinct [OF this(2)]
  have "\<exists>p q. (2, loopback p) \<in> set (peer_addrs 21000 3) \<and> unat p = 21001 \<and>
      admin_addr_for_node 21000 2 = loopback q \<and> unat q = 21101"
    using conjunct1 [OF conjunct2 [OF a], THEN spec, of 2] by simp
  with a b show ?thesis by simp
qed

end
