(* ===== verification/Demo_Http.thy ===== *)
theory Demo_Http
  imports Demo_Props
begin

section \<open>What an HTTP client of a node sees\<close>

text \<open>
  The handlers \<^verbatim>\<open>group_inc\<close> and \<^verbatim>\<open>group_value\<close> of a process in node mode, over
  the facade, openraft (through \<open>raft_contract\<close>), the bridge and the counter. The
  loops over the local nodes run over one node here; a request makes up to two proposals
  or reads.
\<close>

lemma try_leaders_single:
  assumes "try_leaders leads op [n] w = (r, ns, w')"
  shows "r = None \<and> ns = [n] \<and> w' = w \<or>
    (\<exists>q n'. op n w = (q, n', w') \<and> ns = [n'] \<and> (r = Some q \<or> r = None \<and> \<not> is_ok q))"
  using assms by (auto split: if_splits prod.splits outcome.splits multiraft_error.splits)

lemma try_all_single:
  assumes "try_all op last_err [n] w = ((r, le), ns, w')"
  shows "\<exists>q n'. op n w = (q, n', w') \<and> ns = [n'] \<and> (r = Some q \<or> r = None \<and> \<not> is_ok q)"
  using assms by (auto split: prod.splits outcome.splits multiraft_error.splits)

lemma try_reads_single:
  assumes "try_reads sel rd [n] w = (r, ns, w')"
  shows "r = None \<and> ns = [n] \<and> w' = w \<or>
    (\<exists>q n'. rd n w = (q, n', w') \<and> ns = [n'] \<and> (\<forall>val. r = Some (Ok val) \<longrightarrow> q = Ok val))"
  using assms by (auto split: if_splits prod.splits outcome.splits)

lemma inc_result_ok [simp]: "is_ok (inc_result g r) \<longleftrightarrow> is_ok r"
  by (cases r) auto

text \<open>The peer that a node holds of the group has moved on from \<open>rg\<close>.\<close>

definition moved ::
  "counter_env \<Rightarrow> ('r, 'l, 'm) raft_view \<Rightarrow> group_id \<Rightarrow> ('r, counter_fsm, 'l, 'm) raft_group \<Rightarrow>
   ('r, counter_fsm, 'l, 'm) multi_raft \<Rightarrow> ('r, counter_fsm, 'l, 'm) raft_group \<Rightarrow> bool" where
  "moved cenv v g rg n' rg' \<longleftrightarrow> mr_raft n' g = Some rg' \<and> moved_on cenv v g rg rg'"

lemma moved_refl: "mr_raft n g = Some rg \<Longrightarrow> holds_replica cenv v g rg \<Longrightarrow> moved cenv v g rg n rg"
  by (simp add: moved_def moved_on_refl)

lemma moved_trans: "moved cenv v g rg n1 rg1 \<Longrightarrow> moved cenv v g rg1 n2 rg2 \<Longrightarrow> moved cenv v g rg n2 rg2"
  by (auto simp: moved_def intro: moved_on_trans)

lemma movedD: "moved cenv v g rg n' rg' \<Longrightarrow> mr_raft n' g = Some rg' \<and> holds_replica cenv v g rg'"
  by (simp add: moved_def moved_on_def)

lemma in_log_later: "in_log v d rg \<Longrightarrow> moved cenv v g rg n' rg' \<Longrightarrow> in_log v d rg'"
  unfolding moved_def by (blast intro: in_log_moved)

lemma propose_moved:
  assumes "counter_env_ok cenv" "sx_ops (me_sm env) = counter_ops cenv" "raft_contract env cenv v"
    and "mr_raft n g = Some rg" "holds_replica cenv v g rg" "propose env g d n w = (r, n', w')"
  shows "\<exists>rg'. moved cenv v g rg n' rg' \<and> (is_ok r \<longrightarrow> in_log v d rg')"
  using propose_moves [OF assms] unfolding moved_def by blast

lemma read_moved:
  assumes "counter_env_ok cenv" "sx_ops (me_sm env) = counter_ops cenv" "raft_contract env cenv v"
    and "mr_raft n g = Some rg" "holds_replica cenv v g rg"
    and "read_linearizable env g (\<lambda>f. counter_value f g) n w = (r, n', w')"
  shows "\<exists>rg'. moved cenv v g rg n' rg' \<and>
    (\<forall>val. r = Ok val \<longrightarrow> val = counter_value (sm_fsm (rg_inner rg')) g \<and> prefix (committed_log v rg) (accepted_log v rg'))"
  using read_moves [OF assms] unfolding moved_def by blast

text \<open>The key of a request: the client's own or the next one of the process.\<close>

definition request_key :: "inc_req \<Rightarrow> ('r, 'l, 'm) demo_state \<Rightarrow> u64" where
  "request_key body st = (case ir_idem body of Some k \<Rightarrow> k | None \<Rightarrow> fst (next_idem st))"

lemma group_inc_step:
  assumes "counter_env_ok cenv" "sx_ops (me_sm env) = counter_ops cenv" "raft_contract env cenv v"
    and "ds_nodes st = [n]" "mr_raft n g = Some rg" "holds_replica cenv v g rg"
    and "group_inc cenv env g body st w = (r, st', w')"
  shows "\<exists>n' rg'. ds_nodes st' = [n'] \<and> moved cenv v g rg n' rg' \<and>
    (is_ok r \<longrightarrow> (\<exists>d. encode_add cenv (ir_delta body) (request_key body st) = Ok d \<and> in_log v d rg'))"
proof (cases "g \<in> set (ds_group_ids st)")
  case False
  then show ?thesis using assms(4,7) moved_refl [OF assms(5,6)] by (auto simp: group_inc_def)
next
  case True
  obtain st1 where st1: "(case ir_idem body of Some i \<Rightarrow> (i, st) | None \<Rightarrow> next_idem st) = (request_key body st, st1)"
    "ds_nodes st1 = [n]"
    using assms(4) by (cases "ir_idem body") (auto simp: request_key_def next_idem_key)
  obtain d where d: "encode_add cenv (ir_delta body) (request_key body st) = Ok d"
    using encode_add_total [OF assms(1)] by blast
  obtain q1 ns1 w1 where t1: "try_leaders (\<lambda>n. is_leader env n g) (propose env g d) [n] w = (q1, ns1, w1)"
    by (metis prod_cases3)
  then obtain n1 rg1 where m1: "ns1 = [n1]" "moved cenv v g rg n1 rg1"
    "\<And>q. q1 = Some q \<Longrightarrow> is_ok q \<Longrightarrow> in_log v d rg1"
    using try_leaders_single [OF t1] propose_moved [OF assms(1-3,5,6)] moved_refl [OF assms(5,6)] by (metis option.inject option.distinct(1))
  show ?thesis
  proof (cases q1)
    case (Some q)
    then have "r = inc_result g q" "ds_nodes st' = [n1]"
      using assms(7) True st1 d t1 m1(1) by (auto simp: group_inc_def)
    with m1 Some d show ?thesis by auto
  next
    case None
    obtain q2 le ns2 w2 where t2: "try_all (propose env g d) None [n1] w1 = ((q2, le), ns2, w2)"
      by (metis surj_pair)
    have g1: "mr_raft n1 g = Some rg1" "holds_replica cenv v g rg1" using movedD [OF m1(2)] by simp_all
    obtain q n2 where q: "propose env g d n1 w1 = (q, n2, w2)" "ns2 = [n2]" "q2 = Some q \<or> q2 = None \<and> \<not> is_ok q"
      using try_all_single [OF t2] by blast
    obtain rg2 where m2: "moved cenv v g rg1 n2 rg2" "is_ok q \<longrightarrow> in_log v d rg2"
      using propose_moved [OF assms(1-3) g1 q(1)] by blast
    have "ds_nodes st' = [n2]" "is_ok r \<longrightarrow> is_ok q"
      using assms(7) True st1 d t1 m1(1) None t2 q(2,3) by (auto simp: group_inc_def)
    with m2 d moved_trans [OF m1(2) m2(1)] show ?thesis by blast
  qed
qed

lemma best_local_single:
  assumes "mr_raft n g = Some rg"
  shows "best_local g [n] = Some (counter_value (sm_fsm (rg_inner rg)) g)"
  using assms by (auto simp: best_local_def with_fsm_def mr_raft_def)

lemma try_reads_moves:
  assumes "counter_env_ok cenv" "sx_ops (me_sm env) = counter_ops cenv" "raft_contract env cenv v"
    and "mr_raft n g = Some rg" "holds_replica cenv v g rg"
    and "try_reads sel (read_linearizable env g (\<lambda>f. counter_value f g)) [n] w = (q, ns', w')"
  obtains n1 rg1 where "ns' = [n1]" "moved cenv v g rg n1 rg1"
    "\<And>val. q = Some (Ok val) \<Longrightarrow>
       val = counter_value (sm_fsm (rg_inner rg1)) g \<and> prefix (committed_log v rg) (accepted_log v rg1)"
  using try_reads_single [OF assms(6)] read_moved [OF assms(1-5)] moved_refl [OF assms(4,5)]
  by (metis option.distinct(1))

lemma group_value_step:
  assumes "counter_env_ok cenv" "sx_ops (me_sm env) = counter_ops cenv" "raft_contract env cenv v"
    and "ds_nodes st = [n]" "mr_raft n g = Some rg" "holds_replica cenv v g rg"
    and "group_value env g st w = (Ok resp, st', w')"
  shows "\<exists>n' rg'. ds_nodes st' = [n'] \<and> moved cenv v g rg n' rg' \<and> gv_value resp = counter_value (sm_fsm (rg_inner rg')) g \<and>
    (gv_consistency resp = ''linearizable'' \<longrightarrow> gv_stale resp = None \<and> prefix (committed_log v rg) (accepted_log v rg')) \<and>
    (gv_consistency resp \<noteq> ''linearizable'' \<longrightarrow> gv_stale resp = Some True)"
proof -
  let ?rd = "read_linearizable env g (\<lambda>f. counter_value f g)"
  have known: "g \<in> set (ds_group_ids st)" using assms(7) by (auto simp: group_value_def split: if_splits)
  obtain q1 ns1 w1 where t1: "try_reads (\<lambda>n. is_leader env n g) ?rd [n] w = (q1, ns1, w1)" by (metis prod_cases3)
  obtain n1 rg1 where m1: "ns1 = [n1]" "moved cenv v g rg n1 rg1"
    "\<And>val. q1 = Some (Ok val) \<Longrightarrow> val = counter_value (sm_fsm (rg_inner rg1)) g \<and> prefix (committed_log v rg) (accepted_log v rg1)"
    by (rule try_reads_moves [OF assms(1-3,5,6) t1]) blast
  have g1: "mr_raft n1 g = Some rg1" "holds_replica cenv v g rg1" using movedD [OF m1(2)] by simp_all
  obtain q2 ns2 w2 where t2: "try_reads (\<lambda>_. True) ?rd [n1] w1 = (q2, ns2, w2)" by (metis prod_cases3)
  obtain n2 rg2 where m2: "ns2 = [n2]" "moved cenv v g rg1 n2 rg2"
    "\<And>val. q2 = Some (Ok val) \<Longrightarrow> val = counter_value (sm_fsm (rg_inner rg2)) g \<and> prefix (committed_log v rg1) (accepted_log v rg2)"
    by (rule try_reads_moves [OF assms(1-3) g1 t2]) blast
  note m12 = moved_trans [OF m1(2) m2(2)]
  obtain c where rd: "read_group_value_best_effort env g [n] w = (Ok (gv_value resp, c), ds_nodes st', w')"
    and resp: "gv_consistency resp = (if c = ''linearizable'' then ''linearizable'' else ''local'')"
      "gv_stale resp = (if c = ''linearizable'' then None else Some True)"
    using assms(4,7) known by (auto simp: group_value_def Let_def split: prod.splits outcome.splits if_splits)
  consider (first) val where "q1 = Some (Ok val)" | (second) val where "q1 = None" "q2 = Some (Ok val)"
    | (fallback) "q1 = None" "q2 = None"
    using rd t1 t2 m1(1) by (auto simp: read_group_value_best_effort_def split: option.splits outcome.splits prod.splits)
  then show ?thesis
  proof cases
    case first
    then have "gv_value resp = val" "c = ''linearizable''" "ds_nodes st' = [n1]"
      using rd t1 m1(1) by (simp_all add: read_group_value_best_effort_def)
    then show ?thesis using m1(2,3) first resp by auto
  next
    case second
    then have "gv_value resp = val" "c = ''linearizable''" "ds_nodes st' = [n2]"
      using rd t1 t2 m1(1) m2(1) by (simp_all add: read_group_value_best_effort_def)
    moreover have "prefix (committed_log v rg) (accepted_log v rg2)"
      using m2(3) [OF second(2)] m1(2) by (auto simp: moved_def moved_on_def intro: prefix_order.trans)
    ultimately show ?thesis using m12 m2(3) second resp by auto
  next
    case fallback
    have "mr_raft n2 g = Some rg2" using m2(2) by (simp add: moved_def)
    from best_local_single [OF this] fallback
    have "gv_value resp = counter_value (sm_fsm (rg_inner rg2)) g" "c = ''local''" "ds_nodes st' = [n2]"
      using rd t1 t2 m1(1) m2(1) by (simp_all add: read_group_value_best_effort_def)
    then show ?thesis using m12 resp by auto
  qed
qed

subsection \<open>Sessions\<close>

text \<open>
  A client's session with a process in node mode: increments, of which the acknowledged
  ones are noted with their key and delta, value requests, background work of openraft on
  the local peer, and anything else that leaves the peer of the group alone, requests of
  other clients for other groups among them.
\<close>

inductive http_session ::
  "('r, counter_fsm, counter_error, 'l, 'm, 'v) mr_env \<Rightarrow> counter_env \<Rightarrow> ('r, 'l, 'm) raft_view \<Rightarrow> group_id \<Rightarrow>
   ('r, 'l, 'm) demo_state \<Rightarrow> world \<Rightarrow> (u64 \<times> i64) list \<Rightarrow> ('r, 'l, 'm) demo_state \<Rightarrow> world \<Rightarrow> bool"
  for env cenv v g st0 w0 where
  begins: "http_session env cenv v g st0 w0 [] st0 w0"
| increments: "http_session env cenv v g st0 w0 acked st w \<Longrightarrow> group_inc cenv env g body st w = (r, st', w') \<Longrightarrow>
     http_session env cenv v g st0 w0 (if is_ok r then (request_key body st, ir_delta body) # acked else acked) st' w'"
| asks: "http_session env cenv v g st0 w0 acked st w \<Longrightarrow> group_value env g st w = (Ok resp, st', w') \<Longrightarrow>
     http_session env cenv v g st0 w0 acked st' w'"
| background: "http_session env cenv v g st0 w0 acked st w \<Longrightarrow> ds_nodes st = [n] \<Longrightarrow> mr_raft n g = Some rg \<Longrightarrow>
     peer_moves env cenv v rg rg' \<Longrightarrow> http_session env cenv v g st0 w0 acked (st\<lparr>ds_nodes := [mr_set_raft g rg' n]\<rparr>) w'"
| elsewhere: "http_session env cenv v g st0 w0 acked st w \<Longrightarrow> ds_nodes st = [n] \<Longrightarrow> ds_nodes st' = [n'] \<Longrightarrow>
     mr_raft n' g = mr_raft n g \<Longrightarrow> http_session env cenv v g st0 w0 acked st' w'"

definition inc_logged ::
  "counter_env \<Rightarrow> ('r, 'l, 'm) raft_view \<Rightarrow> ('r, counter_fsm, 'l, 'm) raft_group \<Rightarrow> u64 \<times> i64 \<Rightarrow> bool" where
  "inc_logged cenv v rg x \<longleftrightarrow> (case x of (key, delta) \<Rightarrow> \<exists>d. encode_add cenv delta key = Ok d \<and> in_log v d rg)"

lemma inc_logged_later: "inc_logged cenv v rg x \<Longrightarrow> moved cenv v g rg n' rg' \<Longrightarrow> inc_logged cenv v rg' x"
  unfolding inc_logged_def by (auto intro: in_log_later)

lemma http_session_step:
  assumes "counter_env_ok cenv" "sx_ops (me_sm env) = counter_ops cenv" "raft_contract env cenv v"
    and "ds_nodes st0 = [n0]" "mr_raft n0 g = Some rg0" "holds_replica cenv v g rg0"
    and "http_session env cenv v g st0 w0 acked st w"
  shows "\<exists>n rg. ds_nodes st = [n] \<and> moved cenv v g rg0 n rg \<and> (\<forall>x \<in> set acked. inc_logged cenv v rg x)"
  using assms(7)
proof induction
  case begins
  then show ?case using assms(4) moved_refl [OF assms(5,6)] by auto
next
  case (increments acked st w body r st' w')
  then obtain n rg where s: "ds_nodes st = [n]" "moved cenv v g rg0 n rg" "\<forall>x \<in> set acked. inc_logged cenv v rg x" by blast
  note at = conjunct1 [OF movedD [OF s(2)]] conjunct2 [OF movedD [OF s(2)]]
  obtain n' rg' where s': "ds_nodes st' = [n']" "moved cenv v g rg n' rg'"
    "is_ok r \<longrightarrow> (\<exists>d. encode_add cenv (ir_delta body) (request_key body st) = Ok d \<and> in_log v d rg')"
    using group_inc_step [OF assms(1-3) s(1) at increments.hyps(2)] by blast
  have "inc_logged cenv v rg' x" if "x \<in> set acked" for x using s(3) inc_logged_later [OF _ s'(2)] that by blast
  moreover have "inc_logged cenv v rg' (request_key body st, ir_delta body)" if "is_ok r"
    using s'(3) that by (simp add: inc_logged_def)
  ultimately have "\<forall>x \<in> set (if is_ok r then (request_key body st, ir_delta body) # acked else acked). inc_logged cenv v rg' x"
    by simp
  with s'(1) moved_trans [OF s(2) s'(2)] show ?case by blast
next
  case (asks acked st w resp st' w')
  then obtain n rg where s: "ds_nodes st = [n]" "moved cenv v g rg0 n rg" "\<forall>x \<in> set acked. inc_logged cenv v rg x" by blast
  note at = conjunct1 [OF movedD [OF s(2)]] conjunct2 [OF movedD [OF s(2)]]
  obtain n' rg' where s': "ds_nodes st' = [n']" "moved cenv v g rg n' rg'"
    using group_value_step [OF assms(1-3) s(1) at asks.hyps(2)] by blast
  with moved_trans [OF s(2) s'(2)] s(3) inc_logged_later [OF _ s'(2)] show ?case by blast
next
  case (background acked st w n rg rg' w')
  then have s: "moved cenv v g rg0 n rg" "\<forall>x \<in> set acked. inc_logged cenv v rg x" by (auto simp: moved_def)
  have "moved_on cenv v g rg rg'"
    using peer_moves_on [OF assms(1,2) _ background.hyps(4)] movedD [OF s(1)] by blast
  then have m: "moved cenv v g rg (mr_set_raft g rg' n) rg'"
    using mr_raft_set_raft [OF background.hyps(3)] by (simp add: moved_def)
  with moved_trans [OF s(1) m] s(2) inc_logged_later [OF _ m] show ?case by auto
next
  case (elsewhere acked st w n st' n' w')
  then show ?case by (auto simp: moved_def)
qed

text \<open>
  C2. Increments over HTTP count once. A process in node mode holds a peer of a group that
  has applied nothing yet. A client's session with it is any interleaving of increments,
  with keys of the client's choice or the process's own, of which some fail, value requests,
  background work of openraft (replication, batches, snapshots built and installed, a batch
  that the machine rejects) and changes elsewhere; other nodes may commit commands all the
  while. When the process then answers a value request, the accepted log of its peer
  decodes to commands among which every acknowledged increment is, with its key and its
  delta, and the value is the sum of their deltas, where of the commands with one key only
  the first counts. An answer marked linearizable covers everything the group had committed
  before the request; any other answer is marked stale. This holds for groups without
  standby offload.
\<close>

theorem http_increments_counted_once:
  assumes "counter_env_ok cenv" "sx_ops (me_sm env) = counter_ops cenv" "raft_contract env cenv v"
    and "\<forall>delta key d. encode_add cenv delta key = Ok d \<longrightarrow> \<not> is_standby_snapshot_trigger d"
    and "ds_nodes st = [n]" "mr_raft n g = Some rg" "rv_ok v (rg_core rg)" "sm_group_id (rg_inner rg) = g"
      "sm_fsm (rg_inner rg) = counter_new" "rh_applied (rv_history v (rg_core rg)) = 0"
    and "http_session env cenv v g st w acked st1 w1"
    and "group_value env g st1 w1 = (Ok resp, st2, w2)"
  shows "\<exists>n1 rg1 n2 rg2 cs. ds_nodes st1 = [n1] \<and> mr_raft n1 g = Some rg1 \<and>
    ds_nodes st2 = [n2] \<and> mr_raft n2 g = Some rg2 \<and> prefix (accepted_log v rg1) (accepted_log v rg2) \<and>
    decodes cenv (commands (accepted_log v rg2)) cs \<and>
    (\<forall>(key, delta) \<in> set acked. \<lparr>cmd_idem = key, cmd_delta = delta\<rparr> \<in> set cs) \<and>
    gv_value resp = sum_list (map cmd_delta (fresh_cmds {} cs)) \<and>
    (gv_consistency resp = ''linearizable'' \<longrightarrow> gv_stale resp = None \<and> prefix (committed_log v rg1) (accepted_log v rg2)) \<and>
    (gv_consistency resp \<noteq> ''linearizable'' \<longrightarrow> gv_stale resp = Some True)"
proof -
  note rep = holds_replica_fresh [OF assms(7-10)]
  obtain n1 rg1 where m1: "ds_nodes st1 = [n1]" "moved cenv v g rg n1 rg1" "\<forall>x \<in> set acked. inc_logged cenv v rg1 x"
    using http_session_step [OF assms(1-3,5,6) rep assms(11)] by blast
  note at = conjunct1 [OF movedD [OF m1(2)]] conjunct2 [OF movedD [OF m1(2)]]
  obtain n2 rg2 where m2: "ds_nodes st2 = [n2]" "moved cenv v g rg1 n2 rg2"
    "gv_value resp = counter_value (sm_fsm (rg_inner rg2)) g"
    "gv_consistency resp = ''linearizable'' \<longrightarrow> gv_stale resp = None \<and> prefix (committed_log v rg1) (accepted_log v rg2)"
    "gv_consistency resp \<noteq> ''linearizable'' \<longrightarrow> gv_stale resp = Some True"
    using group_value_step [OF assms(1-3) m1(1) at assms(12)] by blast
  obtain cs where cs: "decodes cenv (commands (accepted_log v rg2)) cs"
    "counter_value (sm_fsm (rg_inner rg2)) g = sum_list (map cmd_delta (fresh_cmds {} cs))"
    using holds_replica_value movedD [OF m2(2)] by blast
  have "\<lparr>cmd_idem = key, cmd_delta = delta\<rparr> \<in> set cs" if x: "(key, delta) \<in> set acked" for key delta
  proof -
    have "inc_logged cenv v rg2 (key, delta)" using inc_logged_later [OF _ m2(2)] m1(3) x by blast
    then obtain d where d: "encode_add cenv delta key = Ok d" "in_log v d rg2" by (auto simp: inc_logged_def)
    have "\<exists>c \<in> set cs. from_slice (env_cmd cenv) d = Ok c"
      using decodes_mem [OF cs(1)] in_log_commands [OF d(2)] assms(4) d(1) by blast
    moreover have "from_slice (env_cmd cenv) d = Ok \<lparr>cmd_idem = key, cmd_delta = delta\<rparr>"
      using encode_add_decode [OF assms(1), of "\<lparr>cmd_idem = key, cmd_delta = delta\<rparr>"] d(1) by simp
    ultimately show ?thesis by auto
  qed
  moreover have "prefix (accepted_log v rg1) (accepted_log v rg2)" using m2(2) by (simp add: moved_def moved_on_def)
  ultimately show ?thesis using m1(1) at(1) m2(1,3-5) movedD [OF m2(2)] cs by (intro exI [of _ n1] exI [of _ rg1] exI [of _ n2] exI [of _ rg2] exI [of _ cs]) auto
qed

subsection \<open>A concrete process\<close>

lemma solo_group_inc:
  assumes "ds_nodes st = [n]" "g \<in> set (ds_group_ids st)" "solo_serves n g rg c"
  shows "\<exists>r st' n' rg'. group_inc (sample_env Release) solo_env g body st w = (Ok r, st', w) \<and> ds_nodes st' = [n'] \<and>
    ds_group_ids st' = ds_group_ids st \<and> solo_serves n' g rg' (counts (ir_delta body) (request_key body st) c)"
proof -
  obtain st1 where st1: "(case ir_idem body of Some i \<Rightarrow> (i, st) | None \<Rightarrow> next_idem st) = (request_key body st, st1)"
    "ds_nodes st1 = [n]" "ds_group_ids st1 = ds_group_ids st"
    using assms(1) by (cases "ir_idem body") (auto simp: request_key_def next_idem_key)
  obtain p n' rg' where p: "propose solo_env g (sample_add (ir_delta body) (request_key body st)) n w = (Ok p, n', w)"
    "solo_serves n' g rg' (counts (ir_delta body) (request_key body st) c)"
    using solo_propose [OF assms(3)] by blast
  have "is_leader solo_env n g" using assms(3) by (simp add: is_leader_def solo_serves_def)
  then have "group_inc (sample_env Release) solo_env g body st w =
      (Ok \<lparr>io_ok = True, io_index = po_index p, io_term = po_term p, io_group = g\<rparr>, st1\<lparr>ds_nodes := [n']\<rparr>, w)"
    using assms(2) st1 p(1) by (simp add: group_inc_def)
  then show ?thesis using p st1 by auto
qed

theorem http_increments_counted_once_witness:
  "\<exists>st st1 w1 resp st2 w2 cs.
     ds_nodes st = [sample_leader] \<and>
     http_session solo_env (sample_env Release) solo_view 7 st sample_world [(42, 10), (42, 10), (2 ^ 32 + 1, 5)] st1 w1 \<and>
     group_value solo_env 7 st1 w1 = (Ok resp, st2, w2) \<and> gv_value resp = 15 \<and>
     \<lparr>cmd_idem = 42, cmd_delta = 10\<rparr> \<in> set cs \<and> 15 = sum_list (map cmd_delta (fresh_cmds {} cs))"
proof -
  let ?w = sample_world and ?b = "\<lparr>ir_delta = 10, ir_idem = Some 42\<rparr>" and ?c = "\<lparr>ir_delta = 5, ir_idem = None\<rparr>"
  define st where "st = \<lparr>ds_nodes = [sample_leader], ds_group_ids = [7], ds_idem = 1, ds_node_id_base = push_bit 32 (1 :: u64)\<rparr>"
  let ?s = "http_session solo_env (sample_env Release) solo_view 7 st ?w"
  have st: "ds_nodes st = [sample_leader]" "7 \<in> set (ds_group_ids st)" "ds_group_ids st = [7]" by (simp_all add: st_def)
  have key: "request_key ?c st = 2 ^ 32 + 1" by (simp add: request_key_def next_idem_def st_def)
  obtain r1 s1 n1 g1 where i1: "group_inc (sample_env Release) solo_env 7 ?c st ?w = (Ok r1, s1, ?w)"
    "ds_nodes s1 = [n1]" "ds_group_ids s1 = [7]" "solo_serves n1 7 g1 (5, {2 ^ 32 + 1})"
    using solo_group_inc [OF st(1,2) sample_leader_fresh(5), of ?c ?w] st(3) by (auto simp: key)
  obtain g2 where b: "peer_moves solo_env (sample_env Release) solo_view g1 g2"
    "solo_serves (mr_set_raft 7 g2 n1) 7 g2 (5, {2 ^ 32 + 1})" using solo_build [OF i1(4)] by blast
  let ?s2 = "s1\<lparr>ds_nodes := [mr_set_raft 7 g2 n1]\<rparr>"
  have s2: "ds_nodes ?s2 = [mr_set_raft 7 g2 n1]" "7 \<in> set (ds_group_ids ?s2)" using i1(3) by simp_all
  obtain r3 s3 n3 g3 where i3: "group_inc (sample_env Release) solo_env 7 ?b ?s2 ?w = (Ok r3, s3, ?w)"
    "ds_nodes s3 = [n3]" "ds_group_ids s3 = [7]" "solo_serves n3 7 g3 (15, {42, 2 ^ 32 + 1})"
    using solo_group_inc [OF s2 b(2), of ?b ?w] i1(3) by (auto simp: request_key_def)
  obtain r4 s4 n4 g4 where i4: "group_inc (sample_env Release) solo_env 7 ?b s3 ?w = (Ok r4, s4, ?w)"
    "ds_nodes s4 = [n4]" "ds_group_ids s4 = [7]" "solo_serves n4 7 g4 (15, {42, 2 ^ 32 + 1})"
    using solo_group_inc [OF i3(2) _ i3(4), of ?b ?w] i3(3) by (auto simp: request_key_def)
  obtain n5 where rd: "read_linearizable solo_env 7 (\<lambda>f. counter_value f 7) n4 ?w = (Ok 15, n5, ?w)"
    using solo_read [OF i4(4)] by auto
  have "is_leader solo_env n4 7" using i4(4) by (simp add: is_leader_def solo_serves_def)
  with rd i4(2,3) obtain resp st5 w5 where gv: "group_value solo_env 7 s4 ?w = (Ok resp, st5, w5)" "gv_value resp = 15"
    by (auto simp: group_value_def read_group_value_best_effort_def Let_def)
  have "?s [(2 ^ 32 + 1, 5)] s1 ?w" using http_session.increments [OF http_session.begins i1(1)] by (simp add: key)
  then have "?s [(2 ^ 32 + 1, 5)] ?s2 ?w"
    by (rule http_session.background [OF _ i1(2) _ b(1)]) (use i1(4) in \<open>simp add: solo_serves_def\<close>)
  from http_session.increments [OF http_session.increments [OF this i3(1)] i4(1)]
  have session: "?s [(42, 10), (42, 10), (2 ^ 32 + 1, 5)] s4 ?w" by (simp add: request_key_def)
  have ops: "sx_ops (me_sm solo_env) = counter_ops (sample_env Release)" by simp
  have trig: "\<forall>delta key d. encode_add (sample_env Release) delta key = Ok d \<longrightarrow> \<not> is_standby_snapshot_trigger d"
    using sample_add_no_trigger by auto
  from http_increments_counted_once [OF sample_env_ok ops solo_contract trig st(1) sample_leader_raft sample_leader_fresh(1-4)
      session gv(1)] gv(2)
  obtain cs where "\<lparr>cmd_idem = 42, cmd_delta = 10\<rparr> \<in> set cs" "15 = sum_list (map cmd_delta (fresh_cmds {} cs))" by auto
  with st(1) session gv show ?thesis by blast
qed

end
