(* ===== verification/Node_Life.thy ===== *)
theory Node_Life
  imports Linear_Read
begin

section \<open>The life of a node\<close>

text \<open>
  A node from its start through any sequence of the operations of \<^verbatim>\<open>MultiRaft\<close>,
  interleaved with what openraft does in the background, with the tasks of its triggers and
  with whatever happens to the router and the file system elsewhere: a step relation, its
  reachable states, and the invariant they satisfy.
\<close>

subsection \<open>The invariant\<close>

text \<open>What a peer's store must have been given, from the configuration of its node.\<close>

definition node_catalog :: "cluster_config \<Rightarrow> snapshot_catalog option" where
  "node_catalog cfg =
     (if cfg_snapshot_mode cfg = StandbyOffload \<and> cfg_data_dir cfg \<noteq> []
      then Some (catalog_new (cfg_data_dir cfg @ [''snapshots'']) (cfg_snapshot_keep cfg)) else None)"

definition store_opts :: "cluster_config \<Rightarrow> sm_options" where
  "store_opts cfg =
     \<lparr>opt_allow_hot_build = (cfg_snapshot_mode cfg \<noteq> StandbyOffload), opt_catalog = node_catalog cfg,
      opt_on_standby_trigger = (cfg_role cfg = Standby \<and> cfg_snapshot_mode cfg = StandbyOffload)\<rparr>"

definition peer_ok :: "cluster_config \<Rightarrow> group_id \<Rightarrow> ('r, 's, 'l, 'm) raft_group group_app \<Rightarrow> bool" where
  "peer_ok cfg g app \<longleftrightarrow>
     ga_group_id app = g \<and> ga_node_id app = cfg_node_id cfg \<and> rg_opts (ga_raft app) = store_opts cfg \<and>
     sm_group_id (rg_inner (ga_raft app)) = g"

definition node_ok :: "cluster_config \<Rightarrow> ('r, 's, 'l, 'm) multi_raft \<Rightarrow> bool" where
  "node_ok cfg mr \<longleftrightarrow>
     mr_config mr = cfg \<and> mr_node_id mr = cfg_node_id cfg \<and> bt_wf (mr_groups mr) \<and>
     (\<forall>g app. bt_get (mr_groups mr) g = Some app \<longrightarrow> peer_ok cfg g app \<and> g \<in> set (mr_watchers mr)) \<and>
     sr_catalog (mr_snapshot_rt mr) = node_catalog cfg \<and> sr_data_dir (mr_snapshot_rt mr) = cfg_data_dir cfg"

text \<open>
  What is relied on of openraft: it works on the store it was given through the store's
  methods, none of which changes the options or the group id.
\<close>

definition same_store :: "('r, 's, 'l, 'm) raft_group \<Rightarrow> ('r, 's, 'l, 'm) raft_group \<Rightarrow> bool" where
  "same_store rg rg' \<longleftrightarrow> rg_opts rg' = rg_opts rg \<and> sm_group_id (rg_inner rg') = sm_group_id (rg_inner rg)"

definition keeps_store :: "('r, 's, 'l, 'm, 'f, 'a) raft_call \<Rightarrow> bool" where
  "keeps_store call \<longleftrightarrow> (\<forall>rg fs r rg' fs'. call rg fs = (r, rg', fs') \<longrightarrow> same_store rg rg')"

definition raft_keeps_store :: "('r, 's, 'l, 'm, 'v) openraft \<Rightarrow> bool" where
  "raft_keeps_store rf \<longleftrightarrow>
     (\<forall>nid cfg net ls opts inner fs rg fs'. or_new rf nid cfg net ls opts inner fs = (Ok rg, fs') \<longrightarrow>
        rg_opts rg = opts \<and> sm_group_id (rg_inner rg) = sm_group_id inner) \<and>
     (\<forall>nodes. keeps_store (or_initialize rf nodes)) \<and> (\<forall>nid addr b. keeps_store (or_add_learner rf nid addr b)) \<and>
     (\<forall>req. keeps_store (or_client_write rf req)) \<and> keeps_store (or_ensure_linearizable rf) \<and>
     keeps_store (or_shutdown rf) \<and> (\<forall>t. keeps_store (or_wait_for_recovery rf t))"

subsection \<open>Steps\<close>

text \<open>What other calls do between the steps of a standby task keeps the group of the store.\<close>

definition gaps_keep_group :: "('s, 'l, 'm) task_gaps \<Rightarrow> bool" where
  "gaps_keep_group gaps \<longleftrightarrow>
     (\<forall>x. sm_group_id (fst (gap_frozen gaps x)) = sm_group_id (fst x)) \<and>
     (\<forall>x. sm_group_id (fst (gap_written gaps x)) = sm_group_id (fst x)) \<and>
     (\<forall>x. sm_group_id (fst (gap_membership gaps x)) = sm_group_id (fst x))"

inductive node_step ::
  "('r, 's, 'e, 'l, 'm, 'v) mr_env \<Rightarrow> ('r, 's, 'l, 'm) multi_raft \<times> world \<Rightarrow> ('r, 's, 'l, 'm) multi_raft \<times> world \<Rightarrow> bool"
  for env where
  create: "create_group env g members mr w = (r, mr', w') \<Longrightarrow> node_step env (mr, w) (mr', w')"
| standby: "add_standby env g nid mr w = (r, mr', w') \<Longrightarrow> node_step env (mr, w) (mr', w')"
| proposal: "propose env g d mr w = (r, mr', w') \<Longrightarrow> node_step env (mr, w) (mr', w')"
| trigger: "trigger_standby_snapshot env g mr w = (r, mr', w') \<Longrightarrow> node_step env (mr, w) (mr', w')"
| read: "read_linearizable env g (f :: 's \<Rightarrow> 's) mr w = (r, mr', w') \<Longrightarrow> node_step env (mr, w) (mr', w')"
| recover: "wait_for_recovery env g t mr w = (r, mr', w') \<Longrightarrow> node_step env (mr, w) (mr', w')"
| install: "mr_install_durable_snapshot env g i t d mr w = (r, mr', w') \<Longrightarrow> node_step env (mr, w) (mr', w')"
| pull: "try_install_from_standby_catalog env g cat mr w = (r, mr', w') \<Longrightarrow> node_step env (mr, w) (mr', w')"
| advertise: "record_snapshot_ad env ad mr w = (mr', w') \<Longrightarrow> node_step env (mr, w) (mr', w')"
| ready_callback: "node_step env (mr, w) (on_snapshot_ready mr, w)"
| delay: "node_step env (mr, w) (set_snapshot_serialize_delay d mr, w)"
| leader_callback: "node_step env (mr, w) (on_leader_change cb mr, w)"
| standby_task: "mr_raft mr g = Some rg \<Longrightarrow> sr_catalog (mr_snapshot_rt mr) = Some cat \<Longrightarrow>
     gaps_keep_group gaps \<Longrightarrow>
     standby_trigger_task env gaps cat g i t (mr_snapshot_rt mr) (rg_inner rg) (wd_fs w) = (rt', inner', fs', calls) \<Longrightarrow>
     node_step env (mr, w) ((mr_set_raft g (rg\<lparr>rg_inner := inner'\<rparr>) mr)\<lparr>mr_snapshot_rt := rt'\<rparr>, w\<lparr>wd_fs := fs'\<rparr>)"
| stop: "shutdown env mr w = (r, mr', w') \<Longrightarrow> node_step env (mr, w) (mr', w')"
| background: "mr_raft mr g = Some rg \<Longrightarrow> same_store rg rg' \<Longrightarrow> node_step env (mr, w) (mr_set_raft g rg' mr, w')"
| elsewhere: "node_step env (mr, w) (mr, w')"

inductive node_reachable ::
  "('r, 's, 'e, 'l, 'm, 'v) mr_env \<Rightarrow> cluster_config \<Rightarrow> ('r, 's, 'l, 'm) multi_raft \<times> world \<Rightarrow> bool"
  for env cfg where
  started: "start_inner env cfg w = (Ok mr, w') \<Longrightarrow> node_reachable env cfg (mr, w')"
| started_grpc: "start_grpc_inner env cfg w = (Ok mr, w') \<Longrightarrow> node_reachable env cfg (mr, w')"
| stepped: "node_reachable env cfg s \<Longrightarrow> node_step env s s' \<Longrightarrow> node_reachable env cfg s'"

subsection \<open>Every step keeps it\<close>

lemma node_ok_set_raft:
  assumes "node_ok cfg mr" "mr_raft mr g = Some rg" "same_store rg rg'"
  shows "node_ok cfg (mr_set_raft g rg' mr)"
proof -
  obtain app where app: "bt_get (mr_groups mr) g = Some app" "ga_raft app = rg"
    using assms(2) by (auto simp: mr_raft_def)
  have "peer_ok cfg g app" using assms(1) app(1) by (simp add: node_ok_def)
  then have "peer_ok cfg g (app\<lparr>ga_raft := rg'\<rparr>)" using app(2) assms(3) by (simp add: peer_ok_def same_store_def)
  with assms(1) app(1) show ?thesis
    by (auto simp: node_ok_def mr_set_raft_def set_raft_def bt_get_insert bt_wf_insert split: if_splits)
qed

lemma keeps_storeD: "keeps_store call \<Longrightarrow> call rg fs = (r, rg', fs') \<Longrightarrow> same_store rg rg'"
  unfolding keeps_store_def by blast

lemma raft_keeps_storeD:
  assumes "raft_keeps_store rf"
  shows "or_new rf nid cfg net ls opts inner fs = (Ok rg, fs') \<Longrightarrow> rg_opts rg = opts \<and> sm_group_id (rg_inner rg) = sm_group_id inner"
    and "keeps_store (or_initialize rf nodes)" "keeps_store (or_add_learner rf nid' addr b)"
    "keeps_store (or_client_write rf req)" "keeps_store (or_ensure_linearizable rf)"
    "keeps_store (or_shutdown rf)" "keeps_store (or_wait_for_recovery rf t)"
  using assms unfolding raft_keeps_store_def by blast+

lemma node_ok_on_raft:
  assumes "node_ok cfg mr" "keeps_store call" "on_raft call conv g mr w = (r, mr', w')"
  shows "node_ok cfg mr'"
proof (cases "mr_raft mr g")
  case (Some rg)
  obtain q rg' fs' where q: "call rg (wd_fs w) = (q, rg', fs')" by (metis prod_cases3)
  then have "mr' = mr_set_raft g rg' mr" using assms(3) Some by (simp add: on_raft_def)
  with node_ok_set_raft [OF assms(1) Some keeps_storeD [OF assms(2) q]] show ?thesis by simp
qed (use assms in \<open>simp add: on_raft_def\<close>)

lemma node_ok_sel:
  assumes "node_ok cfg mr"
  shows "mr_config mr = cfg" "mr_node_id mr = cfg_node_id cfg" "sr_catalog (mr_snapshot_rt mr) = node_catalog cfg"
  using assms by (simp_all add: node_ok_def)

lemma group_options_ok:
  assumes "node_ok cfg mr" "group_options mr = Ok opts"
  shows "opts = store_opts cfg"
  using assms(2) node_ok_sel [OF assms(1)]
  by (auto simp: group_options_def store_opts_def Let_def split: if_splits option.splits)

lemma node_ok_spawn:
  assumes "node_ok cfg mr" "raft_keeps_store (me_raft env)" "spawn_local_group env g mr w = (r, mr', w')"
  shows "node_ok cfg mr'"
proof (cases "mr' = mr")
  case False
  then obtain config opts ls rg fs1 fs2 where
    new: "group_options mr = Ok opts"
      "or_new (me_raft env) (mr_node_id mr) config (group_network mr g) ls opts
         (sm_inner_new (sx_types (me_sm env)) g (me_make_fsm env g)) fs1 = (Ok rg, fs2)"
      "mr' = spawn_leader_watch g (mr\<lparr>mr_groups := bt_insert g
         \<lparr>ga_node_id = mr_node_id mr, ga_group_id = g, ga_raft = rg\<rparr> (mr_groups mr)\<rparr>)"
    using assms(3) by (auto simp: spawn_local_group_def Let_def split: outcome.splits prod.splits)
  have "rg_opts rg = opts" "sm_group_id (rg_inner rg) = g"
    using raft_keeps_storeD(1) [OF assms(2) new(2)] by (simp_all add: sm_inner_new_def)
  with group_options_ok [OF assms(1) new(1)] node_ok_sel [OF assms(1)]
  have "peer_ok cfg g \<lparr>ga_node_id = mr_node_id mr, ga_group_id = g, ga_raft = rg\<rparr>" by (simp add: peer_ok_def)
  with assms(1) show ?thesis
    by (auto simp: new(3) node_ok_def spawn_leader_watch_def bt_get_insert bt_wf_insert split: if_splits)
qed (use assms(1) in simp)

lemma node_ok_initialize:
  assumes "node_ok cfg mr" "raft_keeps_store (me_raft env)" "try_initialize env g members mr w = (r, mr', w')"
  shows "node_ok cfg mr'"
proof (cases "mr_raft mr g")
  case (Some rg)
  obtain q rg' fs' where q: "or_initialize (me_raft env) (membership_nodes (mr_config mr) members) rg (wd_fs w) = (q, rg', fs')"
    by (metis prod_cases3)
  then have "mr' = mr_set_raft g rg' mr" using assms(3) Some by (simp add: try_initialize_def Let_def)
  with node_ok_set_raft [OF assms(1) Some keeps_storeD [OF raft_keeps_storeD(2) [OF assms(2)] q]] show ?thesis by simp
qed (use assms in \<open>simp add: try_initialize_def\<close>)

lemma node_ok_create:
  assumes "node_ok cfg mr" "raft_keeps_store (me_raft env)" "create_group env g members mr w = (r, mr', w')"
  shows "node_ok cfg mr'"
proof -
  obtain q mr1 w1 where s: "(if \<not> bt_contains_key (mr_groups mr) g then spawn_local_group env g mr w else (Ok (), mr, w)) = (q, mr1, w1)"
    by (metis prod_cases3)
  have ok: "node_ok cfg mr1" using s node_ok_spawn [OF assms(1,2)] assms(1) by (auto split: if_splits)
  consider "mr' = mr" | "mr' = mr1" | w2 where "try_initialize env g members mr1 w2 = (r, mr', w')"
    using assms(3) s by (auto simp: create_group_def Let_def split: if_splits outcome.splits net_backend.splits prod.splits)
  then show ?thesis using ok assms(1) node_ok_initialize [OF ok assms(2)] by cases auto
qed

lemma same_store_trans: "same_store a b \<Longrightarrow> same_store b c \<Longrightarrow> same_store a c"
  by (simp add: same_store_def)

lemma node_ok_shutdown_rafts:
  assumes "raft_keeps_store (me_raft env)" "node_ok cfg mr" "shutdown_rafts env rafts mr fs = (r, mr', fs')"
    and "\<And>g raft. (g, raft) \<in> set rafts \<Longrightarrow> \<exists>rg. mr_raft mr g = Some rg \<and> same_store rg raft"
  shows "node_ok cfg mr'"
  using assms(2-4)
proof (induction rafts arbitrary: mr fs)
  case (Cons x rafts)
  obtain g raft where x: "x = (g, raft)" by (cases x)
  obtain q raft' fs1 where q: "or_shutdown (me_raft env) raft fs = (q, raft', fs1)" by (metis prod_cases3)
  obtain rg where rg: "mr_raft mr g = Some rg" "same_store rg raft" using Cons.prems(3) x by auto
  have st: "same_store rg raft'"
    using rg(2) keeps_storeD [OF raft_keeps_storeD(6) [OF assms(1)] q] by (rule same_store_trans)
  let ?mr = "mr_set_raft g raft' mr"
  have ok: "node_ok cfg ?mr" by (rule node_ok_set_raft [OF Cons.prems(1) rg(1) st])
  have next_ok: "\<exists>rg. mr_raft ?mr h = Some rg \<and> same_store rg raft2" if h: "(h, raft2) \<in> set rafts" for h raft2
  proof -
    obtain rg2 where "mr_raft mr h = Some rg2" "same_store rg2 raft2" using Cons.prems(3) [of h raft2] h by auto
    with rg(1) st show ?thesis by (auto simp: mr_raft_set_raft [OF rg(1)] same_store_def)
  qed
  show ?case
  proof (cases q)
    case (Ok u)
    then show ?thesis using Cons.IH [OF ok _ next_ok] Cons.prems(2) x q by simp
  qed (use Cons.prems(2) x q ok in auto)
qed simp

lemma node_ok_shutdown:
  assumes "node_ok cfg mr" "raft_keeps_store (me_raft env)" "shutdown env mr w = (r, mr', w')"
  shows "node_ok cfg mr'"
proof -
  let ?rafts = "map (\<lambda>(g, app). (g, ga_raft app)) (mr_groups mr)"
  obtain q mr1 fs1 where s: "shutdown_rafts env ?rafts mr (wd_fs w) = (q, mr1, fs1)" by (metis prod_cases3)
  have "\<exists>rg. mr_raft mr g = Some rg \<and> same_store rg raft" if g: "(g, raft) \<in> set ?rafts" for g raft
  proof -
    obtain app where app: "(g, app) \<in> set (mr_groups mr)" "raft = ga_raft app" using g by auto
    have "bt_wf (mr_groups mr)" using assms(1) by (simp add: node_ok_def)
    then have "bt_get (mr_groups mr) g = Some app" using app(1) by (simp add: bt_get_mem)
    then have "mr_raft mr g = Some raft" using app(2) by (simp add: mr_raft_def)
    then show ?thesis by (simp add: same_store_def)
  qed
  from node_ok_shutdown_rafts [OF assms(2,1) s this] have ok: "node_ok cfg mr1" by blast
  have "mr' = mr1 \<or> mr' = mr1\<lparr>mr_groups := []\<rparr>"
    using assms(3) s by (auto simp: shutdown_def Let_def split: outcome.splits)
  with ok show ?thesis by (auto simp: node_ok_def bt_wf_def bt_get_def)
qed

lemma restore_keeps_group: "sm_group_id (snd (restore_and_set cx meta data inner)) = sm_group_id inner"
  by (simp add: restore_and_set_def split: prod.split outcome.split)

lemma install_keeps_group:
  "sm_group_id (fst (snd (install_durable_snapshot os cx opts i t d inner fs))) = sm_group_id inner"
proof -
  define meta where "meta = \<lparr>meta_last_log_id = Some (durable_log_id (sx_types cx) i t),
    meta_last_membership = default_stored_membership (sx_types cx), meta_snapshot_id = entry_name i t\<rparr>"
  obtain q inner' where "restore_and_set cx meta d inner = (q, inner')" by (metis surj_pair)
  with restore_keeps_group [of cx meta d inner] show ?thesis
    by (cases q) (simp_all add: install_durable_snapshot_def Let_def meta_def [symmetric] split: prod.split)
qed

lemma node_ok_install:
  assumes "node_ok cfg mr" "mr_install_durable_snapshot env g i t d mr w = (r, mr', w')"
  shows "node_ok cfg mr'"
proof (rule node_ok_on_raft [OF assms(1) _ assms(2) [unfolded mr_install_durable_snapshot_def]])
  show "keeps_store (\<lambda>rg fs. case install_durable_snapshot (me_os env) (me_sm env) (rg_opts rg) i t d (rg_inner rg) fs of
      (res, inner', fs') \<Rightarrow> (res, rg\<lparr>rg_inner := inner'\<rparr>, fs'))"
    unfolding keeps_store_def same_store_def
  proof (intro allI impI)
    fix rg fs q rg' fs'
    assume "(case install_durable_snapshot (me_os env) (me_sm env) (rg_opts rg) i t d (rg_inner rg) fs of
      (res, inner', fs') \<Rightarrow> (res, rg\<lparr>rg_inner := inner'\<rparr>, fs')) = (q, rg', fs')"
    then show "rg_opts rg' = rg_opts rg \<and> sm_group_id (rg_inner rg') = sm_group_id (rg_inner rg)"
      using install_keeps_group [of "me_os env" "me_sm env" "rg_opts rg" i t d "rg_inner rg" fs] by (auto split: prod.splits)
  qed
qed

lemma node_ok_pull:
  assumes "node_ok cfg mr" "try_install_from_standby_catalog env g cat mr w = (r, mr', w')"
  shows "node_ok cfg mr'"
proof -
  have "mr' = mr \<or> (\<exists>i t d w1. mr_install_durable_snapshot env g i t d mr w1 = (r, mr', w'))"
    using assms(2) by (auto simp: try_install_from_standby_catalog_def split: outcome.splits option.splits prod.splits)
  then show ?thesis using assms(1) node_ok_install [OF assms(1)] by blast
qed

lemma record_ad_keeps:
  "record_ad os ac ad rt fs = (rt', fs', calls) \<Longrightarrow> sr_catalog rt' = sr_catalog rt \<and> sr_data_dir rt' = sr_data_dir rt"
  by (auto simp: record_ad_def Let_def)

lemma standby_build_group:
  assumes "build_standby_snapshot_async os cx gaps cat g i t inner fs = (r, inner', fs')" "gaps_keep_group gaps"
  shows "sm_group_id inner' = sm_group_id inner"
proof (cases "standby_freeze cx g inner")
  case (Ok data)
  obtain i1 f1 where s1: "gap_frozen gaps (inner, fs) = (i1, f1)" by (metis surj_pair)
  obtain q f2 where s2: "standby_write os cx cat g i t data f1 = (q, f2)" by (metis surj_pair)
  obtain i3 f3 where s3: "gap_written gaps (i1, f2) = (i3, f3)" by (metis surj_pair)
  obtain i4 f4 where s4: "gap_membership gaps (i3, f3) = (i4, f4)" by (metis surj_pair)
  have "sm_group_id i1 = sm_group_id inner" "sm_group_id i3 = sm_group_id i1" "sm_group_id i4 = sm_group_id i3"
    using assms(2) s1 s3 s4 unfolding gaps_keep_group_def by (metis fst_conv)+
  with assms(1) Ok s1 s2 s3 s4 show ?thesis
    by (cases q) (auto simp: build_standby_snapshot_async_def Let_def standby_publish_def)
qed (use assms(1) in \<open>simp_all add: build_standby_snapshot_async_def\<close>)

lemma standby_task_keeps:
  assumes "standby_trigger_task env gaps cat g i t rt inner fs = (rt', inner', fs', calls)" "gaps_keep_group gaps"
  shows "sr_catalog rt' = sr_catalog rt \<and> sr_data_dir rt' = sr_data_dir rt \<and> sm_group_id inner' = sm_group_id inner"
  using assms
  by (auto simp: standby_trigger_task_def split: outcome.splits prod.splits dest: record_ad_keeps standby_build_group)

lemma node_ok_runtime:
  "node_ok cfg mr \<Longrightarrow> sr_catalog rt' = sr_catalog (mr_snapshot_rt mr) \<Longrightarrow> sr_data_dir rt' = sr_data_dir (mr_snapshot_rt mr) \<Longrightarrow>
   node_ok cfg (mr\<lparr>mr_snapshot_rt := rt'\<rparr>)"
  by (simp add: node_ok_def)

lemma node_ok_watches: "node_ok cfg mr \<Longrightarrow> node_ok cfg (fold (\<lambda>(g, _). spawn_leader_watch g) gs mr)"
proof (induction gs arbitrary: mr)
  case (Cons x gs)
  have "node_ok cfg (spawn_leader_watch (fst x) mr)"
    using Cons.prems by (auto simp: node_ok_def spawn_leader_watch_def)
  from Cons.IH [OF this] show ?case by (simp add: case_prod_beta)
qed simp

lemma node_ok_propose:
  assumes "raft_keeps_store (me_raft env)" "node_ok cfg mr" "propose env g d mr w = (r, mr', w')"
  shows "node_ok cfg mr'"
  by (rule node_ok_on_raft [OF assms(2) raft_keeps_storeD(4) [OF assms(1)] assms(3) [unfolded propose_def]])

lemma node_ok_read:
  assumes "raft_keeps_store (me_raft env)" "node_ok cfg mr" "read_linearizable env g f mr w = (r, mr', w')"
  shows "node_ok cfg mr'"
proof -
  obtain q mr1 w1 where c: "on_raft (or_ensure_linearizable (me_raft env)) (map_err (call_error ''ensure_linearizable'')) g mr w = (q, mr1, w1)"
    by (metis prod_cases3)
  then have "mr' = mr1" using assms(3) by (cases q) (auto simp: read_linearizable_def)
  with node_ok_on_raft [OF assms(2) raft_keeps_storeD(5) [OF assms(1)] c] show ?thesis by simp
qed

lemma node_ok_step:
  assumes "raft_keeps_store (me_raft env)" "node_step env s s'" "node_ok cfg (fst s)"
  shows "node_ok cfg (fst s')"
  using assms(2,3)
proof induction
  case (create g members mr w r mr' w')
  then show ?case using node_ok_create [OF _ assms(1)] by simp
next
  case (standby g nid mr w r mr' w')
  then show ?case using node_ok_on_raft [OF _ raft_keeps_storeD(3) [OF assms(1)]] by (simp add: add_standby_def)
next
  case (proposal g d mr w r mr' w')
  then show ?case using node_ok_propose [OF assms(1)] by simp
next
  case (trigger g mr w r mr' w')
  then show ?case using node_ok_propose [OF assms(1)] by (simp add: trigger_standby_snapshot_def)
next
  case (read g f mr w r mr' w')
  then show ?case using node_ok_read [OF assms(1)] by simp
next
  case (recover g t mr w r mr' w')
  then show ?case using node_ok_on_raft [OF _ raft_keeps_storeD(7) [OF assms(1)]] by (simp add: wait_for_recovery_def)
next
  case (install g i t d mr w r mr' w')
  then show ?case using node_ok_install by simp
next
  case (pull g cat mr w r mr' w')
  then show ?case using node_ok_pull by simp
next
  case (advertise ad mr w mr' w')
  then show ?case
    by (auto simp: record_snapshot_ad_def split: prod.splits intro!: node_ok_runtime dest: record_ad_keeps)
next
  case (leader_callback mr w cb)
  then have "node_ok cfg (mr\<lparr>mr_leader_cbs := mr_leader_cbs mr @ [cb]\<rparr>)" by (simp add: node_ok_def)
  then show ?case by (simp add: on_leader_change_def Let_def node_ok_watches)
next
  case (standby_task mr g rg cat gaps i t w rt' inner' fs' calls)
  note k = standby_task_keeps [OF standby_task(4,3)]
  have "node_ok cfg (mr_set_raft g (rg\<lparr>rg_inner := inner'\<rparr>) mr)"
    using node_ok_set_raft [of cfg mr g rg] standby_task k by (simp add: same_store_def)
  from node_ok_runtime [OF this, of rt'] k show ?case by (simp add: mr_set_raft_def)
next
  case (stop mr w r mr' w')
  then show ?case using node_ok_shutdown [OF _ assms(1)] by simp
next
  case (background mr g rg rg' w w')
  then show ?case using node_ok_set_raft by simp
qed (simp_all add: node_ok_runtime on_snapshot_ready_def set_snapshot_serialize_delay_def)

lemma node_ok_fresh:
  "snapshot_runtime_new os ac cfg fs = (rt, fs') \<Longrightarrow> node_ok cfg (fresh_node cfg net rt)"
  by (auto simp: node_ok_def fresh_node_def snapshot_runtime_new_def node_catalog_def bt_wf_def bt_get_def Let_def split: if_splits)

lemma node_ok_started:
  "start_inner env cfg w = (Ok mr, w') \<Longrightarrow> node_ok cfg mr"
  "start_grpc_inner env cfg w = (Ok mr, w') \<Longrightarrow> node_ok cfg mr"
  by (auto simp: start_inner_def start_grpc_inner_def Let_def split: prod.splits option.splits outcome.splits
      intro: node_ok_fresh)

lemma node_ok_reachable:
  assumes "raft_keeps_store (me_raft env)" "node_reachable env cfg (mr, w)"
  shows "node_ok cfg mr"
proof -
  have "node_ok cfg (fst s)" if "node_reachable env cfg s" for s
    using that by induction (auto intro: node_ok_started node_ok_step [OF assms(1)])
  from this [OF assms(2)] show ?thesis by simp
qed

text \<open>
  C9. A node stays well formed. From its start, with either transport, and through any
  sequence of operations, background work of openraft, standby tasks and changes elsewhere,
  a node keeps its configuration; its groups form an ordered map in which every peer
  carries the group it is filed under and the id of the node and has a watch for leader
  changes; the store of every peer belongs to that group and has the options the
  configuration asks for, so that with standby offload no peer ever builds a snapshot of
  the running machine, and the trigger callback exists on standbys only.
\<close>

theorem node_stays_ok:
  assumes "raft_keeps_store (me_raft env)" "node_reachable env cfg (mr, w)"
  shows "mr_config mr = cfg \<and> mr_node_id mr = cfg_node_id cfg \<and> bt_wf (mr_groups mr) \<and>
    (\<forall>g app. bt_get (mr_groups mr) g = Some app \<longrightarrow>
       ga_group_id app = g \<and> ga_node_id app = cfg_node_id cfg \<and> g \<in> set (mr_watchers mr) \<and>
       sm_group_id (rg_inner (ga_raft app)) = g \<and>
       (opt_allow_hot_build (rg_opts (ga_raft app)) \<longleftrightarrow> cfg_snapshot_mode cfg \<noteq> StandbyOffload) \<and>
       opt_catalog (rg_opts (ga_raft app)) = node_catalog cfg \<and>
       (opt_on_standby_trigger (rg_opts (ga_raft app)) \<longrightarrow> cfg_role cfg = Standby))"
proof -
  from node_ok_reachable [OF assms] show ?thesis by (auto simp: node_ok_def peer_ok_def store_opts_def)
qed

lemma apply_loop_group:
  "apply_loop cx opts items st = (r, st') \<Longrightarrow> sm_group_id (ap_inner st') = sm_group_id (ap_inner st)"
proof (induction cx opts items st rule: apply_loop.induct)
  case (4 cx opts ent responder items st)
  obtain q st1 where p: "apply_payload cx opts ent st = (q, st1)" by (metis surj_pair)
  then have g: "sm_group_id (ap_inner st1) = sm_group_id (ap_inner st)"
    by (auto simp: apply_payload_def Let_def split: entry_payload.splits if_splits prod.splits outcome.splits)
  have "ap_inner (send_response responder x st1) = ap_inner st1" for x
    by (simp add: send_response_def split: option.split)
  with 4 p g show ?case by (cases q) auto
qed simp_all

lemma sm_apply_group: "sm_apply cx opts items a = (r, a', sent, trig) \<Longrightarrow> sm_group_id a' = sm_group_id a"
  by (auto simp: sm_apply_def split: prod.splits outcome.splits dest: apply_loop_group)

lemma solo_keeps_store: "raft_keeps_store (me_raft solo_env)"
proof -
  have snap: "same_store rg rg'" if "solo_snapshot rg fs = (rg', fs')" for rg fs rg' fs'
    using solo_snapshot_keeps [OF that] by (simp add: same_store_def)
  have "same_store rg rg'" if c: "solo_write req rg fs = (r, rg', fs')" for req rg fs r rg' fs'
  proof (cases "rg' = rg")
    case False
    let ?core = "(rg_core rg)\<lparr>so_log := so_log (rg_core rg) @ [solo_entry req (rg_core rg)]\<rparr>"
    obtain q inner' sent trig where a: "sm_apply (sample_cx Release) (rg_opts rg)
        [Ok (solo_entry req (rg_core rg), None :: nat option)] (rg_inner rg) = (q, inner', sent, trig)" by (metis prod_cases4)
    have same: "same_store rg (rg\<lparr>rg_core := core, rg_inner := inner'\<rparr>)" for core
      using sm_apply_group [OF a] by (simp add: same_store_def)
    consider "solo_snapshot (rg\<lparr>rg_core := ?core, rg_inner := inner'\<rparr>) fs = (rg', fs')"
      | "rg' = rg\<lparr>rg_core := ?core\<lparr>so_stopped := True\<rparr>, rg_inner := inner'\<rparr>"
      using c False a by (cases q) (auto simp: solo_write_def Let_def split: if_splits)
    then show ?thesis using same_store_trans [OF same snap] same by cases auto
  qed (simp add: same_store_def)
  then have "keeps_store (solo_write req)" for req unfolding keeps_store_def by blast
  then show ?thesis
    by (auto simp: raft_keeps_store_def solo_raft_def solo_new_def keeps_store_def same_store_def solo_initialize_def
        solo_check_def split: if_splits)
qed

theorem node_stays_ok_witness:
  "\<exists>w app. node_reachable solo_env (sample_config 1) (sample_leader, w) \<and>
     bt_get (mr_groups sample_leader) 7 = Some app \<and> ga_group_id app = 7 \<and> ga_node_id app = 1 \<and>
     opt_allow_hot_build (rg_opts (ga_raft app))"
proof -
  have "start_inner solo_env (sample_config 1) sample_world =
      (Ok (sample_node 1), snd (start_inner solo_env (sample_config 1) sample_world))"
    by (simp add: start_inner_def sample_node_def Let_def split: prod.split)
  then have "node_reachable solo_env (sample_config 1) (sample_node 1, snd (start_inner solo_env (sample_config 1) sample_world))"
    by (rule node_reachable.started)
  then have n: "node_reachable solo_env (sample_config 1) (sample_node 1, sample_world)"
    by (rule node_reachable.stepped) (rule node_step.elsewhere)
  obtain r mr w where c: "create_group solo_env 7 [1] (sample_node 1) sample_world = (r, mr, w)" by (metis prod_cases3)
  then have l: "sample_leader = mr" by (simp add: sample_leader_def)
  have reach: "node_reachable solo_env (sample_config 1) (sample_leader, w)"
    unfolding l by (rule node_reachable.stepped [OF n node_step.create [OF c]])
  obtain app where app: "bt_get (mr_groups sample_leader) 7 = Some app"
    using sample_leader_raft by (auto simp: mr_raft_def)
  from node_stays_ok [OF solo_keeps_store reach] app
  have "ga_group_id app = 7 \<and> ga_node_id app = cfg_node_id (sample_config 1) \<and> opt_allow_hot_build (rg_opts (ga_raft app))"
    by (simp del: of_nat_numeral)
  with reach app show ?thesis by (auto simp: sample_config_def)
qed

end
