(* ===== verification/Demo_Start.thy ===== *)
theory Demo_Start
  imports Node_Life Demo_Props
begin

section \<open>Starting a process\<close>

text \<open>
  What a process has when its start-up succeeds, in both modes: its nodes are reachable
  states of their life cycle and every node has a local peer of every group, so that no
  handler meets a group that is missing.
\<close>

definition has_group :: "('r, 's, 'l, 'm) multi_raft \<Rightarrow> group_id \<Rightarrow> bool" where
  "has_group mr g \<longleftrightarrow> bt_get (mr_groups mr) g \<noteq> None"

lemma has_group_set_raft [simp]: "has_group (mr_set_raft g rg mr) h \<longleftrightarrow> has_group mr h"
  by (auto simp: has_group_def mr_set_raft_def set_raft_def bt_get_insert split: option.split)

lemma has_group_initialize:
  "try_initialize env g ms mr w = (r, mr', w') \<Longrightarrow> has_group mr' h \<longleftrightarrow> has_group mr h"
  by (auto simp: try_initialize_def Let_def split: option.splits prod.splits)

lemma has_group_spawn:
  assumes "spawn_local_group env g mr w = (r, mr', w')"
  shows "has_group mr h \<Longrightarrow> has_group mr' h" and "is_ok r \<Longrightarrow> has_group mr' g"
  using assms
  by (auto simp: spawn_local_group_def spawn_leader_watch_def has_group_def bt_get_insert Let_def
      split: outcome.splits prod.splits)

lemma has_group_create:
  assumes "create_group env g ms mr w = (r, mr', w')"
  shows "has_group mr h \<Longrightarrow> has_group mr' h" and "is_ok r \<Longrightarrow> has_group mr' g"
proof -
  obtain q mr1 w1 where s: "(if \<not> bt_contains_key (mr_groups mr) g then spawn_local_group env g mr w else (Ok (), mr, w)) = (q, mr1, w1)"
    by (metis prod_cases3)
  have k: "has_group mr x \<Longrightarrow> has_group mr1 x" for x using s has_group_spawn(1) by (auto split: if_splits)
  have ok: "has_group mr1 g" if "is_ok q"
    using s that has_group_spawn(2) by (auto simp: has_group_def bt_contains_key_def split: if_splits)
  have "mr' = mr \<and> \<not> is_ok r \<or> mr' = mr1 \<and> (is_ok r \<longrightarrow> is_ok q) \<or>
      is_ok q \<and> (\<exists>w2. try_initialize env g ms mr1 w2 = (r, mr', w'))"
  proof (cases "ms = [] \<or> cfg_role (mr_config mr) \<noteq> Standby \<and> mr_node_id mr \<notin> set ms")
    case True
    then have "mr' = mr \<and> \<not> is_ok r" using assms by (cases "ms = []") (auto simp: create_group_def)
    then show ?thesis by blast
  next
    case False
    obtain claimed glue' where cl: "claim_init g (mr_node_id mr1) ms (sf_glue (wd_fabric w1)) = (claimed, glue')"
      by (metis surj_pair)
    show ?thesis
      using assms False s cl by (cases q; cases "mr_net mr1") (auto simp: create_group_def Let_def split: if_splits)
  qed
  then have "(has_group mr h \<longrightarrow> has_group mr' h) \<and> (is_ok r \<longrightarrow> has_group mr' g)"
    by (elim disjE conjE exE) (use k ok in \<open>auto dest: has_group_initialize\<close>)
  then show "has_group mr h \<Longrightarrow> has_group mr' h" "is_ok r \<Longrightarrow> has_group mr' g" by blast+
qed

lemma watches_groups: "mr_groups (fold (\<lambda>(g, _). spawn_leader_watch g) gs mr) = mr_groups mr"
  by (induction gs arbitrary: mr) (auto simp: spawn_leader_watch_def)

lemma has_group_callbacks:
  "has_group (on_leader_change cb mr) g \<longleftrightarrow> has_group mr g" "has_group (on_snapshot_ready mr) g \<longleftrightarrow> has_group mr g"
  by (simp_all add: has_group_def on_leader_change_def on_snapshot_ready_def watches_groups Let_def)

text \<open>A node that runs on the configuration and has the groups, whatever the rest of the world is.\<close>

definition serves ::
  "('r, 's, 'e, 'l, 'm, 'v) mr_env \<Rightarrow> group_id set \<Rightarrow> cluster_config \<Rightarrow> ('r, 's, 'l, 'm) multi_raft \<Rightarrow> bool" where
  "serves env gs cfg n \<longleftrightarrow> (\<forall>w. node_reachable env cfg (n, w)) \<and> (\<forall>g\<in>gs. has_group n g)"

lemma servesI: "node_reachable env cfg (n, w) \<Longrightarrow> \<forall>g\<in>gs. has_group n g \<Longrightarrow> serves env gs cfg n"
  using node_reachable.stepped [OF _ node_step.elsewhere] by (fastforce simp: serves_def)

lemma serves_step:
  assumes "serves env gs cfg n" "node_step env (n, w) (n', w')" "\<forall>g\<in>gs'. has_group n' g"
  shows "serves env gs' cfg n'"
  using assms by (intro servesI [OF node_reachable.stepped [of env cfg "(n, w)"]]) (auto simp: serves_def)

lemma serves_create:
  assumes "serves env gs cfg n" "create_group env g ms n w = (r, n', w')"
  shows "serves env (if is_ok r then insert g gs else gs) cfg n'"
  by (rule serves_step [OF assms(1) node_step.create [OF assms(2)]])
    (use assms has_group_create [OF assms(2)] in \<open>auto simp: serves_def\<close>)

lemma serves_callbacks:
  assumes "serves env gs cfg n"
  shows "serves env gs cfg (on_leader_change cb n)" "serves env gs cfg (on_snapshot_ready n)"
  by (rule serves_step [OF assms node_step.leader_callback] serves_step [OF assms node_step.ready_callback],
      use assms in \<open>simp add: serves_def has_group_callbacks\<close>)+

subsection \<open>Node mode\<close>

lemma create_round_serves:
  assumes "serves env gs cfg n" "create_round env gids ms n w = (r, n', w')"
  shows "serves env (if is_ok r then gs \<union> set gids else gs) cfg n'"
  using assms
proof (induction gids arbitrary: gs n w)
  case (Cons g gids)
  obtain q n1 w1 where c: "create_group env g ms n w = (q, n1, w1)" by (metis prod_cases3)
  note s = serves_create [OF Cons.prems(1) c]
  show ?case
  proof (cases q)
    case (Ok u)
    with Cons.prems(2) c have "create_round env gids ms n1 w1 = (r, n', w')" by simp
    with Cons.IH [of "insert g gs" n1 w1] s Ok show ?thesis by (auto simp: serves_def split: if_splits)
  qed (use Cons.prems(2) c s in auto)
qed simp

lemma create_with_retries_serves:
  assumes "serves env gs cfg n" "0 < k \<or> le \<noteq> None" "create_with_retries k env gids ms le n w = (Ok (), n', w')"
  shows "serves env (gs \<union> set gids) cfg n'"
  using assms
proof (induction k arbitrary: le n w)
  case (Suc k)
  obtain q n1 w1 where c: "create_round env gids ms n w = (q, n1, w1)" by (metis prod_cases3)
  note s = create_round_serves [OF Suc.prems(1) c]
  show ?case
  proof (cases q)
    case (Ok u)
    then show ?thesis using Suc.prems(3) c s by auto
  next
    case (Err e)
    then show ?thesis using Suc.IH [of n1 "Some e" w1] Suc.prems(3) c s by simp
  qed (use Suc.prems(3) c in simp)
qed auto

lemma run_node_serves:
  assumes "run_node env fuel seen late standby_env a w = (Some (Ok st), w')"
  shows "ds_group_ids st = zero_upto (arg_groups a) \<and>
    (\<exists>cfgs. map Ok cfgs = [node_config standby_env a] \<and> list_all2 (serves env (set (ds_group_ids st))) cfgs (ds_nodes st))"
proof -
  obtain cfg where cfg: "node_config standby_env a = Ok cfg"
    using assms by (auto simp: run_node_def split: outcome.splits)
  obtain u fs1 where d: "fs_create_dir_all (me_os env) (arg_data_dir a) (wd_fs w) = (Ok u, fs1)"
    using assms cfg by (auto simp: run_node_def split: outcome.splits prod.splits)
  obtain n w1 where n: "start_grpc_inner env cfg (w\<lparr>wd_fs := fs1\<rparr>) = (Ok n, w1)"
    using assms cfg d by (auto simp: run_node_def split: outcome.splits prod.splits)
  obtain n' where g: "node_groups env a n w1 = (Ok (), n', w')"
    and st: "st = node_state a (cfg_node_id cfg)
      (if cfg_role cfg = Standby then on_snapshot_ready (on_leader_change 0 n') else on_leader_change 0 n')"
    using assms cfg d n by (auto simp: run_node_def Let_def split: outcome.splits prod.splits option.splits if_splits)
  have "serves env {} cfg n" by (rule servesI [OF node_reachable.started_grpc [OF n]]) simp
  then have "serves env (set (zero_upto (arg_groups a))) cfg n'"
    using create_with_retries_serves [OF _ _ g [unfolded node_groups_def], of "{}" cfg] by simp
  then have "list_all2 (serves env (set (ds_group_ids st))) [cfg] (ds_nodes st)"
    by (simp add: st node_state_def serves_callbacks)
  moreover have "map Ok [cfg] = [node_config standby_env a]" using cfg by simp
  ultimately have "\<exists>cfgs. map Ok cfgs = [node_config standby_env a] \<and> list_all2 (serves env (set (ds_group_ids st))) cfgs (ds_nodes st)"
    by (intro exI [of _ "[cfg]"] conjI)
  then show ?thesis by (simp add: st node_state_def)
qed

subsection \<open>Cluster mode\<close>

lemma start_nodes_serve:
  "start_nodes env cfgs w = (Ok ns, w') \<Longrightarrow> list_all2 (serves env {}) cfgs ns"
proof (induction cfgs arbitrary: w ns)
  case (Cons cfg cfgs)
  obtain n w1 where n: "start_inner env cfg w = (Ok n, w1)"
    using Cons.prems by (auto split: prod.splits outcome.splits)
  then obtain ns1 where "start_nodes env cfgs w1 = (Ok ns1, w')" "ns = n # ns1"
    using Cons.prems by (auto split: prod.splits outcome.splits)
  with Cons.IH servesI [OF node_reachable.started [OF n], of "{}"] show ?case by simp
qed simp

lemma create_on_nodes_serve:
  assumes "list_all2 (serves env gs) cfgs ns" "create_on_nodes env g ms ns w = (Ok (), ns', w')"
  shows "list_all2 (serves env (insert g gs)) cfgs ns'"
  using assms
proof (induction cfgs ns arbitrary: w ns' rule: list_all2_induct)
  case (Cons cfg cfgs n ns)
  obtain n1 w1 where c: "create_group env g ms n w = (Ok (), n1, w1)"
    using Cons.prems by (auto split: prod.splits outcome.splits)
  then obtain ns1 where "create_on_nodes env g ms ns w1 = (Ok (), ns1, w')" "ns' = n1 # ns1"
    using Cons.prems by (auto split: prod.splits outcome.splits)
  with Cons.IH serves_create [OF Cons.hyps(1) c] show ?case by simp
qed simp

lemma create_groups_serve:
  assumes "list_all2 (serves env gs) cfgs ns" "create_groups env gids ms ns w = (Ok (), ns', w')"
  shows "list_all2 (serves env (gs \<union> set gids)) cfgs ns'"
  using assms
proof (induction gids arbitrary: gs ns w)
  case (Cons g gids)
  obtain ns1 w1 where c: "create_on_nodes env g ms ns w = (Ok (), ns1, w1)"
    using Cons.prems(2) by (auto split: prod.splits outcome.splits)
  with Cons.IH [OF create_on_nodes_serve [OF Cons.prems(1) c]] Cons.prems(2) show ?case by simp
qed simp

lemma run_cluster_serves:
  assumes "run_cluster env rounds a fs = (Ok st, w)"
  shows "ds_group_ids st = zero_upto (arg_groups a) \<and>
    list_all2 (serves env (set (ds_group_ids st))) (cluster_configs a) (ds_nodes st)"
proof -
  obtain fs1 ns w1 where ns: "start_cluster env (cluster_configs a) fs1 = (Ok ns, w1)"
    and r: "(case create_groups env (zero_upto (arg_groups a)) (one_to (arg_nodes a)) ns w1 of
       (Err e, ns', w2) \<Rightarrow> (Err (show_multiraft_error e), w2)
     | (Panicked, ns', w2) \<Rightarrow> (Panicked, w2)
     | (Ok _, ns', w2) \<Rightarrow>
         (case await_leaders env rounds (zero_upto (arg_groups a)) of
            Err e \<Rightarrow> Err e
          | Panicked \<Rightarrow> Panicked
          | Ok _ \<Rightarrow> Ok (cluster_state a (map (on_leader_change 0) ns')), w2)) = (Ok st, w)"
    using assms by (auto simp: run_cluster_def Let_def split: outcome.splits prod.splits)
  obtain ns' where c: "create_groups env (zero_upto (arg_groups a)) (one_to (arg_nodes a)) ns w1 = (Ok (), ns', w)"
    and st: "st = cluster_state a (map (on_leader_change 0) ns')"
    using r by (auto split: outcome.splits prod.splits)
  from start_nodes_serve [OF ns [unfolded start_cluster_def]] c
  have "list_all2 (serves env ({} \<union> set (zero_upto (arg_groups a)))) (cluster_configs a) ns'"
    by (rule create_groups_serve)
  then have "list_all2 (serves env (set (zero_upto (arg_groups a)))) (cluster_configs a) (map (on_leader_change 0) ns')"
    by (auto simp: list.rel_map serves_callbacks elim!: list_all2_mono)
  then show ?thesis by (simp add: st cluster_state_def)
qed

subsection \<open>Both modes\<close>

lemma main_counts:
  assumes "main env rounds fuel seen late standby_env a fs = (Some (Ok st), w, auto)"
  shows "arg_nodes a \<noteq> 0 \<and> arg_groups a \<noteq> 0"
proof -
  have "validate_counts a = Ok ()"
    using assms by (auto simp: main_def run_cluster_def run_node_def node_config_def Let_def
        split: mode.splits outcome.splits prod.splits option.splits if_splits)
  then show ?thesis by (auto simp: validate_counts_def split: if_splits)
qed

lemma main_serves:
  assumes "main env rounds fuel seen late standby_env a fs = (Some (Ok st), w, auto)"
  shows "ds_group_ids st = zero_upto (arg_groups a) \<and>
    (\<exists>cfgs. map Ok cfgs = (case arg_mode a of ClusterMode \<Rightarrow> map Ok (cluster_configs a) | NodeMode \<Rightarrow> [node_config standby_env a]) \<and>
      list_all2 (serves env (set (ds_group_ids st))) cfgs (ds_nodes st))"
proof (cases "arg_mode a")
  case ClusterMode
  then have "run_cluster env rounds a fs = (Ok st, w)" using assms by (auto simp: main_def split: prod.splits)
  from run_cluster_serves [OF this] ClusterMode show ?thesis by auto
next
  case NodeMode
  then have "run_node env fuel seen late standby_env a \<lparr>wd_fabric = shared_fabric_new, wd_fs = fs\<rparr> = (Some (Ok st), w)"
    using assms by (auto simp: main_def split: prod.splits)
  from run_node_serves [OF this] NodeMode show ?thesis unfolding NodeMode mode.case by blast
qed

lemma main_keys:
  assumes "main env rounds fuel seen late standby_env a fs = (Some (Ok st), w, auto)"
  shows "ds_idem st = 1 \<and> (\<exists>nid. ds_node_id_base st = push_bit 32 nid)"
  using assms
  by (auto simp: main_def run_cluster_def run_node_def cluster_state_def node_state_def Let_def intro: exI [of _ 0]
      split: mode.splits outcome.splits prod.splits option.splits)

text \<open>
  C10. Start-up. When \<^verbatim>\<open>main\<close> reaches its admin server, the process has the nodes its
  command line asks for and no others: one for each configuration of the cluster, in
  order, or the one of node mode. Each of them is in a state its life cycle can reach on
  its configuration, and has a local peer of every one of the
  \<^verbatim>\<open>0..groups\<close> groups the handlers accept, whatever rounds of retries it took. There is
  at least one node and one group.
\<close>

theorem startup_serves_all_groups:
  assumes "main env rounds fuel seen late standby_env a fs = (Some (Ok st), w, auto)"
  shows "ds_group_ids st = zero_upto (arg_groups a) \<and> ds_group_ids st \<noteq> [] \<and> ds_nodes st \<noteq> [] \<and>
    (\<exists>cfgs. map Ok cfgs = (case arg_mode a of ClusterMode \<Rightarrow> map Ok (cluster_configs a) | NodeMode \<Rightarrow> [node_config standby_env a]) \<and>
      list_all2 (\<lambda>cfg n. node_reachable env cfg (n, w) \<and> (\<forall>g\<in>set (ds_group_ids st). has_group n g)) cfgs (ds_nodes st))"
proof -
  note s = main_serves [OF assms]
  then obtain cfgs where c:
    "map Ok cfgs = (case arg_mode a of ClusterMode \<Rightarrow> map Ok (cluster_configs a) | NodeMode \<Rightarrow> [node_config standby_env a])"
    "list_all2 (serves env (set (ds_group_ids st))) cfgs (ds_nodes st)"
    by blast
  have counts: "arg_nodes a \<noteq> 0 \<and> arg_groups a \<noteq> 0" by (rule main_counts [OF assms])
  then have "length cfgs \<noteq> 0"
    using arg_cong [OF c(1), of length] by (auto simp: cluster_configs_def one_to_Suc unat_eq_0 split: mode.splits)
  with c(2) have "ds_nodes st \<noteq> []" by (auto dest: list_all2_lengthD)
  moreover have "zero_upto (arg_groups a) \<noteq> []" using counts by (simp add: zero_upto_def unat_eq_0)
  moreover have "list_all2 (\<lambda>cfg n. node_reachable env cfg (n, w) \<and> (\<forall>g\<in>set (ds_group_ids st). has_group n g)) cfgs (ds_nodes st)"
    using c(2) by (rule list_all2_mono) (simp add: serves_def)
  ultimately show ?thesis using s c(1) by auto
qed

definition sample_args :: args where
  "sample_args = args_default\<lparr>arg_mode := NodeMode, arg_node_id := Some 2, arg_groups := 2, arg_data_dir := []\<rparr>"

text \<open>Creating a group on a voter of node mode without a data directory.\<close>

definition plain_voter :: "node_id list \<Rightarrow> group_id set \<Rightarrow> ('r, 's, 'l, 'm) multi_raft \<Rightarrow> bool" where
  "plain_voter ms free n \<longleftrightarrow>
     cfg_data_dir (mr_config n) = [] \<and> cfg_snapshot_mode (mr_config n) = Disabled \<and> cfg_role (mr_config n) = Voter \<and>
     (\<exists>rt. mr_net n = Grpc rt) \<and> sr_catalog (mr_snapshot_rt n) = None \<and> mr_node_id n \<in> set ms \<and>
     membership_nodes (mr_config n) ms \<noteq> [] \<and> (\<forall>g\<in>free. bt_get (mr_groups n) g = None)"

lemma plain_voter_create:
  assumes "plain_voter ms free n" "g \<in> free"
  shows "\<exists>n'. create_group solo_env g ms n w = (Ok (), n', w) \<and> plain_voter ms (free - {g}) n'"
  using assms
  by (auto simp: plain_voter_def create_group_def bt_contains_key_def spawn_local_group_def group_options_def open_log_def
      solo_new_def spawn_leader_watch_def try_initialize_def mr_raft_def mr_set_raft_def set_raft_def bt_get_insert solo_initialize_def Let_def)

lemma plain_voter_round:
  "plain_voter ms free n \<Longrightarrow> set gids \<subseteq> free \<Longrightarrow> distinct gids \<Longrightarrow>
   \<exists>n'. create_round solo_env gids ms n w = (Ok (), n', w)"
proof (induction gids arbitrary: free n)
  case (Cons g gids)
  then obtain n1 where c: "create_group solo_env g ms n w = (Ok (), n1, w)" "plain_voter ms (free - {g}) n1"
    using plain_voter_create [of ms free n g w] by auto
  then show ?case using Cons.IH [OF c(2)] Cons.prems by auto
qed simp

lemma create_at_once:
  "create_round env gids ms n w = (Ok (), n', w') \<Longrightarrow> 0 < k \<Longrightarrow> create_with_retries k env gids ms le n w = (Ok (), n', w')"
  by (cases k) simp_all

lemma sample_node_config:
  "node_config False sample_args =
     Ok \<lparr>cfg_node_id = 2, cfg_peers = [(1, loopback 21000), (2, loopback 21001), (3, loopback 21002)], cfg_data_dir = [],
        cfg_heartbeat_interval_ms = 100, cfg_election_timeout_min_ms = 300, cfg_election_timeout_max_ms = 600,
        cfg_role = Voter, cfg_snapshot_mode = Disabled, cfg_snapshot_keep = 2,
        cfg_admin_advertise_addr = Some (loopback 21101)\<rparr>"
proof -
  have "one_to 3 = [1, 2, 3]" by (simp add: one_to_def upt_rec)
  then have "peer_addrs 21000 3 = [(1, loopback 21000), (2, loopback 21001), (3, loopback 21002)]"
    by (simp add: peer_addrs_def saturating_add_u16_def saturating_sub_u16_def)
  moreover have "admin_addr_for_node 21000 2 = loopback 21101"
    by (simp add: admin_addr_for_node_def saturating_add_u16_def saturating_sub_u16_def)
  ultimately show ?thesis by (simp add: node_config_def sample_args_def args_default_def validate_counts_def)
qed

lemma sample_main: "\<exists>st w. main solo_env (\<lambda>_. []) 1 (\<lambda>_ _. Some 1) (\<lambda>_. False) False sample_args [] = (Some (Ok st), w, True)"
proof -
  have a: "zero_upto (arg_groups sample_args) = [0, 1]" "arg_data_dir sample_args = []" "arg_mode sample_args = NodeMode"
    "one_to (arg_nodes sample_args) = [1, 2, 3]" "auto_proposes sample_args"
    by (simp_all add: sample_args_def args_default_def zero_upto_def one_to_def auto_proposes_def upt_rec)
  obtain cfg where cfg: "node_config False sample_args = Ok cfg" "cfg_node_id cfg = 2" "cfg_data_dir cfg = []" "cfg_role cfg = Voter"
    "cfg_snapshot_mode cfg = Disabled" "cfg_peers cfg = [(1, loopback 21000), (2, loopback 21001), (3, loopback 21002)]"
    using sample_node_config by simp
  define w0 where "w0 = \<lparr>wd_fabric = shared_fabric_new, wd_fs = []\<rparr>"
  have d: "fs_create_dir_all calm_os [] [] = (Ok (), [])" by (simp add: fs_create_dir_all_def)
  obtain n where n: "start_grpc_inner solo_env cfg w0 = (Ok n, w0)" "plain_voter [1, 2, 3] UNIV n"
    using cfg by (simp add: start_grpc_inner_def peer_addr_def snapshot_runtime_new_def fresh_node_def w0_def plain_voter_def
        membership_nodes_def bt_get_def bt_insert_def Let_def)
  obtain n' where r: "create_round solo_env [0, 1] [1, 2, 3] n w0 = (Ok (), n', w0)"
    using plain_voter_round [OF n(2), of "[0, 1]" w0] by auto
  have "node_groups solo_env sample_args n w0 = (Ok (), n', w0)"
    unfolding node_groups_def a by (rule create_at_once [OF r]) simp
  moreover have w0: "wd_fs w0 = []" "w0\<lparr>wd_fs := []\<rparr> = w0" by (simp_all add: w0_def)
  moreover have "await_local_leaders 1 (\<lambda>_ _. Some 1) (\<lambda>_. False) Voter 2 [0, 1] = Some (Ok ())"
    by (simp add: await_local_leaders_def)
  ultimately show ?thesis
    using cfg by (simp add: main_def run_node_def a d w0_def [symmetric] w0 n(1))
qed

theorem startup_serves_all_groups_witness:
  "\<exists>st w. main solo_env (\<lambda>_. []) 1 (\<lambda>_ _. Some 1) (\<lambda>_. False) False sample_args [] = (Some (Ok st), w, True) \<and>
     (\<exists>n. ds_nodes st = [n] \<and> has_group n 0 \<and> has_group n 1)"
proof -
  obtain st w where m: "main solo_env (\<lambda>_. []) 1 (\<lambda>_ _. Some 1) (\<lambda>_. False) False sample_args [] = (Some (Ok st), w, True)"
    using sample_main by blast
  have "arg_mode sample_args = NodeMode" "zero_upto (arg_groups sample_args) = [0, 1]"
    by (simp_all add: sample_args_def args_default_def zero_upto_def upt_rec)
  with startup_serves_all_groups [OF m] have "\<exists>n. ds_nodes st = [n] \<and> has_group n 0 \<and> has_group n 1"
    by (auto simp: list_all2_Cons1 map_eq_Cons_conv)
  with m show ?thesis by blast
qed

subsection \<open>Retries\<close>

text \<open>The node and the world after a number of rounds, and the next round from there.\<close>

definition nth_round ::
  "('r, 's, 'e, 'l, 'm, 'v) mr_env \<Rightarrow> group_id list \<Rightarrow> node_id list \<Rightarrow> ('r, 's, 'l, 'm) multi_raft \<times> world \<Rightarrow> nat \<Rightarrow>
   (group_id \<times> multiraft_error, unit) outcome \<times> ('r, 's, 'l, 'm) multi_raft \<times> world" where
  "nth_round env gids ms s i =
     (case ((\<lambda>(n, w). snd (create_round env gids ms n w)) ^^ i) s of (n, w) \<Rightarrow> create_round env gids ms n w)"

lemma nth_round_0: "nth_round env gids ms (n, w) 0 = create_round env gids ms n w"
  by (simp add: nth_round_def)

lemma nth_round_Suc:
  assumes "create_round env gids ms n w = (r, n', w')"
  shows "nth_round env gids ms (n, w) (Suc i) = nth_round env gids ms (n', w') i"
  using assms by (simp add: nth_round_def funpow_swap1)

fun show_retry_error :: "group_id \<times> multiraft_error \<Rightarrow> string" where
  "show_retry_error (g, e) = ''create_group '' @ show_u64 g @ '' failed after retries: '' @ show_multiraft_error e"

text \<open>The first round that does not fail decides; when all fail, the last error is reported.\<close>

definition retry_result ::
  "((group_id \<times> multiraft_error, unit) outcome \<times> 's) list \<Rightarrow> (string, unit) outcome \<times> 's" where
  "retry_result rounds =
     (case find (\<lambda>(r, _). is_ok r \<or> r = Panicked) rounds of
        Some (Ok _, s) \<Rightarrow> (Ok (), s)
      | Some (_, s) \<Rightarrow> (Panicked, s)
      | None \<Rightarrow> (case last rounds of (Err e, s) \<Rightarrow> (Err (show_retry_error e), s) | (_, s) \<Rightarrow> (Panicked, s)))"

lemma retry_result_skip: "rest \<noteq> [] \<Longrightarrow> retry_result ((Err e, s) # rest) = retry_result rest"
  by (simp add: retry_result_def split: option.split)

lemma upt_Suc_shift: "map f [0..<Suc k] = f 0 # map (\<lambda>i. f (Suc i)) [0..<k]"
  by (simp add: upt_conv_Cons map_Suc_upt [symmetric] comp_def del: upt_Suc)

lemma create_with_retries_rounds:
  "create_with_retries (Suc k) env gids ms le n w = retry_result (map (nth_round env gids ms (n, w)) [0..<Suc k])"
proof (induction k arbitrary: le n w)
  case 0
  show ?case
    by (cases "create_round env gids ms n w"; cases "fst (create_round env gids ms n w)")
      (auto simp: retry_result_def nth_round_0)
next
  case (Suc k)
  obtain q n1 w1 where c: "create_round env gids ms n w = (q, n1, w1)" by (metis prod_cases3)
  let ?rest = "map (nth_round env gids ms (n1, w1)) [0..<Suc k]"
  have rounds: "map (nth_round env gids ms (n, w)) [0..<Suc (Suc k)] = (q, n1, w1) # ?rest"
    unfolding upt_Suc_shift [of _ "Suc k"] nth_round_Suc [OF c] nth_round_0 c ..
  show ?case
  proof (cases q)
    case (Err e)
    then have "create_with_retries (Suc (Suc k)) env gids ms le n w = retry_result ?rest" using c Suc.IH by simp
    also have "\<dots> = retry_result ((q, n1, w1) # ?rest)" unfolding Err by (rule retry_result_skip [symmetric]) simp
    finally show ?thesis unfolding rounds .
  qed (use c in \<open>simp_all add: rounds retry_result_def del: upt_Suc\<close>)
qed

text \<open>
  C40. Group creation in node mode is retried, and ends. It is decided within 20 rounds over
  the groups: the first round that creates them all ends it with success, on the node that
  round left, and no later round runs; a round that panics ends the process; and when all 20
  fail, the error names the group and the reason of the last round.
\<close>

theorem node_groups_ends:
  "node_groups env a n w =
     retry_result (map (nth_round env (zero_upto (arg_groups a)) (one_to (arg_nodes a)) (n, w)) [0..<20])"
proof -
  have "(20 :: nat) = Suc 19" by simp
  then show ?thesis unfolding node_groups_def by (metis create_with_retries_rounds)
qed

end
