(* ===== verification/Demo_Runs.thy ===== *)
theory Demo_Runs
  imports Demo_Start
begin

section \<open>A running process\<close>

text \<open>
  What a process of the demo does once it has started: requests, the propose loop, the
  status loop and the work of its nodes, interleaved. The handlers wait for their nodes in
  between, so the runs are built from the smallest pieces that nothing interrupts: one
  operation of one node, and drawing one key. Every handler is such a run, and what holds
  of all runs holds however the handlers are interleaved.
\<close>

subsection \<open>Runs\<close>

inductive nodes_run ::
  "('r, 's, 'e, 'l, 'm, 'v) mr_env \<Rightarrow> ('r, 's, 'l, 'm) multi_raft list \<times> world \<Rightarrow> ('r, 's, 'l, 'm) multi_raft list \<times> world \<Rightarrow> bool"
  for env where
  idle [intro!, simp]: "nodes_run env s s"
| works: "nodes_run env s (ns, w) \<Longrightarrow> i < length ns \<Longrightarrow> node_step env (ns ! i, w) (n', w') \<Longrightarrow> nodes_run env s (ns[i := n'], w')"

inductive process_run ::
  "('r, counter_fsm, 'e, 'l, 'm, 'v) mr_env \<Rightarrow> u64 list \<Rightarrow> ('r, 'l, 'm) demo_state \<times> world \<Rightarrow> ('r, 'l, 'm) demo_state \<times> world \<Rightarrow> bool"
  for env where
  rests [intro!, simp]: "process_run env [] s s"
| acts: "process_run env ks s (st, w) \<Longrightarrow> nodes_run env (ds_nodes st, w) (ns, w') \<Longrightarrow>
     process_run env ks s (st\<lparr>ds_nodes := ns\<rparr>, w')"
| draws: "process_run env ks s (st, w) \<Longrightarrow> next_idem st = (k, st') \<Longrightarrow> process_run env (ks @ [k]) s (st', w)"

lemma nodes_run_trans:
  assumes "nodes_run env s2 s3" "nodes_run env s1 s2"
  shows "nodes_run env s1 s3"
  using assms by induction (auto intro: nodes_run.works)

lemma nodes_run_tail: "nodes_run env (ns, w) (ns', w') \<Longrightarrow> nodes_run env (n # ns, w) (n # ns', w')"
proof (induction "(ns, w)" "(ns', w')" arbitrary: ns' w' rule: nodes_run.induct)
  case (works ms v i n' v')
  from nodes_run.works [OF works(2), of "Suc i"] works(3,4) show ?case by simp
qed simp

lemma nodes_run_head: "node_step env (n, w) (n', w') \<Longrightarrow> nodes_run env (n # ns, w) (n' # ns, w')"
  using nodes_run.works [OF nodes_run.idle, of 0 "n # ns" env w n' w'] by simp

lemma nodes_run_Cons:
  "node_step env (n, w) (n', w1) \<Longrightarrow> nodes_run env (ns, w1) (ns', w') \<Longrightarrow> nodes_run env (n # ns, w) (n' # ns', w')"
  by (rule nodes_run_trans [OF nodes_run_tail nodes_run_head])

lemmas nodes_runs = nodes_run_tail nodes_run_head nodes_run_Cons

lemma process_run_trans:
  assumes "process_run env ls s2 s3" "process_run env ks s1 s2"
  shows "process_run env (ks @ ls) s1 s3"
  using assms by induction (auto intro: process_run.acts process_run.draws simp flip: append_assoc)

lemma process_run_nodes:
  "nodes_run env (ds_nodes st, w) (ns, w') \<Longrightarrow> process_run env [] (st, w) (st\<lparr>ds_nodes := ns\<rparr>, w')"
  by (rule process_run.acts [OF process_run.rests])

lemma process_run_draw: "next_idem st = (k, st') \<Longrightarrow> process_run env [k] (st, w) (st', w)"
  using process_run.draws [OF process_run.rests, of st k st'] by simp

subsection \<open>Operations on one node\<close>

text \<open>What the loops over the nodes rely on: the operation they try is a step of its node.\<close>

locale node_operation =
  fixes env :: "('r, counter_fsm, 'e, 'l, 'm, 'v) mr_env" and op :: "('r, 'l, 'm, 'a) node_op"
  assumes op_step: "op n w = (r, n', w') \<Longrightarrow> node_step env (n, w) (n', w')"
begin

lemma try_leaders_run: "try_leaders leads op ns w = (r, ns', w') \<Longrightarrow> nodes_run env (ns, w) (ns', w')"
proof (induction ns arbitrary: w r ns' w')
  case (Cons n ns)
  obtain q n1 w1 where o: "op n w = (q, n1, w1)" by (metis prod_cases3)
  show ?case
    using Cons.prems Cons.IH op_step [OF o] o
    by (auto intro: nodes_runs split: if_splits prod.splits outcome.splits multiraft_error.splits)
qed simp

lemma try_all_run: "try_all op e ns w = (r, ns', w') \<Longrightarrow> nodes_run env (ns, w) (ns', w')"
proof (induction ns arbitrary: e w r ns' w')
  case (Cons n ns)
  obtain q n1 w1 where o: "op n w = (q, n1, w1)" by (metis prod_cases3)
  show ?case
    using Cons.prems Cons.IH [where r = r] op_step [OF o] o
    by (auto intro: nodes_runs split: prod.splits outcome.splits multiraft_error.splits)
qed simp

end

lemma read_linearizable_step:
  assumes "read_linearizable env g f n w = (r, n', w')"
  shows "node_step env (n, w) (n', w')"
proof -
  have "snd (read_linearizable env g f n w) = snd (read_linearizable env g id n w)"
    by (simp add: read_linearizable_def split: prod.split outcome.split)
  then obtain q where "read_linearizable env g id n w = (q, n', w')"
    using assms by (cases "read_linearizable env g id n w") auto
  then show ?thesis by (rule node_step.read)
qed

interpretation proposing: node_operation env "propose env g d" for env g d
  by unfold_locales (rule node_step.proposal)

interpretation triggering: node_operation env "trigger_standby_snapshot env g" for env g
  by unfold_locales (rule node_step.trigger)

interpretation adding: node_operation env "add_standby env g i" for env g i
  by unfold_locales (rule node_step.standby)

interpretation reading: node_operation env "read_linearizable env g f" for env g and f :: "counter_fsm \<Rightarrow> i64"
  by unfold_locales (rule read_linearizable_step)

lemma try_reads_run:
  "try_reads sel (read_linearizable env g f) ns w = (r, ns', w') \<Longrightarrow> nodes_run env (ns, w) (ns', w')"
proof (induction ns arbitrary: w r ns' w')
  case (Cons n ns)
  obtain q n1 w1 where o: "read_linearizable env g f n w = (q, n1, w1)" by (metis prod_cases3)
  show ?case
    using Cons.prems Cons.IH reading.op_step [OF o] o
    by (auto intro: nodes_runs split: if_splits prod.splits outcome.splits)
qed simp

lemma best_effort_run:
  assumes "read_group_value_best_effort env g ns w = (r, ns', w')"
  shows "nodes_run env (ns, w) (ns', w')"
proof -
  let ?rd = "read_linearizable env g (\<lambda>f. counter_value f g)"
  obtain q1 ns1 w1 where t1: "try_reads (\<lambda>n. is_leader env n g) ?rd ns w = (q1, ns1, w1)" by (metis prod_cases3)
  obtain q2 ns2 w2 where t2: "try_reads (\<lambda>_. True) ?rd ns1 w1 = (q2, ns2, w2)" by (metis prod_cases3)
  have "(ns', w') = (ns1, w1) \<or> (ns', w') = (ns2, w2)"
    using assms t1 t2 by (auto simp: read_group_value_best_effort_def split: option.splits outcome.splits)
  then show ?thesis using try_reads_run [OF t1] nodes_run_trans [OF try_reads_run [OF t2] try_reads_run [OF t1]] by auto
qed

lemma status_lines_run: "status_lines env l gs ns w = (r, ns', w') \<Longrightarrow> nodes_run env (ns, w) (ns', w')"
proof (induction gs arbitrary: ns w r)
  case (Cons g gs)
  obtain q ns1 w1 where b: "read_group_value_best_effort env g ns w = (q, ns1, w1)" by (metis prod_cases3)
  obtain r2 ns2 w2 where s: "status_lines env l gs ns1 w1 = (r2, ns2, w2)" by (metis prod_cases3)
  have "(ns', w') = (ns1, w1) \<or> (ns', w') = (ns2, w2)"
    using Cons.prems b s by (auto simp: Let_def split: outcome.splits prod.splits)
  then show ?case
    using best_effort_run [OF b] nodes_run_trans [OF Cons.IH [of ns1 w1 r2] best_effort_run [OF b]] s by auto
qed simp

lemma shutdown_first_run: "shutdown_first env i ns w = (r, ns', w') \<Longrightarrow> nodes_run env (ns, w) (ns', w')"
proof (induction ns arbitrary: r ns')
  case (Cons n ns)
  obtain q n1 w1 where o: "shutdown env n w = (q, n1, w1)" by (metis prod_cases3)
  show ?case
    using Cons.prems Cons.IH node_step.stop [OF o] o
    by (auto intro: nodes_runs split: if_splits prod.splits outcome.splits)
qed simp

lemma propose_on_leader_run: "propose_on_leader cenv env g k ns w = (r, ns', w') \<Longrightarrow> nodes_run env (ns, w) (ns', w')"
proof (induction ns arbitrary: r ns')
  case (Cons n ns)
  show ?case
    using Cons by (auto intro: nodes_runs node_step.proposal split: if_splits prod.splits outcome.splits)
qed simp

subsection \<open>Handlers\<close>

text \<open>The keys a request draws: one for an increment of a known group that brings none.\<close>

fun keys_of_request :: "admin_request \<Rightarrow> ('r, 'l, 'm) demo_state \<Rightarrow> u64 list" where
  "keys_of_request (GroupInc g body) st =
     (if g \<in> set (ds_group_ids st) \<and> ir_idem body = None then [fst (next_idem st)] else [])"
| "keys_of_request _ st = []"

lemma group_inc_run:
  assumes "group_inc cenv env g body st w = (r, st', w')"
  shows "process_run env (keys_of_request (GroupInc g body) st) (st, w) (st', w')"
proof (cases "g \<in> set (ds_group_ids st)")
  case True
  obtain k st1 where k: "(case ir_idem body of Some i \<Rightarrow> (i, st) | None \<Rightarrow> next_idem st) = (k, st1)" by (metis surj_pair)
  have ks: "process_run env (keys_of_request (GroupInc g body) st) (st, w) (st1, w)"
    using k True by (auto intro: process_run_draw split: option.splits)
  have "\<exists>ns. st' = st1\<lparr>ds_nodes := ns\<rparr> \<and> nodes_run env (ds_nodes st1, w) (ns, w')"
  proof (cases "encode_add cenv (ir_delta body) k")
    case (Ok d)
    obtain q1 ns1 w1 where t1: "try_leaders (\<lambda>n. is_leader env n g) (propose env g d) (ds_nodes st1) w = (q1, ns1, w1)"
      by (metis prod_cases3)
    obtain q2 ns2 w2 where t2: "try_all (propose env g d) None ns1 w1 = (q2, ns2, w2)" by (metis prod_cases3)
    have "(st', w') = (st1\<lparr>ds_nodes := ns1\<rparr>, w1) \<or> (st', w') = (st1\<lparr>ds_nodes := ns2\<rparr>, w2)"
      using assms True k Ok t1 t2 by (auto simp: group_inc_def split: option.splits prod.splits)
    then show ?thesis
      using proposing.try_leaders_run [OF t1] nodes_run_trans [OF proposing.try_all_run [OF t2] proposing.try_leaders_run [OF t1]]
      by auto
  qed (use assms True k in \<open>auto simp: group_inc_def intro!: exI [of _ "ds_nodes st1"]\<close>)
  then show ?thesis using process_run.acts [OF ks] by blast
qed (use assms in \<open>auto simp: group_inc_def\<close>)

lemma propose_group_run:
  assumes "propose_group cenv env g st w = (r, st', w')"
  shows "\<exists>ks. length ks \<le> 1 \<and> process_run env ks (st, w) (st', w')"
proof (cases "list_ex (\<lambda>n. is_leader env n g) (ds_nodes st)")
  case True
  obtain k st1 where k: "next_idem st = (k, st1)" by (metis surj_pair)
  obtain q ns w1 where p: "propose_on_leader cenv env g k (ds_nodes st1) w = (q, ns, w1)" by (metis prod_cases3)
  have "process_run env [k] (st, w) (st', w')"
    using process_run.acts [OF process_run_draw [OF k] propose_on_leader_run [OF p]] assms True k p
    by (auto simp: propose_group_def)
  then show ?thesis by (intro exI [of _ "[k]"]) simp
qed (use assms in \<open>auto simp: propose_group_def intro: exI [of _ "[]"]\<close>)

lemma propose_round_run:
  "propose_round cenv env gs st w = (r, st', w') \<Longrightarrow> \<exists>ks. length ks \<le> length gs \<and> process_run env ks (st, w) (st', w')"
proof (induction gs arbitrary: st w)
  case (Cons g gs)
  obtain q st1 w1 where p: "propose_group cenv env g st w = (q, st1, w1)" by (metis prod_cases3)
  obtain ks where ks: "length ks \<le> 1" "process_run env ks (st, w) (st1, w1)" using propose_group_run [OF p] by blast
  show ?case
  proof (cases "q = Some Panicked")
    case True
    then show ?thesis using Cons.prems p ks by (intro exI [of _ ks]) auto
  next
    case False
    then have "propose_round cenv env gs st1 w1 = (r, st', w')"
      using Cons.prems p by (auto split: option.splits outcome.splits)
    from Cons.IH [OF this] obtain ls where "length ls \<le> length gs" "process_run env ls (st1, w1) (st', w')" by blast
    then show ?thesis using ks process_run_trans [OF _ ks(2), of ls] by (intro exI [of _ "ks @ ls"]) auto
  qed
qed (auto intro: exI [of _ "[]"])

lemma serve_admin_run:
  assumes "serve_admin web cenv env req st w = (r, st', w')"
  shows "process_run env (keys_of_request req st) (st, w) (st', w')"
proof (cases req)
  case (GroupValue g)
  then show ?thesis using assms
    by (auto simp: group_value_def Let_def intro: process_run_nodes best_effort_run split: prod.splits if_splits)
next
  case (ShutdownNode i)
  then show ?thesis using assms
    by (auto simp: shutdown_node_def intro: process_run_nodes shutdown_first_run split: prod.splits)
next
  case (StandbySnapshot g)
  then show ?thesis using assms
    by (auto simp: admin_standby_snapshot_def intro: process_run_nodes triggering.try_leaders_run split: prod.splits if_splits option.splits)
next
  case (AddStandby g i)
  then show ?thesis using assms
    by (auto simp: admin_add_standby_def intro: process_run_nodes adding.try_leaders_run split: prod.splits option.splits)
next
  case (PostSnapshotAd ad)
  then show ?thesis using assms
    by (auto simp: admin_post_snapshot_ad_def intro!: process_run_nodes nodes_run_head node_step.advertise split: prod.splits list.splits)
next
  case (GroupInc g body)
  then obtain q where "group_inc cenv env g body st w = (q, st', w')" using assms by (auto split: prod.splits)
  from group_inc_run [OF this] show ?thesis unfolding GroupInc .
qed (use assms in \<open>auto split: prod.splits\<close>)

lemma print_status_run:
  assumes "print_status env st w = (r, st', w')"
  shows "process_run env [] (st, w) (st', w')"
  using assms by (auto simp: print_status_def intro: process_run_nodes status_lines_run split: prod.splits)

text \<open>
  C12. Handlers are runs. Every request, whichever way it ends, every round of the propose
  loop and every status report is a run of single operations on the nodes of the process,
  and of draws of keys: an increment draws one key exactly when its group is known and it
  brings no key, no other request draws one, and a round at most one for each group.
\<close>

theorem handlers_are_runs:
  "process_run env (keys_of_request req st) (st, w) (snd (serve_admin web cenv env req st w)) \<and>
   (\<exists>ks. length ks \<le> length gs \<and> process_run env ks (st, w) (snd (propose_round cenv env gs st w))) \<and>
   process_run env [] (st, w) (snd (print_status env st w))"
proof (intro conjI)
  show "process_run env (keys_of_request req st) (st, w) (snd (serve_admin web cenv env req st w))"
    by (cases "serve_admin web cenv env req st w") (auto dest: serve_admin_run)
  show "\<exists>ks. length ks \<le> length gs \<and> process_run env ks (st, w) (snd (propose_round cenv env gs st w))"
    by (cases "propose_round cenv env gs st w") (auto dest: propose_round_run)
  show "process_run env [] (st, w) (snd (print_status env st w))"
    by (cases "print_status env st w") (auto dest: print_status_run)
qed

subsection \<open>What holds of all runs\<close>

lemma nodes_run_serve:
  assumes "nodes_run env (ns, w) (ns', w')" "list_all2 (serves env {}) cfgs ns"
  shows "list_all2 (serves env {}) cfgs ns'"
  using assms
proof (induction "(ns, w)" "(ns', w')" arbitrary: ns' w' rule: nodes_run.induct)
  case (works ms v i n' v')
  then have i: "list_all2 (serves env {}) cfgs ms" "i < length cfgs" by (auto dest: list_all2_lengthD)
  have "serves env {} (cfgs ! i) (ms ! i)" by (rule list_all2_nthD [OF i])
  then have "serves env {} (cfgs ! i) n'" by (rule serves_step [OF _ works(4)]) simp
  with i(1) have "list_all2 (serves env {}) (cfgs[i := cfgs ! i]) (ms[i := n'])" by (rule list_all2_update_cong)
  then show ?case by simp
qed

lemma idem_keys_snoc:
  "idem_keys (Suc k) st = idem_keys k st @ [idem_key (ds_node_id_base st) (ds_idem st + of_nat k)]"
  by (simp add: idem_keys_nth)

lemma process_run_keeps:
  assumes "process_run env ks (st, w) (st', w')"
  shows "ds_group_ids st' = ds_group_ids st \<and> ds_node_id_base st' = ds_node_id_base st \<and>
    ds_idem st' = ds_idem st + of_nat (length ks) \<and> ks = idem_keys (length ks) st \<and>
    (\<forall>cfgs. list_all2 (serves env {}) cfgs (ds_nodes st) \<longrightarrow> list_all2 (serves env {}) cfgs (ds_nodes st'))"
  using assms
proof (induction ks "(st, w)" "(st', w')" arbitrary: st' w' rule: process_run.induct)
  case (draws ks st1 w1 k st2)
  then show ?case
    by (auto simp: next_idem_key idem_keys_snoc simp del: idem_keys.simps)
qed (auto intro: nodes_run_serve)

text \<open>
  C11. A process stays well formed. Once \<^verbatim>\<open>main\<close> has started the nodes of its command
  line, whatever requests, rounds, status reports and work of the nodes are interleaved in
  whatever order: the process keeps its groups and its nodes, every node stays well formed
  on the configuration it was started with, and the keys it draws are its first
  ones in order, so that they are distinct for the first 2 to the 32 draws no matter which
  handlers raced for them.
\<close>

theorem process_stays_ok:
  assumes "main env rounds fuel seen late standby_env a fs = (Some (Ok st), w, auto)"
    and "raft_keeps_store (me_raft env)" and "process_run env ks (st, w) (st', w')"
  shows "ds_group_ids st' = zero_upto (arg_groups a) \<and>
    (\<exists>cfgs. map Ok cfgs = (case arg_mode a of ClusterMode \<Rightarrow> map Ok (cluster_configs a) | NodeMode \<Rightarrow> [node_config standby_env a]) \<and>
       list_all2 node_ok cfgs (ds_nodes st')) \<and>
    ks = idem_keys (length ks) st \<and> (length ks \<le> 2 ^ 32 \<longrightarrow> distinct ks)"
proof -
  note k = process_run_keeps [OF assms(3)] and m = main_serves [OF assms(1)]
  obtain cfgs where c: "list_all2 (serves env (set (ds_group_ids st))) cfgs (ds_nodes st)"
    "map Ok cfgs = (case arg_mode a of ClusterMode \<Rightarrow> map Ok (cluster_configs a) | NodeMode \<Rightarrow> [node_config standby_env a])"
    using m by blast
  from c(1) have "list_all2 (serves env {}) cfgs (ds_nodes st)" by (rule list_all2_mono) (simp add: serves_def)
  with k have "list_all2 (serves env {}) cfgs (ds_nodes st')" by blast
  then have "list_all2 node_ok cfgs (ds_nodes st')"
    by (rule list_all2_mono) (auto simp: serves_def intro: node_ok_reachable [OF assms(2)])
  moreover have "distinct ks" if "length ks \<le> 2 ^ 32"
    using idem_keys_distinct [of st _ "length ks"] main_keys [OF assms(1)] k that by metis
  ultimately show ?thesis using k m c(2) by auto
qed

theorem process_stays_ok_witness:
  "\<exists>st w st' k l. main solo_env (\<lambda>_. []) 1 (\<lambda>_ _. Some 1) (\<lambda>_. False) False sample_args [] = (Some (Ok st), w, True) \<and>
     process_run solo_env [k, l] (st, w) (st', w) \<and> ds_group_ids st' = [0, 1] \<and> k \<noteq> l \<and>
     (\<exists>cfg n. node_config False sample_args = Ok cfg \<and> ds_nodes st' = [n] \<and> node_ok cfg n)"
proof -
  obtain st w where m: "main solo_env (\<lambda>_. []) 1 (\<lambda>_ _. Some 1) (\<lambda>_. False) False sample_args [] = (Some (Ok st), w, True)"
    using sample_main by blast
  obtain k st1 where k: "next_idem st = (k, st1)" by (metis surj_pair)
  obtain l st2 where l: "next_idem st1 = (l, st2)" by (metis surj_pair)
  have run: "process_run solo_env [k, l] (st, w) (st2, w)"
    using process_run.draws [OF process_run_draw [OF k] l] by simp
  have "arg_mode sample_args = NodeMode" "zero_upto (arg_groups sample_args) = [0, 1]"
    by (simp_all add: sample_args_def args_default_def zero_upto_def upt_rec)
  with process_stays_ok [OF m solo_keeps_store run]
  have "ds_group_ids st2 = [0, 1]" "k \<noteq> l"
    "\<exists>cfg n. node_config False sample_args = Ok cfg \<and> ds_nodes st2 = [n] \<and> node_ok cfg n"
    by (auto simp: list_all2_Cons1 map_eq_Cons_conv eq_commute [of "Ok _" "node_config _ _"])
  with m run show ?thesis by blast
qed

end
