(* ===== verification/Spec2Isabelle.thy ===== *)
theory Spec2Isabelle
  imports Log_Handles Catalog_Runs Demo_Http Demo_Runs
begin

section \<open>Verification of bf-multiraft\<close>

text \<open>
  bf-multiraft runs many Raft groups on one set of nodes. Every node holds one peer per
  group; all groups of a node share its connections. The consensus itself is the
  openraft library; the repository provides what openraft works on (log stores, state
  machine, network) and the facade clients call. The theories follow the crates under
  \<^verbatim>\<open>src/crates\<close>, in the order in which they build on each other.

  \<^bold>\<open>The parts of the program and their theories.\<close>

  \<^item> \<^verbatim>\<open>multiraft-core\<close> (configuration, errors, request and response, snapshot
    advertisements): \<open>Core_Types\<close>.
  \<^item> \<^verbatim>\<open>multiraft-fsm\<close>: the trait \<^verbatim>\<open>StateMachine\<close> is the record of operations and the
    locale \<open>state_machine\<close> of \<open>State_Machine\<close>; \<^verbatim>\<open>CounterFsm\<close> is
    \<open>Counter_Fsm\<close>, which interprets the locale.
  \<^item> \<^verbatim>\<open>multiraft-store\<close>, logs: \<open>Log_Store\<close> has the contract of a log store as a
    locale, \<open>Log_Mem\<close> (\<^verbatim>\<open>log_mem.rs\<close>) and \<open>Log_File\<close> (\<^verbatim>\<open>log_file.rs\<close>)
    implement and interpret it, \<open>Log_Durable\<close> and \<open>Log_Props\<close> relate the file
    store to its directory, \<open>Log_Handles\<close> models the locked handles openraft works with.
  \<^item> \<^verbatim>\<open>multiraft-store\<close>, snapshots: \<open>Snapshot_Catalog\<close> (\<^verbatim>\<open>snapshot_catalog.rs\<close>), its
    abstract specification \<open>Catalog_Spec\<close>, \<open>Catalog_Props\<close> and
    \<open>Catalog_Runs\<close> (any sequence of calls); \<open>Sm_Bridge\<close>
    (\<^verbatim>\<open>sm_bridge.rs\<close>: applying, building and installing snapshots, the standby pipeline)
    and \<open>Sm_Props\<close>.
  \<^item> \<^verbatim>\<open>multiraft-net\<close>, transport: \<open>Net_Wire\<close> (RPC handlers, the dispatch loop of a
    node, the gRPC demultiplexer), \<open>Net_Router\<close> (both routers, connection metrics,
    the channel cache under concurrent calls, also the stub network of
    \<^verbatim>\<open>multiraft-store\<close>) and \<open>Net_Props\<close>.
  \<^item> \<^verbatim>\<open>multiraft-net\<close>, facade: \<open>Snapshot_Ads\<close> (\<^verbatim>\<open>SnapshotRuntime\<close>) and
    \<open>Multi_Raft\<close> (\<^verbatim>\<open>multiraft.rs\<close>: cluster glue, start, group creation, client
    operations, snapshots, leader watches, shutdown; and \<^verbatim>\<open>create_node\<close> of
    \<^verbatim>\<open>node.rs\<close>), with \<open>Multi_Raft_Props\<close>, \<open>Raft_Contract\<close> (what is relied on
    of openraft, and that it makes every peer a replica), \<open>Linear_Read\<close> (writes and
    linearizable reads end to end) and \<open>Node_Life\<close> (a node's reachable states).
  \<^item> \<^verbatim>\<open>multiraft-demo\<close>: \<open>Demo\<close> (\<^verbatim>\<open>main.rs\<close>: configuration, start-up, propose loop, admin
    handlers), \<open>Demo_Props\<close>, \<open>Demo_Http\<close>
    (requests end to end), \<open>Demo_Start\<close> (a successful start, retries) and
    \<open>Demo_Runs\<close> (a running process: requests, loops and nodes interleaved).
  \<^item> Shared: \<open>Prelude\<close> (outcomes, machine integers, lists), \<open>BTree_Map\<close> (the
    ordered map of the Rust library, with a map locale and its interpretation),
    \<open>Std_Fs\<close> (a file system of paths with directories, faults and crashes between
    calls), \<open>Serde\<close> (codecs, and concrete ones for the concrete instances),
    \<open>Solo_Raft\<close> (a concrete openraft for them).

  \<^bold>\<open>How state and effects are modelled.\<close> Structs are records, enums datatypes. A
  function that mutates its object or the world returns them updated. A fallible function
  returns an \<open>outcome\<close>: \<open>Ok\<close>, \<open>Err\<close> or \<open>Panicked\<close> (an
  \<^verbatim>\<open>unwrap\<close>, an assertion or, in a debug build, an arithmetic overflow). Integers keep their
  width; i64 and u64 additions depend on the build profile. Every file operation of the code
  is one call of the file system model and may fail there; a crash is the state between two
  calls. What runs concurrently in the code is a step relation (channel cache, the store of a peer, node,
  process, the sessions of a client), a sequence of locked calls (log handles), or what others
  do between the locked steps of a task (\<open>task_gaps\<close> of the standby snapshot).

  \<^bold>\<open>What is a parameter, and what is assumed of it.\<close> Code that is not part of the
  repository is a parameter of the definitions: openraft (\<open>openraft\<close>,
  \<open>raft_ops\<close>), serde (codecs), SHA-256, the operating system (\<open>os\<close>), sockets
  (\<open>connect\<close>, \<open>me_bind\<close>). The assumptions are named: \<open>codec_ok\<close>,
  \<open>log_codecs_ok\<close>, \<open>wire_ok\<close> and \<open>counter_env_ok\<close> (what was encoded decodes
  to itself), \<open>raft_types_ok\<close> (leader ids), \<open>os_ok\<close> and \<open>os_healthy\<close> (the calls
  that do not fail), \<open>raft_keeps_store\<close> (openraft uses a store through its methods) and
  \<open>raft_contract\<close>: openraft hands a store the committed entries in order, stops the peer
  when the store fails, builds snapshots and installs those that stores of other peers
  built, and keeps its promises on writes and reads. It speaks of a history that openraft's
  state carries as an auxiliary variable, and covers groups without standby offload. Each theorem that assumes one has a concrete instance where it holds.

  \<^bold>\<open>What the theorems show.\<close> Every property carries its number C1 to C40 in the
  text before it.

  \<^item> Counter: exactly-once counting by idempotency keys and how a run fails, exactness in debug builds,
    independence of order and repetition, recovery from a snapshot.
  \<^item> Logs: the file store refines the memory store for every operation and behind
    shared handles under any interleaving and any faults; a restart finds the store as it
    was; what a crash can leave, and the one case that is inconsistent.
  \<^item> Snapshots: writing and pruning refine an abstract catalog, reading is verified and
    complete, what a torn write blocks; a batch is applied in order, a rejected entry; snapshot
    transfer, the standby pipeline and its convergence, and that offloading voters never dump
    their machine.
  \<^item> Transport: a call reaches the peer of its group and no other, both transports
    agree, one channel per peer under races, what undeliverable and malformed messages do.
  \<^item> Facade: groups are initialized once, whoever comes last; advertisements survive a
    restart; a standby snapshot reaches a voter; shutdown; a node stays well formed through
    any sequence of steps; acknowledged writes are read once, whatever openraft does in the
    background.
  \<^item> Demo: increments over HTTP count once and stale answers are marked; keys are unique
    across nodes within their bounds, but repeat after a restart; ports; waiting for leaders
    ends; a process that has started has its nodes, each with every group; group creation
    is decided within 20 rounds; every handler is a run of single node operations and key
    draws, and whatever their interleaving the nodes stay well formed and keys distinct.

  \<^bold>\<open>Bounds and fuel.\<close> Only loops without a bound of their own have fuel: the wait for
  leaders (the theorem gives the result for any fuel above the tick of the deadline, which
  is enough since every turn sleeps one tick) and the decoder of the concrete codecs. The
  20 rounds of group creation in the demo are the code's own constant.

  \<^bold>\<open>Not modelled.\<close> openraft, tonic, axum and tokio themselves; the glue that hands a
  tonic request to the demultiplexer, and the matching of paths and decoding of bodies before
  \<open>serve_admin\<close>; command line parsing and logging; the sleeps of the endless loops of the
  demo (a turn is \<open>propose_round\<close> or \<open>print_status\<close>); the protobuf build script and the
  crate roots, which hold declarations and re-exports only; accessors that return a field and
  \<^verbatim>\<open>Debug\<close> instances; power loss below the file system calls (no call of the
  log store syncs, which the findings record).
\<close>

end
